(* ===== verification/Go_Prelude.thy ===== *)
theory Go_Prelude
  imports Main "HOL-Library.Word" "HOL-Library.Monad_Syntax"
begin

section \<open>Shared vocabulary: Go values, slices, panics and number formatting\<close>

text \<open>
  What every other theory of the development uses of the Go language.

  \<^item> \<open>uint8\<close>, \<open>uint16\<close>, \<open>uint32\<close>, \<open>uint64\<close> are words of that width; \<open>int\<close> is a 64-bit
    integer in the code and appears here as \<open>nat\<close> where it is a length or a count.
  \<^item> a \<open>[]byte\<close> is a list of 8-bit words; a Go \<open>string\<close> is a sequence of bytes, hence an
    Isabelle \<^typ>\<open>string\<close> (a list of 8-bit characters), and \<open>string(b)\<close>, \<open>[]byte(s)\<close> are
    \<open>to_str\<close>, \<open>to_bytes\<close>.
  \<^item> a slice that may be \<open>nil\<close> is an \<open>option\<close>.
  \<^item> a computation that may panic (index or slice bounds out of range, nil dereference) has type
    \<open>'a option\<close>, with \<open>None\<close> for the panic.  An error that the code returns is a value of a sum
    type, so a function that may do both has type \<open>(error + 'a) option\<close>.
\<close>

unbundle bit_operations_syntax

type_synonym u8 = "8 word"
type_synonym u16 = "16 word"
type_synonym u32 = "32 word"
type_synonym u64 = "64 word"
type_synonym bytes = "u8 list"

named_theorems wire_len "lengths of encoded values"
named_theorems wire_codec "decoding undoes encoding"
named_theorems no_panic "operations that do not panic, with their results"

subsection \<open>Strings and byte slices\<close>

definition to_bytes :: "string \<Rightarrow> bytes" where
  "to_bytes s = map of_char s"

definition to_str :: "bytes \<Rightarrow> string" where
  "to_str b = map (\<lambda>w. char_of (unat w)) b"

lemma length_to_bytes [simp]: "length (to_bytes s) = length s"
  by (simp add: to_bytes_def)

lemma length_to_str [simp]: "length (to_str b) = length b"
  by (simp add: to_str_def)

lemma to_bytes_Nil [simp]: "to_bytes [] = []"
  by (simp add: to_bytes_def)

lemma byte_of_char_back: "char_of (unat (of_char c :: u8)) = c"
proof -
  have "(of_char c :: nat) mod 256 = of_char c"
    by (rule of_char_mod_256)
  then have "(of_char c :: nat) < 256"
    by (metis mod_less_divisor zero_less_numeral)
  moreover have "(of_char c :: u8) = of_nat (of_char c)"
    by (simp add: of_nat_of_char)
  ultimately have "unat (of_char c :: u8) = of_char c"
    by (simp add: unat_of_nat take_bit_nat_eq_self)
  then show ?thesis by simp
qed

lemma to_str_to_bytes [simp]: "to_str (to_bytes s) = s"
  by (simp add: to_str_def to_bytes_def byte_of_char_back comp_def)

text \<open>\<open>copy(dst, src)\<close>: the contents of \<open>dst\<close> afterwards.\<close>

definition go_copy :: "'a list \<Rightarrow> 'a list \<Rightarrow> 'a list" where
  "go_copy dst src = take (length dst) src @ drop (length src) dst"

lemma length_go_copy [simp]: "length (go_copy dst src) = length dst"
  by (simp add: go_copy_def)

lemma take_go_copy: "length src \<le> length dst \<Longrightarrow> take (length src) (go_copy dst src) = src"
  by (simp add: go_copy_def)

lemma drop_go_copy: "length src \<le> length dst \<Longrightarrow>
    drop (length src) (go_copy dst src) = drop (length src) dst"
  by (simp add: go_copy_def)

lemma go_copy_exact: "length src = length dst \<Longrightarrow> go_copy dst src = src"
  by (simp add: go_copy_def)

text \<open>\<open>xs[lo:hi]\<close> with its bounds check (the capacity is the length here).\<close>

definition go_slice :: "'a list \<Rightarrow> nat \<Rightarrow> nat \<Rightarrow> 'a list option" where
  "go_slice xs lo hi = (if lo \<le> hi \<and> hi \<le> length xs then Some (take (hi - lo) (drop lo xs)) else None)"

lemma go_slice_eq_Some:
  "go_slice xs lo hi = Some ys \<longleftrightarrow> lo \<le> hi \<and> hi \<le> length xs \<and> ys = take (hi - lo) (drop lo xs)"
  by (auto simp: go_slice_def)

subsection \<open>Write cursors\<close>

text \<open>
  The packing functions keep a slice \<open>p\<close> that starts behind what they have written.  A cursor
  \<open>(d, r)\<close> is the buffer \<open>d @ r\<close> with \<open>p = r\<close>; \<open>poke bs\<close> stores \<open>bs\<close> at the front of \<open>p\<close> and
  advances \<open>p\<close>, and panics when \<open>p\<close> is too short.
\<close>

type_synonym wbuf = "bytes \<times> bytes"

definition poke :: "bytes \<Rightarrow> wbuf \<Rightarrow> wbuf option" where
  "poke bs w = (case w of (d, r) \<Rightarrow>
     if length bs \<le> length r then Some (d @ bs, drop (length bs) r) else None)"

lemma poke_ok [no_panic]:
  "length bs \<le> length r \<Longrightarrow> poke bs (d, r) = Some (d @ bs, drop (length bs) r)"
  by (simp add: poke_def)

lemma poke_eq_Some: "poke bs (d, r) = Some w \<longleftrightarrow>
    length bs \<le> length r \<and> w = (d @ bs, drop (length bs) r)"
  by (auto simp: poke_def)

subsection \<open>Numbers in text\<close>

text \<open>The digits that \<open>fmt.Sprintf\<close> prints for the verbs \<open>%d\<close>, \<open>%o\<close> and \<open>%x\<close>.\<close>

definition digit :: "nat \<Rightarrow> char" where
  "digit d = char_of (if d < 10 then 48 + d else 87 + d)"

fun digits :: "nat \<Rightarrow> nat \<Rightarrow> string" where
  "digits b n = (if b < 2 \<or> n < b then [digit n] else digits b (n div b) @ [digit (n mod b)])"

declare digits.simps [simp del]

definition fmt_d :: "nat \<Rightarrow> string" where "fmt_d n = digits 10 n"
definition fmt_o :: "nat \<Rightarrow> string" where "fmt_o n = digits 8 n"
definition fmt_x :: "nat \<Rightarrow> string" where "fmt_x n = digits 16 n"

text \<open>The number a digit string stands for; printing is injective.\<close>

definition digit_val :: "char \<Rightarrow> nat" where
  "digit_val c = (let n = of_char c in if n < 58 then n - 48 else n - 87)"

definition num_val :: "nat \<Rightarrow> string \<Rightarrow> nat" where
  "num_val b s = foldl (\<lambda>a c. a * b + digit_val c) 0 s"

lemma digit_val_digit: "d < 16 \<Longrightarrow> digit_val (digit d) = d"
  by (simp add: digit_val_def digit_def Let_def)

lemma num_val_digits: "2 \<le> b \<Longrightarrow> b \<le> 16 \<Longrightarrow> num_val b (digits b n) = n"
proof (induction b n rule: digits.induct)
  case (1 b n)
  show ?case
  proof (cases "n < b")
    case True
    with "1.prems" show ?thesis
      by (subst digits.simps) (simp add: num_val_def digit_val_digit)
  next
    case False
    with "1.prems" have IH: "num_val b (digits b (n div b)) = n div b"
      using "1.IH" by simp
    have m: "digit_val (digit (n mod b)) = n mod b"
    proof (rule digit_val_digit)
      have "n mod b < b" using "1.prems" by simp
      then show "n mod b < 16" using "1.prems"(2) by (rule order_less_le_trans)
    qed
    have "num_val b (digits b n) = num_val b (digits b (n div b)) * b + digit_val (digit (n mod b))"
      using False "1.prems" by (subst digits.simps) (simp add: num_val_def)
    then show ?thesis using IH m by simp
  qed
qed

lemma fmt_d_inject: "fmt_d a = fmt_d b \<longleftrightarrow> a = b"
proof
  assume "fmt_d a = fmt_d b"
  then have "num_val 10 (digits 10 a) = num_val 10 (digits 10 b)"
    by (simp add: fmt_d_def)
  then show "a = b" by (simp add: num_val_digits)
qed simp

subsection \<open>Maps from counters\<close>

text \<open>Updating a heap at one address leaves the others alone; used for every pointer store.\<close>

lemma fun_upd_apply_other: "a \<noteq> b \<Longrightarrow> (f(a := v)) b = f b"
  by simp

subsection \<open>The bytes of a file\<close>

text \<open>Writing at an offset; a gap before it is filled with zeros.\<close>

definition overwrite :: "bytes \<Rightarrow> nat \<Rightarrow> bytes \<Rightarrow> bytes" where
  "overwrite c off d = take off c @ replicate (off - length c) 0 @ d @ drop (off + length d) c"

lemma overwrite_Nil: "off \<le> length c \<Longrightarrow> overwrite c off [] = c"
  by (simp add: overwrite_def)

lemma length_overwrite: "length (overwrite c off d) = max (length c) (off + length d)"
  by (simp add: overwrite_def min_def max_def)

lemma overwrite_append:
  "overwrite (overwrite c off d) (off + length d) e = overwrite c off (d @ e)"
proof -
  have "take (off + length d) (overwrite c off d) = take off c @ replicate (off - length c) 0 @ d"
    by (cases "length c \<le> off") (simp_all add: overwrite_def)
  moreover have "drop (off + length d + length e) (overwrite c off d) = drop (off + length d + length e) c"
    by (simp add: overwrite_def min_def ac_simps)
  moreover have "off + length d - length (overwrite c off d) = 0" by (simp add: length_overwrite)
  ultimately show ?thesis by (simp add: overwrite_def [of "overwrite c off d"]) (simp add: overwrite_def add.assoc)
qed

lemma read_overwrite: "take (length d) (drop off (overwrite c off d)) = d"
  by (simp add: overwrite_def min_def)

text \<open>The bytes by their positions, zero behind the end.\<close>

definition at :: "bytes \<Rightarrow> nat \<Rightarrow> u8" where
  "at c i = (if i < length c then c ! i else 0)"

lemma at_eqI: "length c = length d \<Longrightarrow> (\<And>i. at c i = at d i) \<Longrightarrow> c = d"
  by (intro nth_equalityI) (auto simp: at_def, metis)

lemma at_overwrite: "at (overwrite c off d) i = (if off \<le> i \<and> i < off + length d then d ! (i - off) else at c i)"
  by (auto simp: at_def overwrite_def nth_append min_def)

lemma at_append_zeros [simp]: "at (c @ replicate k 0) i = at c i"
  by (auto simp: at_def nth_append)

lemma at_take: "at (take k c) i = (if i < k then at c i else 0)"
  by (auto simp: at_def)

end
