(* ===== verification/P9_Types.thy ===== *)
theory P9_Types
  imports Go_Prelude
begin

section \<open>The 9P2000 data model (p/p9.go)\<close>

text \<open>
  The constants and the structs of package \<open>p\<close>: message types, mode bits, \<open>Error\<close>, \<open>Qid\<close>,
  \<open>Dir\<close>, \<open>Fcall\<close>, and the two tables of minimum message sizes.  A struct is a record whose fields
  carry a short prefix (\<open>qid_\<close>, \<open>dir_\<close>, \<open>fc_\<close>); \<open>Fcall\<close> embeds a \<open>Qid\<close> and a \<open>Dir\<close>, which are
  the fields \<open>fc_Qid\<close> and \<open>fc_Dir\<close>.
\<close>

subsection \<open>Message types\<close>

definition Tversion :: u8 where "Tversion = 100"
definition Rversion :: u8 where "Rversion = 101"
definition Tauth :: u8 where "Tauth = 102"
definition Rauth :: u8 where "Rauth = 103"
definition Tattach :: u8 where "Tattach = 104"
definition Rattach :: u8 where "Rattach = 105"
definition Terror :: u8 where "Terror = 106"
definition Rerror :: u8 where "Rerror = 107"
definition Tflush :: u8 where "Tflush = 108"
definition Rflush :: u8 where "Rflush = 109"
definition Twalk :: u8 where "Twalk = 110"
definition Rwalk :: u8 where "Rwalk = 111"
definition Topen :: u8 where "Topen = 112"
definition Ropen :: u8 where "Ropen = 113"
definition Tcreate :: u8 where "Tcreate = 114"
definition Rcreate :: u8 where "Rcreate = 115"
definition Tread :: u8 where "Tread = 116"
definition Rread :: u8 where "Rread = 117"
definition Twrite :: u8 where "Twrite = 118"
definition Rwrite :: u8 where "Rwrite = 119"
definition Tclunk :: u8 where "Tclunk = 120"
definition Rclunk :: u8 where "Rclunk = 121"
definition Tremove :: u8 where "Tremove = 122"
definition Rremove :: u8 where "Rremove = 123"
definition Tstat :: u8 where "Tstat = 124"
definition Rstat :: u8 where "Rstat = 125"
definition Twstat :: u8 where "Twstat = 126"
definition Rwstat :: u8 where "Rwstat = 127"
definition Tlast :: u8 where "Tlast = 128"

lemmas msg_type_defs = Tversion_def Rversion_def Tauth_def Rauth_def Tattach_def Rattach_def
  Terror_def Rerror_def Tflush_def Rflush_def Twalk_def Rwalk_def Topen_def Ropen_def Tcreate_def
  Rcreate_def Tread_def Rread_def Twrite_def Rwrite_def Tclunk_def Rclunk_def Tremove_def
  Rremove_def Tstat_def Rstat_def Twstat_def Rwstat_def Tlast_def

definition IOHDRSZ :: u32 where "IOHDRSZ = 24"
definition MSIZE :: u32 where "MSIZE = 8192 + IOHDRSZ"

subsection \<open>Mode, type and mount bits\<close>

definition MORDER :: u32 where "MORDER = 0x0003"
definition MREPL :: u32 where "MREPL = 0x0000"
definition MBEFORE :: u32 where "MBEFORE = 0x0001"
definition MAFTER :: u32 where "MAFTER = 0x0002"
definition MCREATE :: u32 where "MCREATE = 0x0004"
definition MCACHE :: u32 where "MCACHE = 0x0010"
definition MMASK :: u32 where "MMASK = 0x0017"

definition OREAD :: u8 where "OREAD = 0"
definition OWRITE :: u8 where "OWRITE = 1"
definition ORDWR :: u8 where "ORDWR = 2"
definition OEXEC :: u8 where "OEXEC = 3"
definition OTRUNC :: u8 where "OTRUNC = 16"
definition OCEXEC :: u8 where "OCEXEC = 32"
definition ORCLOSE :: u8 where "ORCLOSE = 64"

lemmas open_mode_defs = OREAD_def OWRITE_def ORDWR_def OEXEC_def OTRUNC_def OCEXEC_def ORCLOSE_def

definition QTDIR :: u8 where "QTDIR = 0x80"
definition QTAPPEND :: u8 where "QTAPPEND = 0x40"
definition QTEXCL :: u8 where "QTEXCL = 0x20"
definition QTMOUNT :: u8 where "QTMOUNT = 0x10"
definition QTAUTH :: u8 where "QTAUTH = 0x08"
definition QTTMP :: u8 where "QTTMP = 0x04"
definition QTSYMLINK :: u8 where "QTSYMLINK = 0x02"
definition QTLINK :: u8 where "QTLINK = 0x01"
definition QTFILE :: u8 where "QTFILE = 0x00"

lemmas qid_type_defs = QTDIR_def QTAPPEND_def QTEXCL_def QTMOUNT_def QTAUTH_def QTTMP_def
  QTSYMLINK_def QTLINK_def QTFILE_def

definition DMDIR :: u32 where "DMDIR = 0x80000000"
definition DMAPPEND :: u32 where "DMAPPEND = 0x40000000"
definition DMEXCL :: u32 where "DMEXCL = 0x20000000"
definition DMMOUNT :: u32 where "DMMOUNT = 0x10000000"
definition DMAUTH :: u32 where "DMAUTH = 0x08000000"
definition DMTMP :: u32 where "DMTMP = 0x04000000"
definition DMSYMLINK :: u32 where "DMSYMLINK = 0x02000000"
definition DMLINK :: u32 where "DMLINK = 0x01000000"
definition DMDEVICE :: u32 where "DMDEVICE = 0x00800000"
definition DMNAMEDPIPE :: u32 where "DMNAMEDPIPE = 0x00200000"
definition DMSOCKET :: u32 where "DMSOCKET = 0x00100000"
definition DMSETUID :: u32 where "DMSETUID = 0x00080000"
definition DMSETGID :: u32 where "DMSETGID = 0x00040000"
definition DMREAD :: u32 where "DMREAD = 0x4"
definition DMWRITE :: u32 where "DMWRITE = 0x2"
definition DMEXEC :: u32 where "DMEXEC = 0x1"

lemmas file_mode_defs = DMDIR_def DMAPPEND_def DMEXCL_def DMMOUNT_def DMAUTH_def DMTMP_def
  DMSYMLINK_def DMLINK_def DMDEVICE_def DMNAMEDPIPE_def DMSOCKET_def DMSETUID_def DMSETGID_def
  DMREAD_def DMWRITE_def DMEXEC_def

definition NOTAG :: u16 where "NOTAG = 0xFFFF"
definition NOFID :: u32 where "NOFID = 0xFFFFFFFF"
definition NOUID :: u32 where "NOUID = 0xFFFFFFFF"

subsection \<open>Errors\<close>

text \<open>The error numbers are those of package \<open>syscall\<close> on Linux.\<close>

definition ECONNRESET :: u32 where "ECONNRESET = 104"
definition EEXIST :: u32 where "EEXIST = 17"
definition EINVAL :: u32 where "EINVAL = 22"
definition EIO :: u32 where "EIO = 5"
definition ENOTDIR :: u32 where "ENOTDIR = 20"
definition ENOENT :: u32 where "ENOENT = 2"
definition ENOSYS :: u32 where "ENOSYS = 38"
definition EPERM :: u32 where "EPERM = 1"

datatype perror = Error (err_Err: string) (err_Errornum: u32)

text \<open>\<open>fmt.Sprintf("%s: %d", err.Err, err.Errornum)\<close>: \<open>%d\<close> prints the number of an \<open>Errno\<close>.\<close>

definition Error_Error :: "perror option \<Rightarrow> string" where
  "Error_Error err = (case err of
     Some e \<Rightarrow> err_Err e @ '': '' @ fmt_d (unat (err_Errornum e))
   | None \<Rightarrow> '''')"

subsection \<open>Qid, Dir, Fcall\<close>

record Qid =
  qid_Type :: u8
  qid_Version :: u32
  qid_Path :: u64

record Dir =
  dir_Size :: u16
  dir_Type :: u16
  dir_Dev :: u32
  dir_Qid :: Qid
  dir_Mode :: u32
  dir_Atime :: u32
  dir_Mtime :: u32
  dir_Length :: u64
  dir_Name :: string
  dir_Uid :: string
  dir_Gid :: string
  dir_Muid :: string
  dir_Ext :: string
  dir_Uidnum :: u32
  dir_Gidnum :: u32
  dir_Muidnum :: u32

text \<open>
  \<open>fc_Pkt\<close> and \<open>fc_Data\<close> hold the contents of the slices \<open>Pkt\<close> and \<open>Data\<close>.  For a message built by
  a packing function both are views into \<open>Buf\<close>; the operations that write through one of these
  slices (\<open>SetTag\<close>, \<open>SetRreadCount\<close>, \<open>copy(fc.Data, \<dots>)\<close>) update the contents of the others too.
\<close>

record Fcall =
  fc_Size :: u32
  fc_Type :: u8
  fc_Fid :: u32
  fc_Tag :: u16
  fc_Msize :: u32
  fc_Version :: string
  fc_Oldtag :: u16
  fc_Error :: string
  fc_Qid :: Qid
  fc_Iounit :: u32
  fc_Afid :: u32
  fc_Uname :: string
  fc_Aname :: string
  fc_Perm :: u32
  fc_Name :: string
  fc_Mode :: u8
  fc_Newfid :: u32
  fc_Wname :: "string list"
  fc_Wqid :: "Qid list"
  fc_Offset :: u64
  fc_Count :: u32
  fc_Data :: bytes
  fc_Dir :: Dir
  fc_Errornum :: u32
  fc_Ext :: string
  fc_Unamenum :: u32
  fc_Pkt :: bytes
  fc_Buf :: bytes

text \<open>The zero values that \<open>new(T)\<close> gives.\<close>

definition zero_Qid :: Qid where
  "zero_Qid = \<lparr>qid_Type = 0, qid_Version = 0, qid_Path = 0\<rparr>"

definition zero_Dir :: Dir where
  "zero_Dir = \<lparr>dir_Size = 0, dir_Type = 0, dir_Dev = 0, dir_Qid = zero_Qid, dir_Mode = 0,
     dir_Atime = 0, dir_Mtime = 0, dir_Length = 0, dir_Name = [], dir_Uid = [], dir_Gid = [],
     dir_Muid = [], dir_Ext = [], dir_Uidnum = 0, dir_Gidnum = 0, dir_Muidnum = 0\<rparr>"

definition zero_Fcall :: Fcall where
  "zero_Fcall = \<lparr>fc_Size = 0, fc_Type = 0, fc_Fid = 0, fc_Tag = 0, fc_Msize = 0,
     fc_Version = [], fc_Oldtag = 0, fc_Error = [], fc_Qid = zero_Qid, fc_Iounit = 0,
     fc_Afid = 0, fc_Uname = [], fc_Aname = [], fc_Perm = 0, fc_Name = [], fc_Mode = 0,
     fc_Newfid = 0, fc_Wname = [], fc_Wqid = [], fc_Offset = 0, fc_Count = 0, fc_Data = [],
     fc_Dir = zero_Dir, fc_Errornum = 0, fc_Ext = [], fc_Unamenum = 0, fc_Pkt = [], fc_Buf = []\<rparr>"

definition NewFcall :: "u32 \<Rightarrow> Fcall" where
  "NewFcall sz = zero_Fcall\<lparr>fc_Buf := replicate (unat sz) 0\<rparr>"

subsection \<open>Minimum message sizes\<close>

text \<open>
  Indexed by the message type minus \<^const>\<open>Tversion\<close>.  The second table has no entry for \<open>Rwstat\<close>:
  after the \<open>8\<close> of \<open>Twstat\<close> it goes on with the \<open>20\<close> of \<open>Tbread\<close>.
\<close>

definition minFcsize :: "nat list" where
  "minFcsize = [6, 6, 8, 13, 12, 13, 0, 2, 2, 0, 10, 2, 5, 17, 11, 17, 16, 4, 16, 4, 4, 0, 4, 0,
     4, 4, 8, 0, 20, 4, 20, 4, 16, 0]"

definition minFcusize :: "nat list" where
  "minFcusize = [6, 6, 12, 13, 16, 13, 0, 6, 2, 0, 10, 2, 5, 17, 13, 17, 16, 4, 16, 4, 4, 0, 4, 0,
     4, 4, 8, 20, 4, 20, 4, 16, 0]"

end
