(* ===== verification/P9_Codec.thy ===== *)
theory P9_Codec
  imports P9_Types
begin

section \<open>Field encodings (p/p9.go: gint8 .. UnpackDir)\<close>

text \<open>
  The readers \<open>gint8\<close> .. \<open>gstat\<close> take a slice and return a value and the rest of the slice; they
  index without a check, so a short slice is a panic (\<open>None\<close>).  \<open>gstr\<close> and \<open>gstat\<close> return a nil
  slice (inner \<open>None\<close>) when a string runs past the end.  The writers \<open>pint8\<close> .. \<open>pstat\<close> work on a
  write cursor.  The byte layouts \<open>le16\<close> .. \<open>enc_dir\<close> are the reference encodings the two sides
  are proved to agree on; the locale \<open>codec\<close> is that agreement, and every field type of the
  protocol is an interpretation of it.
\<close>

subsection \<open>Byte layouts\<close>

definition le16 :: "u16 \<Rightarrow> bytes" where
  "le16 v = [ucast v, ucast (drop_bit 8 v)]"

definition le32 :: "u32 \<Rightarrow> bytes" where
  "le32 v = [ucast v, ucast (drop_bit 8 v), ucast (drop_bit 16 v), ucast (drop_bit 24 v)]"

definition le64 :: "u64 \<Rightarrow> bytes" where
  "le64 v = [ucast v, ucast (drop_bit 8 v), ucast (drop_bit 16 v), ucast (drop_bit 24 v),
     ucast (drop_bit 32 v), ucast (drop_bit 40 v), ucast (drop_bit 48 v), ucast (drop_bit 56 v)]"

lemma length_le [simp, wire_len]:
  "length (le16 v) = 2" "length (le32 w) = 4" "length (le64 x) = 8"
  by (simp_all add: le16_def le32_def le64_def)

definition enc_str :: "string \<Rightarrow> bytes" where
  "enc_str s = le16 (of_nat (length s)) @ to_bytes s"

lemma length_enc_str [simp, wire_len]: "length (enc_str s) = 2 + length s"
  by (simp add: enc_str_def)

definition enc_qid :: "Qid \<Rightarrow> bytes" where
  "enc_qid q = qid_Type q # le32 (qid_Version q) @ le64 (qid_Path q)"

lemma length_enc_qid [simp, wire_len]: "length (enc_qid q) = 13"
  by (simp add: enc_qid_def)

subsection \<open>Readers\<close>

definition gint8 :: "bytes \<Rightarrow> (u8 \<times> bytes) option" where
  "gint8 buf = (case buf of b0 # r \<Rightarrow> Some (b0, r) | _ \<Rightarrow> None)"

definition gint16 :: "bytes \<Rightarrow> (u16 \<times> bytes) option" where
  "gint16 buf = (case buf of b0 # b1 # r \<Rightarrow>
     Some (ucast b0 OR push_bit 8 (ucast b1), r) | _ \<Rightarrow> None)"

definition gint32 :: "bytes \<Rightarrow> (u32 \<times> bytes) option" where
  "gint32 buf = (case buf of b0 # b1 # b2 # b3 # r \<Rightarrow>
     Some (ucast b0 OR push_bit 8 (ucast b1) OR push_bit 16 (ucast b2) OR push_bit 24 (ucast b3), r)
   | _ \<Rightarrow> None)"

definition Gint32 :: "bytes \<Rightarrow> (u32 \<times> bytes) option" where
  "Gint32 buf = gint32 buf"

definition gint64 :: "bytes \<Rightarrow> (u64 \<times> bytes) option" where
  "gint64 buf = (case buf of b0 # b1 # b2 # b3 # b4 # b5 # b6 # b7 # r \<Rightarrow>
     Some (ucast b0 OR push_bit 8 (ucast b1) OR push_bit 16 (ucast b2) OR push_bit 24 (ucast b3)
           OR push_bit 32 (ucast b4) OR push_bit 40 (ucast b5) OR push_bit 48 (ucast b6)
           OR push_bit 56 (ucast b7), r)
   | _ \<Rightarrow> None)"

text \<open>The argument and the returned slice may be nil.\<close>

definition gstr :: "bytes option \<Rightarrow> (string \<times> bytes option) option" where
  "gstr obuf = (case obuf of None \<Rightarrow> Some ('''', None)
     | Some buf \<Rightarrow> do {
         (n, buf) \<leftarrow> gint16 buf;
         if unat n > length buf then Some ('''', None)
         else Some (to_str (take (unat n) buf), Some (drop (unat n) buf)) })"

definition gqid :: "bytes \<Rightarrow> (Qid \<times> bytes) option" where
  "gqid buf = do {
     (t, buf) \<leftarrow> gint8 buf;
     (v, buf) \<leftarrow> gint32 buf;
     (p, buf) \<leftarrow> gint64 buf;
     Some (\<lparr>qid_Type = t, qid_Version = v, qid_Path = p\<rparr>, buf) }"

text \<open>\<open>gstat\<close> fills in the \<open>Dir\<close> it is given and stops at the first nil slice.\<close>

definition gstat :: "bytes \<Rightarrow> Dir \<Rightarrow> bool \<Rightarrow> (Dir \<times> bytes option) option" where
  "gstat buf d dotu = do {
     (v, buf) \<leftarrow> gint16 buf;  d \<leftarrow> Some (d\<lparr>dir_Size := v\<rparr>);
     (v, buf) \<leftarrow> gint16 buf;  d \<leftarrow> Some (d\<lparr>dir_Type := v\<rparr>);
     (v, buf) \<leftarrow> gint32 buf;  d \<leftarrow> Some (d\<lparr>dir_Dev := v\<rparr>);
     (v, buf) \<leftarrow> gqid buf;    d \<leftarrow> Some (d\<lparr>dir_Qid := v\<rparr>);
     (v, buf) \<leftarrow> gint32 buf;  d \<leftarrow> Some (d\<lparr>dir_Mode := v\<rparr>);
     (v, buf) \<leftarrow> gint32 buf;  d \<leftarrow> Some (d\<lparr>dir_Atime := v\<rparr>);
     (v, buf) \<leftarrow> gint32 buf;  d \<leftarrow> Some (d\<lparr>dir_Mtime := v\<rparr>);
     (v, buf) \<leftarrow> gint64 buf;  d \<leftarrow> Some (d\<lparr>dir_Length := v\<rparr>);
     (s, q) \<leftarrow> gstr (Some buf);  d \<leftarrow> Some (d\<lparr>dir_Name := s\<rparr>);
     (case q of None \<Rightarrow> Some (d, None) | Some buf \<Rightarrow> do {
     (s, q) \<leftarrow> gstr (Some buf);  d \<leftarrow> Some (d\<lparr>dir_Uid := s\<rparr>);
     (case q of None \<Rightarrow> Some (d, None) | Some buf \<Rightarrow> do {
     (s, q) \<leftarrow> gstr (Some buf);  d \<leftarrow> Some (d\<lparr>dir_Gid := s\<rparr>);
     (case q of None \<Rightarrow> Some (d, None) | Some buf \<Rightarrow> do {
     (s, q) \<leftarrow> gstr (Some buf);  d \<leftarrow> Some (d\<lparr>dir_Muid := s\<rparr>);
     (case q of None \<Rightarrow> Some (d, None) | Some buf \<Rightarrow>
       if dotu then do {
         (s, q) \<leftarrow> gstr (Some buf);  d \<leftarrow> Some (d\<lparr>dir_Ext := s\<rparr>);
         (case q of None \<Rightarrow> Some (d, None) | Some buf \<Rightarrow> do {
           (v, buf) \<leftarrow> gint32 buf;  d \<leftarrow> Some (d\<lparr>dir_Uidnum := v\<rparr>);
           (v, buf) \<leftarrow> gint32 buf;  d \<leftarrow> Some (d\<lparr>dir_Gidnum := v\<rparr>);
           (v, buf) \<leftarrow> gint32 buf;  d \<leftarrow> Some (d\<lparr>dir_Muidnum := v\<rparr>);
           Some (d, Some buf) }) }
       else Some (d\<lparr>dir_Uidnum := NOUID, dir_Gidnum := NOUID, dir_Muidnum := NOUID\<rparr>, Some buf)) }) }) }) }"

subsection \<open>Writers\<close>

definition pint8 :: "u8 \<Rightarrow> wbuf \<Rightarrow> wbuf option" where
  "pint8 val w = poke [val] w"

definition pint16 :: "u16 \<Rightarrow> wbuf \<Rightarrow> wbuf option" where
  "pint16 val w = poke [ucast val, ucast (drop_bit 8 val)] w"

definition pint32 :: "u32 \<Rightarrow> wbuf \<Rightarrow> wbuf option" where
  "pint32 val w = poke [ucast val, ucast (drop_bit 8 val), ucast (drop_bit 16 val),
     ucast (drop_bit 24 val)] w"

definition pint64 :: "u64 \<Rightarrow> wbuf \<Rightarrow> wbuf option" where
  "pint64 val w = poke [ucast val, ucast (drop_bit 8 val), ucast (drop_bit 16 val),
     ucast (drop_bit 24 val), ucast (drop_bit 32 val), ucast (drop_bit 40 val),
     ucast (drop_bit 48 val), ucast (drop_bit 56 val)] w"

text \<open>
  The length is truncated to 16 bits, the whole string is copied, and the slice advances by the
  truncated length.
\<close>

definition pstr :: "string \<Rightarrow> wbuf \<Rightarrow> wbuf option" where
  "pstr val w = do {
     let n = (of_nat (length val) :: u16);
     (d, buf) \<leftarrow> pint16 n w;
     let buf = go_copy buf (to_bytes val);
     if unat n \<le> length buf then Some (d @ take (unat n) buf, drop (unat n) buf) else None }"

definition pqid :: "Qid \<Rightarrow> wbuf \<Rightarrow> wbuf option" where
  "pqid val buf = do {
     buf \<leftarrow> pint8 (qid_Type val) buf;
     buf \<leftarrow> pint32 (qid_Version val) buf;
     pint64 (qid_Path val) buf }"

definition statsz :: "Dir \<Rightarrow> bool \<Rightarrow> nat" where
  "statsz d dotu = 2 + 2 + 4 + 13 + 4 + 4 + 4 + 8 + 2 + 2 + 2 + 2
     + length (dir_Name d) + length (dir_Uid d) + length (dir_Gid d) + length (dir_Muid d)
     + (if dotu then 2 + 4 + 4 + 4 + length (dir_Ext d) else 0)"

definition pstat :: "Dir \<Rightarrow> wbuf \<Rightarrow> bool \<Rightarrow> wbuf option" where
  "pstat d buf dotu = do {
     let sz = statsz d dotu;
     buf \<leftarrow> pint16 (of_nat (sz - 2)) buf;
     buf \<leftarrow> pint16 (dir_Type d) buf;
     buf \<leftarrow> pint32 (dir_Dev d) buf;
     buf \<leftarrow> pqid (dir_Qid d) buf;
     buf \<leftarrow> pint32 (dir_Mode d) buf;
     buf \<leftarrow> pint32 (dir_Atime d) buf;
     buf \<leftarrow> pint32 (dir_Mtime d) buf;
     buf \<leftarrow> pint64 (dir_Length d) buf;
     buf \<leftarrow> pstr (dir_Name d) buf;
     buf \<leftarrow> pstr (dir_Uid d) buf;
     buf \<leftarrow> pstr (dir_Gid d) buf;
     buf \<leftarrow> pstr (dir_Muid d) buf;
     if dotu then do {
       buf \<leftarrow> pstr (dir_Ext d) buf;
       buf \<leftarrow> pint32 (dir_Uidnum d) buf;
       buf \<leftarrow> pint32 (dir_Gidnum d) buf;
       pint32 (dir_Muidnum d) buf }
     else Some buf }"

text \<open>
  \<open>PackDir\<close> returns the number of bytes written and the contents of \<open>buf\<close> afterwards;
  \<open>UnpackDir\<close> an error or a fresh \<open>Dir\<close>.
\<close>

definition PackDir :: "Dir \<Rightarrow> bytes \<Rightarrow> bool \<Rightarrow> (nat \<times> bytes) option" where
  "PackDir d buf dotu = do {
     let sz = statsz d dotu;
     if sz > length buf then Some (0, buf)
     else do { (w, r) \<leftarrow> pstat d ([], buf) dotu; Some (sz, w @ r) } }"

definition UnpackDir :: "bytes \<Rightarrow> bool \<Rightarrow> (perror + Dir) option" where
  "UnpackDir buf dotu = do {
     let sz = 2 + 2 + 4 + 13 + 4 + 4 + 4 + 8 + 2 + 2 + 2 + 2 + (if dotu then 2 + 4 + 4 + 4 else 0);
     if length buf < sz then Some (Inl (Error ''short buffer'' EINVAL))
     else do {
       (d, q) \<leftarrow> gstat buf zero_Dir dotu;
       (case q of None \<Rightarrow> Some (Inl (Error ''short buffer'' EINVAL)) | Some _ \<Rightarrow> Some (Inr d)) } }"

text \<open>The loops of \<open>PackTwalk\<close>, \<open>PackRwalk\<close> and of their unpacking.\<close>

fun put_all :: "('a \<Rightarrow> wbuf \<Rightarrow> wbuf option) \<Rightarrow> 'a list \<Rightarrow> wbuf \<Rightarrow> wbuf option" where
  "put_all put [] w = Some w"
| "put_all put (x # xs) w = do { w \<leftarrow> put x w; put_all put xs w }"

fun get_n :: "(bytes \<Rightarrow> ('a \<times> bytes) option) \<Rightarrow> nat \<Rightarrow> bytes \<Rightarrow> ('a list \<times> bytes) option" where
  "get_n get 0 p = Some ([], p)"
| "get_n get (Suc n) p = do { (x, p) \<leftarrow> get p; (xs, p) \<leftarrow> get_n get n p; Some (x # xs, p) }"

fun gstrs :: "nat \<Rightarrow> bytes \<Rightarrow> (string list \<times> bytes option) option" where
  "gstrs 0 p = Some ([], Some p)"
| "gstrs (Suc n) p = do {
     (s, q) \<leftarrow> gstr (Some p);
     (case q of None \<Rightarrow> Some ([s], None)
      | Some p \<Rightarrow> do { (ss, q) \<leftarrow> gstrs n p; Some (s # ss, q) }) }"

subsection \<open>The contract of a field type\<close>

text \<open>
  A reader and a writer agree on a byte layout.  From that: the layout is prefix-free, what was
  written is read back, and the two loops over lists of fields are inverse to each other.
\<close>

lemma poke_Nil [simp]: "poke [] w = Some w"
  by (cases w) (simp add: poke_def)

lemma poke_poke [simp]: "Option.bind (poke a w) (poke b) = poke (a @ b) w"
  by (cases w) (auto simp: poke_def add.commute)

lemma poke_poke_bind [simp]:
  "Option.bind (poke a w) (\<lambda>w'. Option.bind (poke b w') f) = Option.bind (poke (a @ b) w) f"
  by (cases w) (auto simp: poke_def add.commute)

locale codec =
  fixes get :: "bytes \<Rightarrow> ('a \<times> bytes) option"
    and put :: "'a \<Rightarrow> wbuf \<Rightarrow> wbuf option"
    and enc :: "'a \<Rightarrow> bytes"
    and ok :: "'a \<Rightarrow> bool"
  assumes get_enc: "ok x \<Longrightarrow> get (enc x @ r) = Some (x, r)"
    and put_enc: "ok x \<Longrightarrow> put x w = poke (enc x) w"
begin

lemma put_fun: "ok x \<Longrightarrow> put x = poke (enc x)"
  by (rule ext) (rule put_enc)

lemma get_enc_Nil: "ok x \<Longrightarrow> get (enc x) = Some (x, [])"
  using get_enc [of x "[]"] by simp

lemma enc_prefix_free: "ok x \<Longrightarrow> ok y \<Longrightarrow> enc x @ r = enc y @ s \<Longrightarrow> x = y \<and> r = s"
  by (metis get_enc option.inject prod.inject)

lemma put_get: "ok x \<Longrightarrow> put x (d, r) = Some (d', r') \<Longrightarrow> \<exists>b. d' = d @ b \<and> get (b @ t) = Some (x, t)"
  by (rule exI [of _ "enc x"]) (simp add: put_enc get_enc poke_eq_Some)

lemma get_n_concat:
  "list_all ok xs \<Longrightarrow> get_n get (length xs) (concat (map enc xs) @ r) = Some (xs, r)"
  by (induction xs) (simp_all add: get_enc)

lemma put_all_concat: "list_all ok xs \<Longrightarrow> put_all put xs w = poke (concat (map enc xs)) w"
proof (induction xs arbitrary: w)
  case (Cons x xs)
  then have "put_all put xs = poke (concat (map enc xs))" and "ok x" by auto
  then show ?case by (simp add: put_enc)
qed simp

end

text \<open>A field of fixed width: reading panics exactly on a slice shorter than the field.\<close>

locale codec_fixed = codec +
  fixes width :: nat
  assumes ok_all: "ok x"
    and enc_width: "length (enc x) = width"
    and get_total: "width \<le> length b \<Longrightarrow> \<exists>x. get b = Some (x, drop width b)"
    and get_short: "length b < width \<Longrightarrow> get b = None"
begin

lemma get_None_iff: "get b = None \<longleftrightarrow> length b < width"
proof (cases "length b < width")
  case True
  then show ?thesis by (simp add: get_short)
next
  case False
  then obtain x where "get b = Some (x, drop width b)"
    using get_total [of b] by auto
  with False show ?thesis by simp
qed

lemma get_rest: "get b = Some (x, r) \<Longrightarrow> r = drop width b"
  using get_total [of b] get_short [of b] by (cases "width \<le> length b") auto

lemma put_None_iff: "put x (d, r) = None \<longleftrightarrow> length r < width"
  by (simp add: put_enc [OF ok_all] poke_def enc_width)

lemma length_concat_enc: "length (concat (map enc xs)) = length xs * width"
  by (induction xs) (simp_all add: enc_width)

lemma get_n_None_iff: "get_n get n b = None \<longleftrightarrow> length b < n * width"
proof (induction n arbitrary: b)
  case 0
  then show ?case by simp
next
  case (Suc n)
  show ?case
  proof (cases "get b")
    case None
    then have "length b < width" using get_None_iff [of b] by simp
    then show ?thesis using None by simp
  next
    case (Some a)
    then obtain x where g: "get b = Some (x, drop width b)"
      by (cases a) (auto dest: get_rest)
    have w: "width \<le> length b" using Some get_None_iff [of b] by simp
    have "get_n get (Suc n) b = None \<longleftrightarrow> get_n get n (drop width b) = None"
      by (cases "get_n get n (drop width b)") (simp_all add: g split: prod.splits)
    with Suc.IH w show ?thesis by auto
  qed
qed

end

subsection \<open>The integer fields\<close>

lemma byte_bits:
  "bit (push_bit k (ucast (ucast (drop_bit k (v :: 'a::len word)) :: u8) :: 'a word)) n
   \<longleftrightarrow> k \<le> n \<and> n < k + 8 \<and> bit v n"
  by (cases "n < LENGTH('a)") (auto simp: bit_simps dest: bit_imp_le_length)

lemma join16: "ucast (ucast v :: u8) OR push_bit 8 (ucast (ucast (drop_bit 8 v) :: u8)) = (v :: u16)"
  (is "?l = v")
proof (rule bit_word_eqI)
  fix n assume "n < LENGTH(16)"
  then show "bit ?l n = bit v n"
    using byte_bits [of 0 v n] by (auto simp: bit_or_iff byte_bits)
qed

lemma join32: "ucast (ucast v :: u8) OR push_bit 8 (ucast (ucast (drop_bit 8 v) :: u8))
    OR push_bit 16 (ucast (ucast (drop_bit 16 v) :: u8))
    OR push_bit 24 (ucast (ucast (drop_bit 24 v) :: u8)) = (v :: u32)" (is "?l = v")
proof (rule bit_word_eqI)
  fix n assume "n < LENGTH(32)"
  then show "bit ?l n = bit v n"
    using byte_bits [of 0 v n] by (auto simp: bit_or_iff byte_bits)
qed

lemma join64: "ucast (ucast v :: u8) OR push_bit 8 (ucast (ucast (drop_bit 8 v) :: u8))
    OR push_bit 16 (ucast (ucast (drop_bit 16 v) :: u8))
    OR push_bit 24 (ucast (ucast (drop_bit 24 v) :: u8))
    OR push_bit 32 (ucast (ucast (drop_bit 32 v) :: u8))
    OR push_bit 40 (ucast (ucast (drop_bit 40 v) :: u8))
    OR push_bit 48 (ucast (ucast (drop_bit 48 v) :: u8))
    OR push_bit 56 (ucast (ucast (drop_bit 56 v) :: u8)) = (v :: u64)" (is "?l = v")
proof (rule bit_word_eqI)
  fix n assume "n < LENGTH(64)"
  then show "bit ?l n = bit v n"
    using byte_bits [of 0 v n] by (auto simp: bit_or_iff byte_bits)
qed

interpretation i8: codec_fixed gint8 pint8 "\<lambda>v. [v]" "\<lambda>_. True" 1
  by unfold_locales (auto simp: gint8_def pint8_def split: list.splits)

interpretation i16: codec_fixed gint16 pint16 le16 "\<lambda>_. True" 2
proof unfold_locales
  show "gint16 (le16 x @ r) = Some (x, r)" for x r
    using join16 [of x] by (simp add: gint16_def le16_def)
  show "\<exists>x. gint16 b = Some (x, drop 2 b)" if "2 \<le> length b" for b
    using that by (auto simp: gint16_def numeral_eq_Suc Suc_le_length_iff)
  show "gint16 b = None" if "length b < 2" for b
    using that by (auto simp: gint16_def split: list.splits)
qed (simp_all add: pint16_def le16_def)

interpretation i32: codec_fixed gint32 pint32 le32 "\<lambda>_. True" 4
proof unfold_locales
  show "gint32 (le32 x @ r) = Some (x, r)" for x r
    using join32 [of x] by (simp add: gint32_def le32_def)
  show "\<exists>x. gint32 b = Some (x, drop 4 b)" if "4 \<le> length b" for b
    using that by (auto simp: gint32_def numeral_eq_Suc Suc_le_length_iff)
  show "gint32 b = None" if "length b < 4" for b
    using that by (auto simp: gint32_def split: list.splits)
qed (simp_all add: pint32_def le32_def)

interpretation i64: codec_fixed gint64 pint64 le64 "\<lambda>_. True" 8
proof unfold_locales
  show "gint64 (le64 x @ r) = Some (x, r)" for x r
    using join64 [of x] by (simp add: gint64_def le64_def)
  show "\<exists>x. gint64 b = Some (x, drop 8 b)" if "8 \<le> length b" for b
    using that by (auto simp: gint64_def numeral_eq_Suc Suc_le_length_iff)
  show "gint64 b = None" if "length b < 8" for b
    using that by (auto simp: gint64_def split: list.splits)
qed (simp_all add: pint64_def le64_def)

lemmas put_int = i8.put_fun [OF TrueI] i16.put_fun [OF TrueI] i32.put_fun [OF TrueI]
  i64.put_fun [OF TrueI]
lemmas get_int [simp] = i8.get_enc [OF TrueI] i16.get_enc [OF TrueI] i32.get_enc [OF TrueI]
  i64.get_enc [OF TrueI]

lemma gint8_Cons [simp]: "gint8 (v # r) = Some (v, r)"
  by (simp add: gint8_def)

subsection \<open>Strings, qids and stats\<close>

definition str_ok :: "string \<Rightarrow> bool" where
  "str_ok s \<longleftrightarrow> length s < 65536"

lemma unat_len16: "str_ok s \<Longrightarrow> unat (of_nat (length s) :: u16) = length s"
  by (simp add: str_ok_def unat_of_nat take_bit_nat_eq_self)

lemma gstr_enc [simp]: "str_ok s \<Longrightarrow> gstr (Some (enc_str s @ r)) = Some (s, Some r)"
  by (simp add: gstr_def enc_str_def unat_len16)

lemma pstr_enc: "str_ok s \<Longrightarrow> pstr s w = poke (enc_str s) w"
proof (cases w)
  case (Pair d r)
  assume ok: "str_ok s"
  have n: "unat (of_nat (length s) :: u16) = length s" by (rule unat_len16 [OF ok])
  show ?thesis
  proof (cases "2 \<le> length r")
    case False
    then show ?thesis by (simp add: Pair pstr_def put_int poke_def)
  next
    case True
    then have p: "pint16 (of_nat (length s)) (d, r) = Some (d @ le16 (of_nat (length s)), drop 2 r)"
      by (simp add: put_int poke_def)
    have "take (length s) (go_copy (drop 2 r) (to_bytes s)) = to_bytes s"
      "drop (length s) (go_copy (drop 2 r) (to_bytes s)) = drop (2 + length s) r"
      if "length s \<le> length r - 2"
      using that take_go_copy [of "to_bytes s" "drop 2 r"] drop_go_copy [of "to_bytes s" "drop 2 r"]
      by (simp_all add: add.commute)
    then show ?thesis
      using True by (auto simp: Pair pstr_def p n poke_def enc_str_def Let_def)
  qed
qed

lemma pstr_fun: "str_ok s \<Longrightarrow> pstr s = poke (enc_str s)"
  by (rule ext) (rule pstr_enc)

interpretation str: codec
  "\<lambda>b. case gstr (Some b) of Some (s, Some r) \<Rightarrow> Some (s, r) | _ \<Rightarrow> None" pstr enc_str str_ok
  by unfold_locales (simp_all add: pstr_enc)

lemma gqid_enc [simp]: "gqid (enc_qid q @ r) = Some (q, r)"
  by (simp add: gqid_def enc_qid_def)

lemma pqid_enc: "pqid q = poke (enc_qid q)"
  by (rule ext) (simp add: pqid_def enc_qid_def put_int)

interpretation qid: codec_fixed gqid pqid enc_qid "\<lambda>_. True" 13
proof unfold_locales
  show "\<exists>x. gqid b = Some (x, drop 13 b)" if l: "13 \<le> length b" for b
  proof -
    obtain t where 1: "gint8 b = Some (t, drop (Suc 0) b)"
      using i8.get_total [of b] l by auto
    have "4 \<le> length b - Suc 0" using l by arith
    then obtain v where 2: "gint32 (drop (Suc 0) b) = Some (v, drop 5 b)"
      using i32.get_total [of "drop (Suc 0) b"] l by auto
    have "8 \<le> length b - 5" using l by arith
    then obtain p where 3: "gint64 (drop 5 b) = Some (p, drop 13 b)"
      using i64.get_total [of "drop 5 b"] l by auto
    show ?thesis using 1 2 3 by (simp add: gqid_def)
  qed
  show "gqid b = None" if l: "length b < 13" for b
  proof -
    have "gint64 r = None" if "gint8 b = Some (t, q)" "gint32 q = Some (v, r)" for t q v r
      using i8.get_rest [OF that(1)] i32.get_rest [OF that(2)] l by (simp add: i64.get_None_iff)
    then show ?thesis by (auto simp: gqid_def split: Option.bind_splits)
  qed
qed (simp_all add: pqid_enc)

end
