(* ===== verification/P9_Dir.thy ===== *)
theory P9_Dir
  imports P9_Codec
begin

section \<open>The stat structure on the wire (p/p9.go: gstat, pstat, PackDir, UnpackDir)\<close>

text \<open>
  \<open>enc_dir\<close> is the layout of a stat; \<open>wire_dir\<close> is what the receiver of a \<open>Dir\<close> sees of it: the
  size field is recomputed and, without 9P2000.u, the extension string is empty and the numeric
  ids are \<^const>\<open>NOUID\<close>.  The interpretation \<open>stat\<close> of the field contract covers both dialects.
\<close>

definition enc_dir :: "Dir \<Rightarrow> bool \<Rightarrow> bytes" where
  "enc_dir d dotu = le16 (of_nat (statsz d dotu - 2)) @ le16 (dir_Type d) @ le32 (dir_Dev d)
     @ enc_qid (dir_Qid d) @ le32 (dir_Mode d) @ le32 (dir_Atime d) @ le32 (dir_Mtime d)
     @ le64 (dir_Length d) @ enc_str (dir_Name d) @ enc_str (dir_Uid d) @ enc_str (dir_Gid d)
     @ enc_str (dir_Muid d)
     @ (if dotu then enc_str (dir_Ext d) @ le32 (dir_Uidnum d) @ le32 (dir_Gidnum d)
          @ le32 (dir_Muidnum d) else [])"

definition dir_strs_ok :: "Dir \<Rightarrow> bool \<Rightarrow> bool" where
  "dir_strs_ok d dotu \<longleftrightarrow> str_ok (dir_Name d) \<and> str_ok (dir_Uid d) \<and> str_ok (dir_Gid d)
     \<and> str_ok (dir_Muid d) \<and> (dotu \<longrightarrow> str_ok (dir_Ext d))"

definition wire_dir :: "Dir \<Rightarrow> bool \<Rightarrow> Dir" where
  "wire_dir d dotu = (if dotu then d\<lparr>dir_Size := of_nat (statsz d dotu - 2)\<rparr>
     else d\<lparr>dir_Size := of_nat (statsz d dotu - 2), dir_Ext := '''', dir_Uidnum := NOUID,
            dir_Gidnum := NOUID, dir_Muidnum := NOUID\<rparr>)"

lemma length_enc_dir [simp, wire_len]: "length (enc_dir d dotu) = statsz d dotu"
  by (simp add: enc_dir_def statsz_def)

lemma statsz_ge: "49 \<le> statsz d dotu"
  by (simp add: statsz_def)

lemma statsz_wire [simp]: "statsz (wire_dir d dotu) dotu = statsz d dotu"
  by (simp add: wire_dir_def statsz_def)

lemma enc_dir_wire [simp]: "enc_dir (wire_dir d dotu) dotu = enc_dir d dotu"
  by (simp add: enc_dir_def) (simp add: wire_dir_def)

lemma wire_dir_idem [simp]: "wire_dir (wire_dir d dotu) dotu = wire_dir d dotu"
  by (simp add: wire_dir_def statsz_def)

lemma dir_strs_ok_wire [simp]: "dir_strs_ok (wire_dir d dotu) dotu = dir_strs_ok d dotu"
  by (auto simp: dir_strs_ok_def wire_dir_def)

lemma pstat_enc: "dir_strs_ok d dotu \<Longrightarrow> pstat d w dotu = poke (enc_dir d dotu) w"
  by (cases dotu)
     (simp_all add: pstat_def enc_dir_def dir_strs_ok_def put_int pqid_enc pstr_fun Let_def)

lemma gstat_enc:
  assumes "dir_strs_ok d dotu"
  shows "gstat (enc_dir d dotu @ r) d0 dotu
    = Some (if dotu then d\<lparr>dir_Size := of_nat (statsz d dotu - 2)\<rparr>
            else d\<lparr>dir_Size := of_nat (statsz d dotu - 2), dir_Ext := dir_Ext d0, dir_Uidnum := NOUID,
                   dir_Gidnum := NOUID, dir_Muidnum := NOUID\<rparr>, Some r)"
  using assms by (cases dotu) (simp_all add: gstat_def enc_dir_def dir_strs_ok_def)

interpretation stat: codec
  "\<lambda>b. case gstat b zero_Dir dotu of Some (d, Some r) \<Rightarrow> Some (d, r) | _ \<Rightarrow> None"
  "\<lambda>d w. pstat d w dotu" "\<lambda>d. enc_dir d dotu"
  "\<lambda>d. dir_strs_ok d dotu \<and> wire_dir d dotu = d" for dotu
proof unfold_locales
  show "pstat x w dotu = poke (enc_dir x dotu) w"
    if "dir_strs_ok x dotu \<and> wire_dir x dotu = x" for x w
    using that by (simp add: pstat_enc)
  show "(case gstat (enc_dir x dotu @ r) zero_Dir dotu of Some (d, Some r) \<Rightarrow> Some (d, r) | _ \<Rightarrow> None)
      = Some (x, r)"
    if ok: "dir_strs_ok x dotu \<and> wire_dir x dotu = x" for x r
  proof (cases dotu)
    case True
    then show ?thesis using ok by (simp add: gstat_enc wire_dir_def)
  next
    case False
    then have "x\<lparr>dir_Size := of_nat (statsz x dotu - 2), dir_Ext := [], dir_Uidnum := NOUID,
        dir_Gidnum := NOUID, dir_Muidnum := NOUID\<rparr> = x"
      using ok by (simp add: wire_dir_def)
    then show ?thesis using ok False by (simp add: gstat_enc zero_Dir_def)
  qed
qed

subsection \<open>Writing within bounds never panics\<close>

text \<open>
  \<open>safe n f\<close>: with \<open>n\<close> bytes of room, the writer \<open>f\<close> does not panic, only appends, and writes at
  most \<open>n\<close> bytes.  For \<open>pstr\<close> this holds for every string, also for those whose length does not fit
  into the 16-bit length field.
\<close>

definition safe :: "nat \<Rightarrow> (wbuf \<Rightarrow> wbuf option) \<Rightarrow> bool" where
  "safe n f \<longleftrightarrow> (\<forall>d r. n \<le> length r \<longrightarrow>
     (\<exists>b r'. f (d, r) = Some (d @ b, r') \<and> length b + length r' = length r \<and> length b \<le> n))"

lemma safeD: "safe n f \<Longrightarrow> n \<le> length r \<Longrightarrow>
    \<exists>b r'. f (d, r) = Some (d @ b, r') \<and> length b + length r' = length r \<and> length b \<le> n"
  by (simp add: safe_def)

lemma safe_poke [intro]: "safe (length b) (poke b)"
  by (simp add: safe_def poke_def)

lemma safe_Some [intro]: "safe 0 Some"
  by (simp add: safe_def)

lemma safe_bind [intro]:
  assumes f: "safe n f" and g: "safe m g"
  shows "safe (n + m) (\<lambda>w. Option.bind (f w) g)"
  unfolding safe_def
proof (intro allI impI)
  fix d r :: bytes
  assume l: "n + m \<le> length r"
  then obtain b r' where 1: "f (d, r) = Some (d @ b, r')"
    and 2: "length b + length r' = length r" "length b \<le> n"
    using safeD [OF f, of r d] by auto
  with l have "m \<le> length r'" by simp
  then obtain c r'' where 3: "g (d @ b, r') = Some ((d @ b) @ c, r'')"
    and 4: "length c + length r'' = length r'" "length c \<le> m"
    using safeD [OF g, of r' "d @ b"] by blast
  show "\<exists>b r'. Option.bind (f (d, r)) g = Some (d @ b, r') \<and> length b + length r' = length r
      \<and> length b \<le> n + m"
    using 1 2 3 4 by (intro exI [of _ "b @ c"] exI [of _ r'']) simp
qed

lemma safe_int [intro]:
  "safe 1 (pint8 a)" "safe 2 (pint16 b)" "safe 4 (pint32 c)" "safe 8 (pint64 e)" "safe 13 (pqid q)"
  using safe_poke [of "[a]"] safe_poke [of "le16 b"] safe_poke [of "le32 c"] safe_poke [of "le64 e"]
    safe_poke [of "enc_qid q"]
  by (simp_all add: i8.put_fun put_int pqid_enc)

lemma safe_pstr [intro]: "safe (2 + length s) (pstr s)"
  unfolding safe_def
proof (intro allI impI)
  fix d r :: bytes
  assume l: "2 + length s \<le> length r"
  define k where "k = unat (of_nat (length s) :: u16)"
  define c where "c = go_copy (drop 2 r) (to_bytes s)"
  have "k = length s mod 65536" by (simp add: k_def unat_of_nat take_bit_eq_mod)
  then have k: "k \<le> length s" by simp
  have "pstr s (d, r) = Some (d @ (le16 (of_nat (length s)) @ take k c), drop k c)"
    using l k by (simp add: pstr_def put_int poke_def Let_def k_def c_def)
  moreover have "length c = length r - 2" by (simp add: c_def)
  ultimately show "\<exists>b r'. pstr s (d, r) = Some (d @ b, r') \<and> length b + length r' = length r
      \<and> length b \<le> 2 + length s"
    using l k by (intro exI [of _ "le16 (of_nat (length s)) @ take k c"] exI [of _ "drop k c"]) auto
qed

lemma safe_pstat: "safe (statsz d dotu) (\<lambda>w. pstat d w dotu)"
proof (cases dotu)
  case True
  have "safe (2 + (2 + (4 + (13 + (4 + (4 + (4 + (8 + ((2 + length (dir_Name d))
      + ((2 + length (dir_Uid d)) + ((2 + length (dir_Gid d)) + ((2 + length (dir_Muid d))
      + ((2 + length (dir_Ext d)) + (4 + (4 + 4))))))))))))))) (\<lambda>w. pstat d w dotu)"
    unfolding pstat_def Let_def
    using True by (simp only: if_True) (intro safe_bind safe_int safe_pstr)
  then show ?thesis by (simp add: statsz_def True algebra_simps)
next
  case False
  have "safe (2 + (2 + (4 + (13 + (4 + (4 + (4 + (8 + ((2 + length (dir_Name d))
      + ((2 + length (dir_Uid d)) + ((2 + length (dir_Gid d)) + ((2 + length (dir_Muid d)) + 0))))))))))))
      (\<lambda>w. pstat d w dotu)"
    unfolding pstat_def Let_def using False by (simp only: if_False) (intro safe_bind safe_int safe_pstr safe_Some)
  then show ?thesis using False by (simp add: statsz_def algebra_simps)
qed

lemma PackDir_total: "\<exists>n out. PackDir d buf dotu = Some (n, out) \<and> length out = length buf
    \<and> n = (if statsz d dotu \<le> length buf then statsz d dotu else 0)"
proof (cases "statsz d dotu \<le> length buf")
  case True
  then obtain b r' where "pstat d ([], buf) dotu = Some (b, r')" "length b + length r' = length buf"
    using safeD [OF safe_pstat [of d dotu], of buf "[]"] by auto
  with True show ?thesis by (simp add: PackDir_def Let_def)
next
  case False
  then show ?thesis by (simp add: PackDir_def Let_def)
qed

lemma PackDir_enc: "dir_strs_ok d dotu \<Longrightarrow> statsz d dotu \<le> length buf \<Longrightarrow>
    PackDir d buf dotu = Some (statsz d dotu, enc_dir d dotu @ drop (statsz d dotu) buf)"
  by (simp add: PackDir_def pstat_enc poke_def Let_def)

lemma UnpackDir_enc: "dir_strs_ok d dotu \<Longrightarrow>
    UnpackDir (enc_dir d dotu @ r) dotu = Some (Inr (wire_dir d dotu))"
  using gstat_enc [of d dotu r zero_Dir]
  by (cases dotu) (simp_all add: UnpackDir_def statsz_def wire_dir_def zero_Dir_def Let_def)

end
