(* ===== verification/P9_Pack.thy ===== *)
theory P9_Pack
  imports P9_Dir
begin

section \<open>Building messages (p/packt.go, p/packr.go, and packCommon, SetTag of p/p9.go)\<close>

text \<open>
  Every function gets the \<open>Fcall\<close> it fills in and returns \<open>Inl\<close> the error (the \<open>Fcall\<close> is then
  unchanged) or \<open>Inr\<close> the \<open>Fcall\<close> afterwards; the outer \<open>None\<close> is a panic.  The cursor \<open>p\<close> is
  the slice of the same name in the code; \<open>seal\<close> makes the bytes written through \<open>p\<close> visible in
  \<open>Buf\<close> and in \<open>Pkt\<close>, which is a prefix of \<open>Buf\<close>.
\<close>

subsection \<open>The common header\<close>

definition packCommon :: "Fcall \<Rightarrow> nat \<Rightarrow> u8 \<Rightarrow> (perror + Fcall \<times> wbuf) option" where
  "packCommon fc sz mid = do {
     let size = sz + (4 + 1 + 2);
     if length (fc_Buf fc) < size then Some (Inl (Error ''buffer too small'' EINVAL))
     else do {
       let fc = fc\<lparr>fc_Size := of_nat size, fc_Type := mid, fc_Tag := NOTAG\<rparr>;
       p \<leftarrow> pint32 (of_nat size) ([], fc_Buf fc);
       p \<leftarrow> pint8 mid p;
       p \<leftarrow> pint16 NOTAG p;
       let fc = fc\<lparr>fc_Buf := fst p @ snd p, fc_Pkt := take size (fst p @ snd p)\<rparr>;
       Some (Inr (fc, p)) } }"

text \<open>\<open>p, err := packCommon(fc, size, id); if err != nil { return err }; \<dots>\<close>\<close>

definition packThen :: "Fcall \<Rightarrow> nat \<Rightarrow> u8 \<Rightarrow> (Fcall \<Rightarrow> wbuf \<Rightarrow> (perror + Fcall) option)
    \<Rightarrow> (perror + Fcall) option" where
  "packThen fc sz mid k = do {
     r \<leftarrow> packCommon fc sz mid;
     (case r of Inl err \<Rightarrow> Some (Inl err) | Inr (fc, p) \<Rightarrow> k fc p) }"

definition seal :: "Fcall \<Rightarrow> wbuf \<Rightarrow> Fcall" where
  "seal fc p = (let buf = fst p @ snd p in
     fc\<lparr>fc_Buf := buf, fc_Pkt := take (length (fc_Pkt fc)) buf\<rparr>)"

definition SetTag :: "Fcall \<Rightarrow> u16 \<Rightarrow> Fcall option" where
  "SetTag fc tag = do {
     let fc = fc\<lparr>fc_Tag := tag\<rparr>;
     (d, r) \<leftarrow> pint16 tag (take 5 (fc_Pkt fc), drop 5 (fc_Pkt fc));
     Some (fc\<lparr>fc_Pkt := d @ r, fc_Buf := go_copy (fc_Buf fc) (d @ r)\<rparr>) }"

subsection \<open>T-messages\<close>

definition PackTversion :: "Fcall \<Rightarrow> u32 \<Rightarrow> string \<Rightarrow> (perror + Fcall) option" where
  "PackTversion fc msize version =
     packThen fc (4 + 2 + length version) Tversion (\<lambda>fc p. do {
       let fc = fc\<lparr>fc_Msize := msize, fc_Version := version\<rparr>;
       p \<leftarrow> pint32 msize p;
       p \<leftarrow> pstr version p;
       Some (Inr (seal fc p)) })"

definition PackTauth :: "Fcall \<Rightarrow> u32 \<Rightarrow> string \<Rightarrow> string \<Rightarrow> u32 \<Rightarrow> bool \<Rightarrow> (perror + Fcall) option" where
  "PackTauth fc fid uname aname unamenum dotu =
     packThen fc (4 + 2 + 2 + length uname + length aname + (if dotu then 4 else 0)) Tauth (\<lambda>fc p. do {
       let fc = fc\<lparr>fc_Fid := fid, fc_Uname := uname, fc_Aname := aname\<rparr>;
       p \<leftarrow> pint32 fid p;
       p \<leftarrow> pstr uname p;
       p \<leftarrow> pstr aname p;
       if dotu then do {
         let fc = fc\<lparr>fc_Unamenum := unamenum\<rparr>;
         p \<leftarrow> pint32 unamenum p;
         Some (Inr (seal fc p)) }
       else Some (Inr (seal fc p)) })"

definition PackTflush :: "Fcall \<Rightarrow> u16 \<Rightarrow> (perror + Fcall) option" where
  "PackTflush fc oldtag =
     packThen fc 2 Tflush (\<lambda>fc p. do {
       let fc = fc\<lparr>fc_Oldtag := oldtag\<rparr>;
       p \<leftarrow> pint16 oldtag p;
       Some (Inr (seal fc p)) })"

definition PackTattach ::
    "Fcall \<Rightarrow> u32 \<Rightarrow> u32 \<Rightarrow> string \<Rightarrow> string \<Rightarrow> u32 \<Rightarrow> bool \<Rightarrow> (perror + Fcall) option" where
  "PackTattach fc fid afid uname aname unamenum dotu =
     packThen fc (4 + 4 + 2 + length uname + 2 + length aname + (if dotu then 4 else 0)) Tattach
      (\<lambda>fc p. do {
       let fc = fc\<lparr>fc_Fid := fid, fc_Afid := afid, fc_Uname := uname, fc_Aname := aname\<rparr>;
       p \<leftarrow> pint32 fid p;
       p \<leftarrow> pint32 afid p;
       p \<leftarrow> pstr uname p;
       p \<leftarrow> pstr aname p;
       if dotu then do {
         let fc = fc\<lparr>fc_Unamenum := unamenum\<rparr>;
         p \<leftarrow> pint32 unamenum p;
         Some (Inr (seal fc p)) }
       else Some (Inr (seal fc p)) })"

definition PackTwalk :: "Fcall \<Rightarrow> u32 \<Rightarrow> u32 \<Rightarrow> string list \<Rightarrow> (perror + Fcall) option" where
  "PackTwalk fc fid newfid wnames =
     packThen fc (4 + 4 + 2 + length wnames * 2 + sum_list (map length wnames)) Twalk (\<lambda>fc p. do {
       let fc = fc\<lparr>fc_Fid := fid, fc_Newfid := newfid\<rparr>;
       p \<leftarrow> pint32 fid p;
       p \<leftarrow> pint32 newfid p;
       p \<leftarrow> pint16 (of_nat (length wnames)) p;
       let fc = fc\<lparr>fc_Wname := wnames\<rparr>;
       p \<leftarrow> put_all pstr wnames p;
       Some (Inr (seal fc p)) })"

definition PackTopen :: "Fcall \<Rightarrow> u32 \<Rightarrow> u8 \<Rightarrow> (perror + Fcall) option" where
  "PackTopen fc fid mode =
     packThen fc (4 + 1) Topen (\<lambda>fc p. do {
       let fc = fc\<lparr>fc_Fid := fid, fc_Mode := mode\<rparr>;
       p \<leftarrow> pint32 fid p;
       p \<leftarrow> pint8 mode p;
       Some (Inr (seal fc p)) })"

definition PackTcreate ::
    "Fcall \<Rightarrow> u32 \<Rightarrow> string \<Rightarrow> u32 \<Rightarrow> u8 \<Rightarrow> string \<Rightarrow> bool \<Rightarrow> (perror + Fcall) option" where
  "PackTcreate fc fid name perm mode ext dotu =
     packThen fc (4 + 2 + length name + 4 + 1 + (if dotu then 2 + length ext else 0)) Tcreate
      (\<lambda>fc p. do {
       let fc = fc\<lparr>fc_Fid := fid, fc_Name := name, fc_Perm := perm, fc_Mode := mode\<rparr>;
       p \<leftarrow> pint32 fid p;
       p \<leftarrow> pstr name p;
       p \<leftarrow> pint32 perm p;
       p \<leftarrow> pint8 mode p;
       if dotu then do {
         let fc = fc\<lparr>fc_Ext := ext\<rparr>;
         p \<leftarrow> pstr ext p;
         Some (Inr (seal fc p)) }
       else Some (Inr (seal fc p)) })"

definition PackTread :: "Fcall \<Rightarrow> u32 \<Rightarrow> u64 \<Rightarrow> u32 \<Rightarrow> (perror + Fcall) option" where
  "PackTread fc fid offset count =
     packThen fc (4 + 8 + 4) Tread (\<lambda>fc p. do {
       let fc = fc\<lparr>fc_Fid := fid, fc_Offset := offset, fc_Count := count\<rparr>;
       p \<leftarrow> pint32 fid p;
       p \<leftarrow> pint64 offset p;
       p \<leftarrow> pint32 count p;
       Some (Inr (seal fc p)) })"

text \<open>\<open>fc.Data = p\<close> is all of the buffer behind the header, not only the data.\<close>

definition PackTwrite :: "Fcall \<Rightarrow> u32 \<Rightarrow> u64 \<Rightarrow> u32 \<Rightarrow> bytes \<Rightarrow> (perror + Fcall) option" where
  "PackTwrite fc fid offset count data =
     packThen fc (4 + 8 + 4 + length data) Twrite (\<lambda>fc p. do {
       let fc = fc\<lparr>fc_Fid := fid, fc_Offset := offset, fc_Count := count\<rparr>;
       p \<leftarrow> pint32 fid p;
       p \<leftarrow> pint64 offset p;
       p \<leftarrow> pint32 count p;
       let d = go_copy (snd p) data;
       let fc = fc\<lparr>fc_Data := d\<rparr>;
       Some (Inr (seal fc (fst p, d))) })"

definition PackTclunk :: "Fcall \<Rightarrow> u32 \<Rightarrow> (perror + Fcall) option" where
  "PackTclunk fc fid =
     packThen fc 4 Tclunk (\<lambda>fc p. do {
       let fc = fc\<lparr>fc_Fid := fid\<rparr>;
       p \<leftarrow> pint32 fid p;
       Some (Inr (seal fc p)) })"

definition PackTremove :: "Fcall \<Rightarrow> u32 \<Rightarrow> (perror + Fcall) option" where
  "PackTremove fc fid =
     packThen fc 4 Tremove (\<lambda>fc p. do {
       let fc = fc\<lparr>fc_Fid := fid\<rparr>;
       p \<leftarrow> pint32 fid p;
       Some (Inr (seal fc p)) })"

definition PackTstat :: "Fcall \<Rightarrow> u32 \<Rightarrow> (perror + Fcall) option" where
  "PackTstat fc fid =
     packThen fc 4 Tstat (\<lambda>fc p. do {
       let fc = fc\<lparr>fc_Fid := fid\<rparr>;
       p \<leftarrow> pint32 fid p;
       Some (Inr (seal fc p)) })"

definition PackTwstat :: "Fcall \<Rightarrow> u32 \<Rightarrow> Dir \<Rightarrow> bool \<Rightarrow> (perror + Fcall) option" where
  "PackTwstat fc fid d dotu =
     packThen fc (4 + 2 + statsz d dotu) Twstat (\<lambda>fc p. do {
       let fc = fc\<lparr>fc_Fid := fid, fc_Dir := d\<rparr>;
       p \<leftarrow> pint32 fid p;
       p \<leftarrow> pint16 (of_nat (statsz d dotu)) p;
       p \<leftarrow> pstat d p dotu;
       Some (Inr (seal fc p)) })"

subsection \<open>R-messages\<close>

definition PackRversion :: "Fcall \<Rightarrow> u32 \<Rightarrow> string \<Rightarrow> (perror + Fcall) option" where
  "PackRversion fc msize version =
     packThen fc (4 + 2 + length version) Rversion (\<lambda>fc p. do {
       let fc = fc\<lparr>fc_Msize := msize, fc_Version := version\<rparr>;
       p \<leftarrow> pint32 msize p;
       p \<leftarrow> pstr version p;
       Some (Inr (seal fc p)) })"

definition PackRauth :: "Fcall \<Rightarrow> Qid \<Rightarrow> (perror + Fcall) option" where
  "PackRauth fc aqid =
     packThen fc 13 Rauth (\<lambda>fc p. do {
       let fc = fc\<lparr>fc_Qid := aqid\<rparr>;
       p \<leftarrow> pqid aqid p;
       Some (Inr (seal fc p)) })"

definition PackRerror :: "Fcall \<Rightarrow> string \<Rightarrow> u32 \<Rightarrow> bool \<Rightarrow> (perror + Fcall) option" where
  "PackRerror fc err errornum dotu =
     packThen fc (2 + length err + (if dotu then 4 else 0)) Rerror (\<lambda>fc p. do {
       let fc = fc\<lparr>fc_Error := err\<rparr>;
       p \<leftarrow> pstr err p;
       if dotu then do {
         let fc = fc\<lparr>fc_Errornum := errornum\<rparr>;
         p \<leftarrow> pint32 errornum p;
         Some (Inr (seal fc p)) }
       else Some (Inr (seal fc p)) })"

definition PackRflush :: "Fcall \<Rightarrow> (perror + Fcall) option" where
  "PackRflush fc = packThen fc 0 Rflush (\<lambda>fc p. Some (Inr (seal fc p)))"

definition PackRattach :: "Fcall \<Rightarrow> Qid \<Rightarrow> (perror + Fcall) option" where
  "PackRattach fc aqid =
     packThen fc 13 Rattach (\<lambda>fc p. do {
       let fc = fc\<lparr>fc_Qid := aqid\<rparr>;
       p \<leftarrow> pqid aqid p;
       Some (Inr (seal fc p)) })"

definition PackRwalk :: "Fcall \<Rightarrow> Qid list \<Rightarrow> (perror + Fcall) option" where
  "PackRwalk fc wqids =
     packThen fc (2 + length wqids * 13) Rwalk (\<lambda>fc p. do {
       p \<leftarrow> pint16 (of_nat (length wqids)) p;
       let fc = fc\<lparr>fc_Wqid := wqids\<rparr>;
       p \<leftarrow> put_all pqid wqids p;
       Some (Inr (seal fc p)) })"

definition PackRopen :: "Fcall \<Rightarrow> Qid \<Rightarrow> u32 \<Rightarrow> (perror + Fcall) option" where
  "PackRopen fc qid iounit =
     packThen fc (13 + 4) Ropen (\<lambda>fc p. do {
       let fc = fc\<lparr>fc_Qid := qid, fc_Iounit := iounit\<rparr>;
       p \<leftarrow> pqid qid p;
       p \<leftarrow> pint32 iounit p;
       Some (Inr (seal fc p)) })"

definition PackRcreate :: "Fcall \<Rightarrow> Qid \<Rightarrow> u32 \<Rightarrow> (perror + Fcall) option" where
  "PackRcreate fc qid iounit =
     packThen fc (13 + 4) Rcreate (\<lambda>fc p. do {
       let fc = fc\<lparr>fc_Qid := qid, fc_Iounit := iounit\<rparr>;
       p \<leftarrow> pqid qid p;
       p \<leftarrow> pint32 iounit p;
       Some (Inr (seal fc p)) })"

text \<open>
  \<open>4 + count\<close> and \<open>fc.Count + 4\<close> are sums of \<open>uint32\<close>s; the slice expression
  \<open>p[4 : fc.Count+4]\<close> is checked against the capacity of \<open>p\<close>.
\<close>

definition InitRread :: "Fcall \<Rightarrow> u32 \<Rightarrow> (perror + Fcall) option" where
  "InitRread fc count =
     packThen fc (unat (4 + count)) Rread (\<lambda>fc p. do {
       let fc = fc\<lparr>fc_Count := count\<rparr>;
       data \<leftarrow> go_slice (snd p) 4 (unat (fc_Count fc + 4));
       let fc = fc\<lparr>fc_Data := data\<rparr>;
       p \<leftarrow> pint32 count p;
       Some (Inr (seal fc p)) })"

text \<open>\<open>copy(fc.Data, bs)\<close> for an \<open>fc\<close> made by \<open>InitRread\<close>: \<open>Data\<close> starts at byte 11 of \<open>Buf\<close>.\<close>

definition copy_Data :: "Fcall \<Rightarrow> bytes \<Rightarrow> Fcall" where
  "copy_Data fc bs = (let data = go_copy (fc_Data fc) bs;
       buf = take 11 (fc_Buf fc) @ data @ drop (11 + length data) (fc_Buf fc)
     in fc\<lparr>fc_Data := data, fc_Buf := buf, fc_Pkt := take (length (fc_Pkt fc)) buf\<rparr>)"

text \<open>
  \<open>SetRreadCount\<close> stores the two counters through \<open>Pkt\<close> and then takes \<open>Pkt\<close> and \<open>Data\<close> again
  with the new lengths, which may reach up to the end of \<open>Buf\<close> (their capacity).
\<close>

definition SetRreadCount :: "Fcall \<Rightarrow> u32 \<Rightarrow> Fcall option" where
  "SetRreadCount fc count = do {
     let size = (4 + 1 + 2 + 4 + count :: u32);
     (d, r) \<leftarrow> pint32 size ([], fc_Pkt fc);
     let pkt = d @ r;
     (d, r) \<leftarrow> pint32 count (take 7 pkt, drop 7 pkt);
     let pkt = d @ r;
     let buf = pkt @ drop (length pkt) (fc_Buf fc);
     let fc = fc\<lparr>fc_Size := size, fc_Count := count, fc_Buf := buf\<rparr>;
     pkt \<leftarrow> go_slice buf 0 (unat size);
     data \<leftarrow> go_slice (drop 11 buf) 0 (unat count);
     Some (fc\<lparr>fc_Pkt := pkt, fc_Data := data, fc_Size := size\<rparr>) }"

definition PackRread :: "Fcall \<Rightarrow> bytes \<Rightarrow> (perror + Fcall) option" where
  "PackRread fc data = do {
     r \<leftarrow> InitRread fc (of_nat (length data));
     (case r of Inl err \<Rightarrow> Some (Inl err) | Inr fc \<Rightarrow> Some (Inr (copy_Data fc data))) }"

definition PackRwrite :: "Fcall \<Rightarrow> u32 \<Rightarrow> (perror + Fcall) option" where
  "PackRwrite fc count =
     packThen fc 4 Rwrite (\<lambda>fc p. do {
       let fc = fc\<lparr>fc_Count := count\<rparr>;
       p \<leftarrow> pint32 count p;
       Some (Inr (seal fc p)) })"

definition PackRclunk :: "Fcall \<Rightarrow> (perror + Fcall) option" where
  "PackRclunk fc = packThen fc 0 Rclunk (\<lambda>fc p. Some (Inr (seal fc p)))"

definition PackRremove :: "Fcall \<Rightarrow> (perror + Fcall) option" where
  "PackRremove fc = packThen fc 0 Rremove (\<lambda>fc p. Some (Inr (seal fc p)))"

definition PackRstat :: "Fcall \<Rightarrow> Dir \<Rightarrow> bool \<Rightarrow> (perror + Fcall) option" where
  "PackRstat fc d dotu =
     packThen fc (2 + statsz d dotu) Rstat (\<lambda>fc p. do {
       p \<leftarrow> pint16 (of_nat (statsz d dotu)) p;
       p \<leftarrow> pstat d p dotu;
       let fc = fc\<lparr>fc_Dir := d\<rparr>;
       Some (Inr (seal fc p)) })"

definition PackRwstat :: "Fcall \<Rightarrow> (perror + Fcall) option" where
  "PackRwstat fc = packThen fc 0 Rwstat (\<lambda>fc p. Some (Inr (seal fc p)))"

end
