(* ===== verification/P9_Unpack.thy ===== *)
theory P9_Unpack
  imports P9_Codec
begin

section \<open>Reading a message (p/unpack.go)\<close>

text \<open>
  \<open>Unpack buf dotu\<close> is \<open>None\<close> when the code panics (an index out of range in one of the readers),
  \<open>Some (Inl e)\<close> when it returns the error \<open>e\<close>, and \<open>Some (Inr (fc, n))\<close> when it returns the
  message \<open>fc\<close> and its size \<open>n\<close>.  The \<open>case\<close>s of its \<open>switch\<close> are functions of their own: they get
  the \<open>Fcall\<close> so far and the slice \<open>p\<close> behind the header, and return the \<open>Fcall\<close> and the slice they
  leave, which \<open>Twstat\<close> may leave nil.
\<close>

type_synonym body_result = "(perror + Fcall \<times> bytes option) option"

definition szerror :: "perror + 'a" where
  "szerror = Inl (Error ''invalid size'' EINVAL)"

text \<open>\<open>if p == nil { goto szerror }\<close>\<close>

definition nilchk :: "bytes option \<Rightarrow> (bytes \<Rightarrow> (perror + 'a) option) \<Rightarrow> (perror + 'a) option" where
  "nilchk q k = (case q of None \<Rightarrow> Some szerror | Some p \<Rightarrow> k p)"

lemma nilchk_Some [simp]: "nilchk (Some p) k = k p"
  by (simp add: nilchk_def)

lemma nilchk_None [simp]: "nilchk None k = Some szerror"
  by (simp add: nilchk_def)

definition unpack_version :: "Fcall \<Rightarrow> bytes \<Rightarrow> body_result" where
  "unpack_version fc p = do {
     (v, p) \<leftarrow> gint32 p;
     (s, q) \<leftarrow> gstr (Some p);
     nilchk q (\<lambda>p. Some (Inr (fc\<lparr>fc_Msize := v, fc_Version := s\<rparr>, Some p))) }"

definition unpack_Tauth :: "Fcall \<Rightarrow> bytes \<Rightarrow> bool \<Rightarrow> body_result" where
  "unpack_Tauth fc p dotu = do {
     (v, p) \<leftarrow> gint32 p;
     (u, q) \<leftarrow> gstr (Some p);
     nilchk q (\<lambda>p. do {
       (a, q) \<leftarrow> gstr (Some p);
       nilchk q (\<lambda>p. do {
         let fc = fc\<lparr>fc_Afid := v, fc_Uname := u, fc_Aname := a\<rparr>;
         if dotu then
           if length p > 0 then do {
             (n, p) \<leftarrow> gint32 p;
             Some (Inr (fc\<lparr>fc_Unamenum := n\<rparr>, Some p)) }
           else Some (Inr (fc\<lparr>fc_Unamenum := NOUID\<rparr>, Some p))
         else Some (Inr (fc\<lparr>fc_Unamenum := NOUID\<rparr>, Some p)) }) }) }"

definition unpack_qid :: "Fcall \<Rightarrow> bytes \<Rightarrow> body_result" where
  "unpack_qid fc p = do {
     (q, p) \<leftarrow> gqid p;
     Some (Inr (fc\<lparr>fc_Qid := q\<rparr>, Some p)) }"

definition unpack_Tflush :: "Fcall \<Rightarrow> bytes \<Rightarrow> body_result" where
  "unpack_Tflush fc p = do {
     (v, p) \<leftarrow> gint16 p;
     Some (Inr (fc\<lparr>fc_Oldtag := v\<rparr>, Some p)) }"

definition unpack_Tattach :: "Fcall \<Rightarrow> bytes \<Rightarrow> bool \<Rightarrow> body_result" where
  "unpack_Tattach fc p dotu = do {
     (f, p) \<leftarrow> gint32 p;
     (af, p) \<leftarrow> gint32 p;
     (u, q) \<leftarrow> gstr (Some p);
     nilchk q (\<lambda>p. do {
       (a, q) \<leftarrow> gstr (Some p);
       nilchk q (\<lambda>p. do {
         let fc = fc\<lparr>fc_Fid := f, fc_Afid := af, fc_Uname := u, fc_Aname := a\<rparr>;
         if dotu then
           if length p > 0 then do {
             (n, p) \<leftarrow> gint32 p;
             Some (Inr (fc\<lparr>fc_Unamenum := n\<rparr>, Some p)) }
           else Some (Inr (fc\<lparr>fc_Unamenum := NOUID\<rparr>, Some p))
         else Some (Inr (fc, Some p)) }) }) }"

definition unpack_Rerror :: "Fcall \<Rightarrow> bytes \<Rightarrow> bool \<Rightarrow> body_result" where
  "unpack_Rerror fc p dotu = do {
     (e, q) \<leftarrow> gstr (Some p);
     nilchk q (\<lambda>p.
       if dotu then do {
         (n, p) \<leftarrow> gint32 p;
         Some (Inr (fc\<lparr>fc_Error := e, fc_Errornum := n\<rparr>, Some p)) }
       else Some (Inr (fc\<lparr>fc_Error := e, fc_Errornum := 0\<rparr>, Some p))) }"

definition unpack_Twalk :: "Fcall \<Rightarrow> bytes \<Rightarrow> body_result" where
  "unpack_Twalk fc p = do {
     (f, p) \<leftarrow> gint32 p;
     (nf, p) \<leftarrow> gint32 p;
     (m, p) \<leftarrow> gint16 p;
     (ws, q) \<leftarrow> gstrs (unat m) p;
     nilchk q (\<lambda>p. Some (Inr (fc\<lparr>fc_Fid := f, fc_Newfid := nf, fc_Wname := ws\<rparr>, Some p))) }"

definition unpack_Rwalk :: "Fcall \<Rightarrow> bytes \<Rightarrow> body_result" where
  "unpack_Rwalk fc p = do {
     (m, p) \<leftarrow> gint16 p;
     (qs, p) \<leftarrow> get_n gqid (unat m) p;
     Some (Inr (fc\<lparr>fc_Wqid := qs\<rparr>, Some p)) }"

definition unpack_Topen :: "Fcall \<Rightarrow> bytes \<Rightarrow> body_result" where
  "unpack_Topen fc p = do {
     (f, p) \<leftarrow> gint32 p;
     (m, p) \<leftarrow> gint8 p;
     Some (Inr (fc\<lparr>fc_Fid := f, fc_Mode := m\<rparr>, Some p)) }"

definition unpack_open :: "Fcall \<Rightarrow> bytes \<Rightarrow> body_result" where
  "unpack_open fc p = do {
     (q, p) \<leftarrow> gqid p;
     (i, p) \<leftarrow> gint32 p;
     Some (Inr (fc\<lparr>fc_Qid := q, fc_Iounit := i\<rparr>, Some p)) }"

definition unpack_Tcreate :: "Fcall \<Rightarrow> bytes \<Rightarrow> bool \<Rightarrow> body_result" where
  "unpack_Tcreate fc p dotu = do {
     (f, p) \<leftarrow> gint32 p;
     (n, q) \<leftarrow> gstr (Some p);
     nilchk q (\<lambda>p. do {
       (pm, p) \<leftarrow> gint32 p;
       (m, p) \<leftarrow> gint8 p;
       let fc = fc\<lparr>fc_Fid := f, fc_Name := n, fc_Perm := pm, fc_Mode := m\<rparr>;
       if dotu then do {
         (e, q) \<leftarrow> gstr (Some p);
         nilchk q (\<lambda>p. Some (Inr (fc\<lparr>fc_Ext := e\<rparr>, Some p))) }
       else Some (Inr (fc, Some p)) }) }"

definition unpack_Tread :: "Fcall \<Rightarrow> bytes \<Rightarrow> body_result" where
  "unpack_Tread fc p = do {
     (f, p) \<leftarrow> gint32 p;
     (off, p) \<leftarrow> gint64 p;
     (c, p) \<leftarrow> gint32 p;
     Some (Inr (fc\<lparr>fc_Fid := f, fc_Offset := off, fc_Count := c\<rparr>, Some p)) }"

definition unpack_Rread :: "Fcall \<Rightarrow> bytes \<Rightarrow> body_result" where
  "unpack_Rread fc p = do {
     (c, p) \<leftarrow> gint32 p;
     if length p < unat c then Some szerror
     else Some (Inr (fc\<lparr>fc_Count := c, fc_Data := p\<rparr>, Some (drop (unat c) p))) }"

text \<open>A count that is not the number of bytes that follow makes a buffer of that count.\<close>

definition unpack_Twrite :: "Fcall \<Rightarrow> bytes \<Rightarrow> body_result" where
  "unpack_Twrite fc p = do {
     (f, p) \<leftarrow> gint32 p;
     (off, p) \<leftarrow> gint64 p;
     (c, p) \<leftarrow> gint32 p;
     let fc = fc\<lparr>fc_Fid := f, fc_Offset := off, fc_Count := c\<rparr>;
     if length p \<noteq> unat c then
       Some (Inr (fc\<lparr>fc_Data := go_copy (replicate (unat c) 0) p\<rparr>, Some (drop (length p) p)))
     else Some (Inr (fc\<lparr>fc_Data := p\<rparr>, Some (drop (unat c) p))) }"

definition unpack_Rwrite :: "Fcall \<Rightarrow> bytes \<Rightarrow> body_result" where
  "unpack_Rwrite fc p = do {
     (c, p) \<leftarrow> gint32 p;
     Some (Inr (fc\<lparr>fc_Count := c\<rparr>, Some p)) }"

definition unpack_fid :: "Fcall \<Rightarrow> bytes \<Rightarrow> body_result" where
  "unpack_fid fc p = do {
     (f, p) \<leftarrow> gint32 p;
     Some (Inr (fc\<lparr>fc_Fid := f\<rparr>, Some p)) }"

definition unpack_Rstat :: "Fcall \<Rightarrow> bytes \<Rightarrow> bool \<Rightarrow> body_result" where
  "unpack_Rstat fc p dotu = do {
     (m, p) \<leftarrow> gint16 p;
     (d, q) \<leftarrow> gstat p (fc_Dir fc) dotu;
     nilchk q (\<lambda>p. Some (Inr (fc\<lparr>fc_Dir := d\<rparr>, Some p))) }"

text \<open>No check for nil here, unlike \<open>Rstat\<close>.\<close>

definition unpack_Twstat :: "Fcall \<Rightarrow> bytes \<Rightarrow> bool \<Rightarrow> body_result" where
  "unpack_Twstat fc p dotu = do {
     (f, p) \<leftarrow> gint32 p;
     (m, p) \<leftarrow> gint16 p;
     (d, q) \<leftarrow> gstat p (fc_Dir fc) dotu;
     Some (Inr (fc\<lparr>fc_Fid := f, fc_Dir := d\<rparr>, q)) }"

definition unpack_body :: "Fcall \<Rightarrow> bytes \<Rightarrow> bool \<Rightarrow> body_result" where
  "unpack_body fc p dotu = (let t = fc_Type fc in
     if t = Tversion \<or> t = Rversion then unpack_version fc p
     else if t = Tauth then unpack_Tauth fc p dotu
     else if t = Rauth \<or> t = Rattach then unpack_qid fc p
     else if t = Tflush then unpack_Tflush fc p
     else if t = Tattach then unpack_Tattach fc p dotu
     else if t = Rerror then unpack_Rerror fc p dotu
     else if t = Twalk then unpack_Twalk fc p
     else if t = Rwalk then unpack_Rwalk fc p
     else if t = Topen then unpack_Topen fc p
     else if t = Ropen \<or> t = Rcreate then unpack_open fc p
     else if t = Tcreate then unpack_Tcreate fc p dotu
     else if t = Tread then unpack_Tread fc p
     else if t = Rread then unpack_Rread fc p
     else if t = Twrite then unpack_Twrite fc p
     else if t = Rwrite then unpack_Rwrite fc p
     else if t = Tclunk \<or> t = Tremove \<or> t = Tstat then unpack_fid fc p
     else if t = Rstat then unpack_Rstat fc p dotu
     else if t = Twstat then unpack_Twstat fc p dotu
     else if t = Rflush \<or> t = Rclunk \<or> t = Rremove \<or> t = Rwstat then Some (Inr (fc, Some p))
     else Some (Inl (Error ''invalid message id'' EINVAL)))"

text \<open>
  The size check compares the whole message size with the table entry; \<open>len(p)\<close> of a nil slice
  is 0.
\<close>

definition Unpack :: "bytes \<Rightarrow> bool \<Rightarrow> (perror + Fcall \<times> nat) option" where
  "Unpack buf dotu =
    (if length buf < 7 then Some (Inl (Error ''buffer too short'' EINVAL))
     else do {
       let fc = zero_Fcall\<lparr>fc_Fid := NOFID, fc_Afid := NOFID, fc_Newfid := NOFID\<rparr>;
       (sz, p) \<leftarrow> gint32 buf;
       (ty, p) \<leftarrow> gint8 p;
       (tag, p) \<leftarrow> gint16 p;
       let fc = fc\<lparr>fc_Size := sz, fc_Type := ty, fc_Tag := tag\<rparr>;
       if unat sz > length buf \<or> sz < 7 then
         Some (Inl (Error (''buffer too short: '' @ fmt_d (length buf) @ '' expected ''
           @ fmt_d (unat sz)) EINVAL))
       else do {
         p \<leftarrow> go_slice p 0 (unat (sz - 7));
         let fc = fc\<lparr>fc_Pkt := take (unat sz) buf\<rparr>;
         let fcsz = unat sz;
         if ty < Tversion \<or> ty \<ge> Tlast then Some (Inl (Error ''invalid id'' EINVAL))
         else if unat sz < (if dotu then minFcsize else minFcusize) ! unat (ty - Tversion) then
           Some szerror
         else do {
           r \<leftarrow> unpack_body fc p dotu;
           (case r of
             Inl e \<Rightarrow> Some (Inl e)
           | Inr (fc, q) \<Rightarrow>
               if (case q of None \<Rightarrow> 0 | Some p \<Rightarrow> length p) > 0 then Some szerror
               else Some (Inr (fc, fcsz))) } } })"

end
