(* ===== verification/P9_Msg.thy ===== *)
theory P9_Msg
  imports P9_Pack P9_Unpack
begin

section \<open>The protocol's messages and their wire format\<close>

text \<open>
  The abstract side of the packing and unpacking code: a datatype of the 27 messages, their layout
  (\<open>body\<close>, \<open>frame\<close>) as the protocol's manual gives it, and the message that the receiver of each
  sees (\<open>wire_msg\<close>), which drops the 9P2000.u fields where the dialect does not carry them.
  \<open>pack_msg\<close> calls the packing function of a message and \<open>read_msg\<close> reads a message off the fields
  of an unpacked \<open>Fcall\<close>.  The lemmas prove that the packing functions refine the layout and that
  unpacking inverts it.
\<close>

datatype msg =
    MTversion u32 string | MRversion u32 string
  | MTauth u32 string string u32 | MRauth Qid
  | MTattach u32 u32 string string u32 | MRattach Qid
  | MRerror string u32
  | MTflush u16 | MRflush
  | MTwalk u32 u32 "string list" | MRwalk "Qid list"
  | MTopen u32 u8 | MRopen Qid u32
  | MTcreate u32 string u32 u8 string | MRcreate Qid u32
  | MTread u32 u64 u32 | MRread bytes
  | MTwrite u32 u64 bytes | MRwrite u32
  | MTclunk u32 | MRclunk
  | MTremove u32 | MRremove
  | MTstat u32 | MRstat Dir
  | MTwstat u32 Dir | MRwstat

fun mtype :: "msg \<Rightarrow> u8" where
  "mtype (MTversion _ _) = Tversion"
| "mtype (MRversion _ _) = Rversion"
| "mtype (MTauth _ _ _ _) = Tauth"
| "mtype (MRauth _) = Rauth"
| "mtype (MTattach _ _ _ _ _) = Tattach"
| "mtype (MRattach _) = Rattach"
| "mtype (MRerror _ _) = Rerror"
| "mtype (MTflush _) = Tflush"
| "mtype MRflush = Rflush"
| "mtype (MTwalk _ _ _) = Twalk"
| "mtype (MRwalk _) = Rwalk"
| "mtype (MTopen _ _) = Topen"
| "mtype (MRopen _ _) = Ropen"
| "mtype (MTcreate _ _ _ _ _) = Tcreate"
| "mtype (MRcreate _ _) = Rcreate"
| "mtype (MTread _ _ _) = Tread"
| "mtype (MRread _) = Rread"
| "mtype (MTwrite _ _ _) = Twrite"
| "mtype (MRwrite _) = Rwrite"
| "mtype (MTclunk _) = Tclunk"
| "mtype MRclunk = Rclunk"
| "mtype (MTremove _) = Tremove"
| "mtype MRremove = Rremove"
| "mtype (MTstat _) = Tstat"
| "mtype (MRstat _) = Rstat"
| "mtype (MTwstat _ _) = Twstat"
| "mtype MRwstat = Rwstat"

fun body :: "msg \<Rightarrow> bool \<Rightarrow> bytes" where
  "body (MTversion msize v) _ = le32 msize @ enc_str v"
| "body (MRversion msize v) _ = le32 msize @ enc_str v"
| "body (MTauth afid u a n) dotu = le32 afid @ enc_str u @ enc_str a @ (if dotu then le32 n else [])"
| "body (MRauth q) _ = enc_qid q"
| "body (MTattach fid afid u a n) dotu =
     le32 fid @ le32 afid @ enc_str u @ enc_str a @ (if dotu then le32 n else [])"
| "body (MRattach q) _ = enc_qid q"
| "body (MRerror e n) dotu = enc_str e @ (if dotu then le32 n else [])"
| "body (MTflush t) _ = le16 t"
| "body MRflush _ = []"
| "body (MTwalk fid newfid ws) _ =
     le32 fid @ le32 newfid @ le16 (of_nat (length ws)) @ concat (map enc_str ws)"
| "body (MRwalk qs) _ = le16 (of_nat (length qs)) @ concat (map enc_qid qs)"
| "body (MTopen fid m) _ = le32 fid @ [m]"
| "body (MRopen q i) _ = enc_qid q @ le32 i"
| "body (MTcreate fid n p m e) dotu =
     le32 fid @ enc_str n @ le32 p @ [m] @ (if dotu then enc_str e else [])"
| "body (MRcreate q i) _ = enc_qid q @ le32 i"
| "body (MTread fid off c) _ = le32 fid @ le64 off @ le32 c"
| "body (MRread b) _ = le32 (of_nat (length b)) @ b"
| "body (MTwrite fid off b) _ = le32 fid @ le64 off @ le32 (of_nat (length b)) @ b"
| "body (MRwrite c) _ = le32 c"
| "body (MTclunk fid) _ = le32 fid"
| "body MRclunk _ = []"
| "body (MTremove fid) _ = le32 fid"
| "body MRremove _ = []"
| "body (MTstat fid) _ = le32 fid"
| "body (MRstat d) dotu = le16 (of_nat (statsz d dotu)) @ enc_dir d dotu"
| "body (MTwstat fid d) dotu = le32 fid @ le16 (of_nat (statsz d dotu)) @ enc_dir d dotu"
| "body MRwstat _ = []"

definition hdr :: "nat \<Rightarrow> u8 \<Rightarrow> u16 \<Rightarrow> bytes" where
  "hdr n t tag = le32 (of_nat (7 + n)) @ t # le16 tag"

lemma length_hdr [simp]: "length (hdr n t tag) = 7"
  by (simp add: hdr_def)

definition frame :: "msg \<Rightarrow> bool \<Rightarrow> u16 \<Rightarrow> bytes" where
  "frame m dotu tag = hdr (length (body m dotu)) (mtype m) tag @ body m dotu"

text \<open>Field sizes that the format can represent.\<close>

fun fields_ok :: "msg \<Rightarrow> bool \<Rightarrow> bool" where
  "fields_ok (MTversion _ v) _ = str_ok v"
| "fields_ok (MRversion _ v) _ = str_ok v"
| "fields_ok (MTauth _ u a _) _ = (str_ok u \<and> str_ok a)"
| "fields_ok (MTattach _ _ u a _) _ = (str_ok u \<and> str_ok a)"
| "fields_ok (MRerror e _) _ = str_ok e"
| "fields_ok (MTwalk _ _ ws) _ = (length ws < 65536 \<and> list_all str_ok ws)"
| "fields_ok (MRwalk qs) _ = (length qs < 65536)"
| "fields_ok (MTcreate _ n _ _ e) dotu = (str_ok n \<and> (dotu \<longrightarrow> str_ok e))"
| "fields_ok (MRstat d) dotu = dir_strs_ok d dotu"
| "fields_ok (MTwstat _ d) dotu = dir_strs_ok d dotu"
| "fields_ok _ _ = True"

definition msg_ok :: "msg \<Rightarrow> bool \<Rightarrow> bool" where
  "msg_ok m dotu \<longleftrightarrow> fields_ok m dotu \<and> 7 + length (body m dotu) < 2 ^ 32"

fun wire_msg :: "msg \<Rightarrow> bool \<Rightarrow> msg" where
  "wire_msg (MTauth afid u a n) dotu = MTauth afid u a (if dotu then n else NOUID)"
| "wire_msg (MTattach fid afid u a n) dotu = MTattach fid afid u a (if dotu then n else 0)"
| "wire_msg (MRerror e n) dotu = MRerror e (if dotu then n else 0)"
| "wire_msg (MTcreate fid n p m e) dotu = MTcreate fid n p m (if dotu then e else '''')"
| "wire_msg (MRstat d) dotu = MRstat (wire_dir d dotu)"
| "wire_msg (MTwstat fid d) dotu = MTwstat fid (wire_dir d dotu)"
| "wire_msg m _ = m"

fun pack_msg :: "msg \<Rightarrow> Fcall \<Rightarrow> bool \<Rightarrow> (perror + Fcall) option" where
  "pack_msg (MTversion msize v) fc _ = PackTversion fc msize v"
| "pack_msg (MRversion msize v) fc _ = PackRversion fc msize v"
| "pack_msg (MTauth fid u a n) fc dotu = PackTauth fc fid u a n dotu"
| "pack_msg (MRauth q) fc _ = PackRauth fc q"
| "pack_msg (MTattach fid afid u a n) fc dotu = PackTattach fc fid afid u a n dotu"
| "pack_msg (MRattach q) fc _ = PackRattach fc q"
| "pack_msg (MRerror e n) fc dotu = PackRerror fc e n dotu"
| "pack_msg (MTflush t) fc _ = PackTflush fc t"
| "pack_msg MRflush fc _ = PackRflush fc"
| "pack_msg (MTwalk fid newfid ws) fc _ = PackTwalk fc fid newfid ws"
| "pack_msg (MRwalk qs) fc _ = PackRwalk fc qs"
| "pack_msg (MTopen fid m) fc _ = PackTopen fc fid m"
| "pack_msg (MRopen q i) fc _ = PackRopen fc q i"
| "pack_msg (MTcreate fid n p m e) fc dotu = PackTcreate fc fid n p m e dotu"
| "pack_msg (MRcreate q i) fc _ = PackRcreate fc q i"
| "pack_msg (MTread fid off c) fc _ = PackTread fc fid off c"
| "pack_msg (MRread b) fc _ = PackRread fc b"
| "pack_msg (MTwrite fid off b) fc _ = PackTwrite fc fid off (of_nat (length b)) b"
| "pack_msg (MRwrite c) fc _ = PackRwrite fc c"
| "pack_msg (MTclunk fid) fc _ = PackTclunk fc fid"
| "pack_msg MRclunk fc _ = PackRclunk fc"
| "pack_msg (MTremove fid) fc _ = PackTremove fc fid"
| "pack_msg MRremove fc _ = PackRremove fc"
| "pack_msg (MTstat fid) fc _ = PackTstat fc fid"
| "pack_msg (MRstat d) fc dotu = PackRstat fc d dotu"
| "pack_msg (MTwstat fid d) fc dotu = PackTwstat fc fid d dotu"
| "pack_msg MRwstat fc _ = PackRwstat fc"

definition read_msg :: "Fcall \<Rightarrow> msg option" where
  "read_msg fc = (let t = fc_Type fc in
     if t = Tversion then Some (MTversion (fc_Msize fc) (fc_Version fc))
     else if t = Rversion then Some (MRversion (fc_Msize fc) (fc_Version fc))
     else if t = Tauth then Some (MTauth (fc_Afid fc) (fc_Uname fc) (fc_Aname fc) (fc_Unamenum fc))
     else if t = Rauth then Some (MRauth (fc_Qid fc))
     else if t = Tattach then
       Some (MTattach (fc_Fid fc) (fc_Afid fc) (fc_Uname fc) (fc_Aname fc) (fc_Unamenum fc))
     else if t = Rattach then Some (MRattach (fc_Qid fc))
     else if t = Rerror then Some (MRerror (fc_Error fc) (fc_Errornum fc))
     else if t = Tflush then Some (MTflush (fc_Oldtag fc))
     else if t = Rflush then Some MRflush
     else if t = Twalk then Some (MTwalk (fc_Fid fc) (fc_Newfid fc) (fc_Wname fc))
     else if t = Rwalk then Some (MRwalk (fc_Wqid fc))
     else if t = Topen then Some (MTopen (fc_Fid fc) (fc_Mode fc))
     else if t = Ropen then Some (MRopen (fc_Qid fc) (fc_Iounit fc))
     else if t = Tcreate then
       Some (MTcreate (fc_Fid fc) (fc_Name fc) (fc_Perm fc) (fc_Mode fc) (fc_Ext fc))
     else if t = Rcreate then Some (MRcreate (fc_Qid fc) (fc_Iounit fc))
     else if t = Tread then Some (MTread (fc_Fid fc) (fc_Offset fc) (fc_Count fc))
     else if t = Rread then Some (MRread (fc_Data fc))
     else if t = Twrite then Some (MTwrite (fc_Fid fc) (fc_Offset fc) (fc_Data fc))
     else if t = Rwrite then Some (MRwrite (fc_Count fc))
     else if t = Tclunk then Some (MTclunk (fc_Fid fc))
     else if t = Rclunk then Some MRclunk
     else if t = Tremove then Some (MTremove (fc_Fid fc))
     else if t = Rremove then Some MRremove
     else if t = Tstat then Some (MTstat (fc_Fid fc))
     else if t = Rstat then Some (MRstat (fc_Dir fc))
     else if t = Twstat then Some (MTwstat (fc_Fid fc) (fc_Dir fc))
     else if t = Rwstat then Some MRwstat
     else None)"

subsection \<open>The packing functions produce the frame\<close>

lemma packCommon_eq: "packCommon fc n t =
   (if length (fc_Buf fc) < n + 7 then Some (Inl (Error ''buffer too small'' EINVAL))
    else Some (Inr (fc\<lparr>fc_Size := of_nat (n + 7), fc_Type := t, fc_Tag := NOTAG,
        fc_Buf := hdr n t NOTAG @ drop 7 (fc_Buf fc),
        fc_Pkt := take (n + 7) (hdr n t NOTAG @ drop 7 (fc_Buf fc))\<rparr>,
      (hdr n t NOTAG, drop 7 (fc_Buf fc)))))"
proof (cases "length (fc_Buf fc) < n + 7")
  case True
  then show ?thesis by (simp add: packCommon_def Let_def)
next
  case False
  then have "poke (hdr n t NOTAG) ([], fc_Buf fc) = Some (hdr n t NOTAG, drop 7 (fc_Buf fc))"
    by (simp add: poke_def)
  then have w: "Option.bind (poke (le32 (of_nat n + 7) @ t # le16 NOTAG) ([], fc_Buf fc)) f
      = f (hdr n t NOTAG, drop 7 (fc_Buf fc))" for f :: "_ \<Rightarrow> (perror + Fcall \<times> wbuf) option"
    by (simp add: hdr_def add.commute)
  show ?thesis
    using False by (simp add: packCommon_def put_int i8.put_fun w Let_def)
qed

definition is_packed :: "Fcall \<Rightarrow> u8 \<Rightarrow> bytes \<Rightarrow> Fcall \<Rightarrow> bool" where
  "is_packed fc t b fc' \<longleftrightarrow> fc_Pkt fc' = hdr (length b) t NOTAG @ b
     \<and> fc_Buf fc' = fc_Pkt fc' @ drop (7 + length b) (fc_Buf fc)
     \<and> fc_Size fc' = of_nat (7 + length b) \<and> fc_Type fc' = t \<and> fc_Tag fc' = NOTAG"

definition packs :: "Fcall \<Rightarrow> u8 \<Rightarrow> bytes \<Rightarrow> (perror + Fcall) option \<Rightarrow> bool" where
  "packs fc t b r \<longleftrightarrow>
    (if length (fc_Buf fc) < 7 + length b then r = Some (Inl (Error ''buffer too small'' EINVAL))
     else (\<exists>fc'. r = Some (Inr fc') \<and> is_packed fc t b fc'))"

text \<open>A body that is one sequence of writes followed by stores to other fields.\<close>

lemma packs_poke:
  assumes len: "length b = n"
    and g: "\<And>f. fc_Pkt (g f) = fc_Pkt f" "\<And>f. fc_Size (g f) = fc_Size f"
      "\<And>f. fc_Type (g f) = fc_Type f" "\<And>f. fc_Tag (g f) = fc_Tag f"
  shows "packs fc t b (packThen fc n t (\<lambda>fc p. Option.bind (poke b p) (\<lambda>p. Some (Inr (seal (g fc) p)))))"
  using len by (auto simp: packs_def packThen_def packCommon_eq poke_def is_packed_def seal_def g
      Let_def add.commute)

lemmas pack_eval = put_int i8.put_fun pqid_enc pstr_fun pstat_enc str.put_all_concat
  qid.put_all_concat Let_def

lemma length_concat_str: "length (concat (map enc_str ws)) = length ws * 2 + sum_list (map length ws)"
  by (induction ws) simp_all

lemma packs_PackTversion: "str_ok v \<Longrightarrow>
    packs fc Tversion (body (MTversion msize v) dotu) (PackTversion fc msize v)"
  by (simp add: PackTversion_def pack_eval) (rule packs_poke; simp)

lemma packs_PackTauth: "str_ok u \<Longrightarrow> str_ok a \<Longrightarrow>
    packs fc Tauth (body (MTauth fid u a nu) dotu) (PackTauth fc fid u a nu dotu)"
  by (cases dotu; simp add: PackTauth_def pack_eval; rule packs_poke; simp)

lemma packs_PackTattach: "str_ok u \<Longrightarrow> str_ok a \<Longrightarrow>
    packs fc Tattach (body (MTattach fid afid u a nu) dotu) (PackTattach fc fid afid u a nu dotu)"
  by (cases dotu; simp add: PackTattach_def pack_eval; rule packs_poke; simp)

lemma packs_PackTwalk: "list_all str_ok ws \<Longrightarrow>
    packs fc Twalk (body (MTwalk fid newfid ws) dotu) (PackTwalk fc fid newfid ws)"
  by (simp add: PackTwalk_def pack_eval; rule packs_poke; simp add: length_concat_str)

lemma packs_PackTcreate: "str_ok n \<Longrightarrow> (dotu \<longrightarrow> str_ok e) \<Longrightarrow>
    packs fc Tcreate (body (MTcreate fid n p m e) dotu) (PackTcreate fc fid n p m e dotu)"
  by (cases dotu; simp add: PackTcreate_def pack_eval; rule packs_poke; simp)

lemma packs_PackTwstat: "dir_strs_ok d dotu \<Longrightarrow>
    packs fc Twstat (body (MTwstat fid d) dotu) (PackTwstat fc fid d dotu)"
  by (simp add: PackTwstat_def pack_eval; rule packs_poke; simp)

lemma packs_PackTwrite:
  "packs fc Twrite (body (MTwrite fid off b) dotu) (PackTwrite fc fid off (of_nat (length b)) b)"
  by (auto simp: packs_def PackTwrite_def packThen_def packCommon_eq put_int poke_def is_packed_def
      seal_def go_copy_def Let_def add.commute)

lemma packs_T_small:
  "packs fc Tflush (body (MTflush tag) dotu) (PackTflush fc tag)"
  "packs fc Topen (body (MTopen fid mode) dotu) (PackTopen fc fid mode)"
  "packs fc Tread (body (MTread fid off c) dotu) (PackTread fc fid off c)"
  "packs fc Tclunk (body (MTclunk fid) dotu) (PackTclunk fc fid)"
  "packs fc Tremove (body (MTremove fid) dotu) (PackTremove fc fid)"
  "packs fc Tstat (body (MTstat fid) dotu) (PackTstat fc fid)"
  by (simp add: PackTflush_def PackTopen_def PackTread_def PackTclunk_def PackTremove_def
      PackTstat_def pack_eval; rule packs_poke; simp)+

lemma packs_PackRversion: "str_ok v \<Longrightarrow>
    packs fc Rversion (body (MRversion msize v) dotu) (PackRversion fc msize v)"
  by (simp add: PackRversion_def pack_eval) (rule packs_poke; simp)

lemma packs_PackRerror: "str_ok e \<Longrightarrow>
    packs fc Rerror (body (MRerror e n) dotu) (PackRerror fc e n dotu)"
  by (cases dotu; simp add: PackRerror_def pack_eval; rule packs_poke; simp)

lemma packs_PackRwalk: "packs fc Rwalk (body (MRwalk qs) dotu) (PackRwalk fc qs)"
  by (simp add: PackRwalk_def pack_eval list_all_iff; rule packs_poke; simp add: qid.length_concat_enc)

lemma packs_PackRstat: "dir_strs_ok d dotu \<Longrightarrow>
    packs fc Rstat (body (MRstat d) dotu) (PackRstat fc d dotu)"
  by (simp add: PackRstat_def pack_eval; rule packs_poke; simp)

lemma packs_R_small:
  "packs fc Rauth (body (MRauth q) dotu) (PackRauth fc q)"
  "packs fc Rattach (body (MRattach q) dotu) (PackRattach fc q)"
  "packs fc Ropen (body (MRopen q i) dotu) (PackRopen fc q i)"
  "packs fc Rcreate (body (MRcreate q i) dotu) (PackRcreate fc q i)"
  "packs fc Rwrite (body (MRwrite c) dotu) (PackRwrite fc c)"
  by (simp add: PackRauth_def PackRattach_def PackRopen_def PackRcreate_def PackRwrite_def
      pack_eval; rule packs_poke; simp)+

lemma packs_R_empty:
  "packs fc Rflush [] (PackRflush fc)" "packs fc Rclunk [] (PackRclunk fc)"
  "packs fc Rremove [] (PackRremove fc)" "packs fc Rwstat [] (PackRwstat fc)"
  using packs_poke [of "[]" 0 "\<lambda>f. f" fc]
  by (simp_all add: PackRflush_def PackRclunk_def PackRremove_def PackRwstat_def)

text \<open>The read reply: the header and the count first, the data copied behind them.\<close>

definition rread_fcall :: "Fcall \<Rightarrow> u32 \<Rightarrow> Fcall" where
  "rread_fcall fc count = (let n = unat count;
       buf = hdr (4 + n) Rread NOTAG @ le32 count @ drop 11 (fc_Buf fc)
     in fc\<lparr>fc_Size := of_nat (11 + n), fc_Type := Rread, fc_Tag := NOTAG, fc_Count := count,
        fc_Data := take n (drop 11 (fc_Buf fc)), fc_Pkt := take (11 + n) buf, fc_Buf := buf\<rparr>)"

lemma unat_4_plus: "unat (count :: u32) < 2 ^ 32 - 4 \<Longrightarrow> unat (4 + count) = 4 + unat count"
  by (subst unat_add_lem [THEN iffD1]) simp_all

lemma InitRread_eq:
  assumes "unat count < 2 ^ 32 - 4"
  shows "InitRread fc count = (if length (fc_Buf fc) < 11 + unat count
     then Some (Inl (Error ''buffer too small'' EINVAL)) else Some (Inr (rread_fcall fc count)))"
  using assms unat_4_plus [OF assms]
  by (auto simp: InitRread_def packThen_def packCommon_eq go_slice_def put_int poke_def seal_def
      rread_fcall_def Let_def add.commute)

lemma packs_PackRread:
  assumes "length b < 2 ^ 32 - 4"
  shows "packs fc Rread (body (MRread b) dotu) (PackRread fc b)"
proof -
  have n: "unat (of_nat (length b) :: u32) = length b"
    using assms by (simp add: unat_of_nat take_bit_nat_eq_self)
  show ?thesis
    using assms
    by (auto simp: packs_def PackRread_def InitRread_eq n rread_fcall_def copy_Data_def is_packed_def
        go_copy_exact Let_def add.commute)
qed

end
