(* ===== verification/P9_Roundtrip.thy ===== *)
theory P9_Roundtrip
  imports P9_Msg
begin

section \<open>Packing refines the wire format and unpacking inverts it\<close>

subsection \<open>Packing\<close>

lemma unat_7_plus: "7 + n < 2 ^ 32 \<Longrightarrow> unat (7 + of_nat n :: u32) = 7 + n"
  using unat_of_nat [of "7 + n", where 'a = 32] by (simp add: take_bit_nat_eq_self)

lemma packs_pack_msg:
  assumes "msg_ok m dotu"
  shows "packs fc (mtype m) (body m dotu) (pack_msg m fc dotu)"
proof (cases m)
  case (MRread b)
  have "length b < 2 ^ 32 - 4" using assms MRread by (simp add: msg_ok_def)
  then show ?thesis using MRread packs_PackRread [of b fc dotu] by simp
qed (use assms packs_PackTversion packs_PackTauth packs_PackTattach packs_PackTwalk
      packs_PackTcreate packs_PackTwstat packs_PackTwrite packs_T_small packs_PackRversion
      packs_PackRerror packs_PackRwalk packs_PackRstat packs_R_small packs_R_empty
     in \<open>simp_all add: msg_ok_def del: body.simps(1-8,10-20,22,24-26)\<close>)

lemma pack_msg_frame:
  assumes ok: "msg_ok m dotu" and fit: "7 + length (body m dotu) \<le> length (fc_Buf fc)"
  shows "\<exists>fc'. pack_msg m fc dotu = Some (Inr fc') \<and> fc_Pkt fc' = frame m dotu NOTAG
    \<and> fc_Buf fc' = frame m dotu NOTAG @ drop (7 + length (body m dotu)) (fc_Buf fc)
    \<and> unat (fc_Size fc') = length (frame m dotu NOTAG) \<and> fc_Type fc' = mtype m \<and> fc_Tag fc' = NOTAG"
proof -
  have "unat (7 + of_nat (length (body m dotu)) :: u32) = 7 + length (body m dotu)"
    using ok by (intro unat_7_plus) (simp add: msg_ok_def)
  moreover obtain fc' where "pack_msg m fc dotu = Some (Inr fc')"
      and "is_packed fc (mtype m) (body m dotu) fc'"
    using packs_pack_msg [OF ok, of fc] fit by (auto simp: packs_def)
  ultimately show ?thesis
    by (intro exI [of _ fc']) (simp add: is_packed_def frame_def)
qed

lemma SetTag_packed:
  assumes "fc_Pkt fc = hdr n t tag0 @ b" "fc_Buf fc = fc_Pkt fc @ r"
  shows "SetTag fc tag = Some (fc\<lparr>fc_Tag := tag, fc_Pkt := hdr n t tag @ b,
    fc_Buf := hdr n t tag @ b @ r\<rparr>)"
proof -
  have 1: "take 5 (fc_Pkt fc) = le32 (of_nat (7 + n)) @ [t]"
    and 2: "drop 5 (fc_Pkt fc) = le16 tag0 @ b"
    using assms(1) by (simp_all add: hdr_def)
  have 3: "hdr n t tag @ b = (le32 (of_nat (7 + n)) @ [t]) @ le16 tag @ b"
    by (simp add: hdr_def)
  have "pint16 tag (le32 (of_nat (7 + n)) @ [t], le16 tag0 @ b)
      = Some ((le32 (of_nat (7 + n)) @ [t]) @ le16 tag, b)"
    by (simp add: put_int poke_def)
  moreover have "go_copy (fc_Buf fc) (hdr n t tag @ b) = hdr n t tag @ b @ r"
    using assms by (simp add: go_copy_def)
  ultimately show ?thesis
    unfolding SetTag_def Let_def by (simp add: 1 2 3)
qed

subsection \<open>Unpacking\<close>

lemmas get_Nil [simp] = i8.get_enc_Nil [OF TrueI] i16.get_enc_Nil [OF TrueI]
  i32.get_enc_Nil [OF TrueI] i64.get_enc_Nil [OF TrueI] qid.get_enc_Nil [OF TrueI]

lemma gstr_enc_Nil [simp]: "str_ok s \<Longrightarrow> gstr (Some (enc_str s)) = Some (s, Some [])"
  using gstr_enc [of s "[]"] by simp

lemma le32_not_Nil [simp]: "le32 v \<noteq> []"
  by (simp add: le32_def)

lemma get_n_qids [simp]: "get_n gqid (length qs) (concat (map enc_qid qs)) = Some (qs, [])"
  using qid.get_n_concat [of qs "[]"] by (simp add: list_all_iff)

lemma gstrs_enc: "list_all str_ok ws \<Longrightarrow>
    gstrs (length ws) (concat (map enc_str ws) @ r) = Some (ws, Some r)"
  by (induction ws) simp_all

lemma gstat_enc_Nil: "dir_strs_ok d dotu \<Longrightarrow> dir_Ext d0 = [] \<Longrightarrow>
    gstat (enc_dir d dotu) d0 dotu = Some (wire_dir d dotu, Some [])"
  using gstat_enc [of d dotu "[]" d0] by (simp add: wire_dir_def)

definition start_fc :: "nat \<Rightarrow> u8 \<Rightarrow> u16 \<Rightarrow> bytes \<Rightarrow> Fcall" where
  "start_fc n t tag pkt = zero_Fcall\<lparr>fc_Fid := NOFID, fc_Afid := NOFID, fc_Newfid := NOFID,
     fc_Size := of_nat (7 + n), fc_Type := t, fc_Tag := tag, fc_Pkt := pkt\<rparr>"

lemma Unpack_frame:
  assumes n: "7 + length b < 2 ^ 32" and t: "Tversion \<le> t" "t < Tlast"
    and tab: "(if dotu then minFcsize else minFcusize) ! unat (t - Tversion) \<le> 7 + length b"
  shows "Unpack (hdr (length b) t tag @ b @ r) dotu =
    Option.bind (unpack_body (start_fc (length b) t tag (hdr (length b) t tag @ b)) b dotu)
     (\<lambda>r. case r of Inl e \<Rightarrow> Some (Inl e)
        | Inr (fc, q) \<Rightarrow> if (case q of None \<Rightarrow> 0 | Some p \<Rightarrow> length p) > 0 then Some szerror
                         else Some (Inr (fc, 7 + length b)))"
proof -
  have u: "unat (7 + of_nat (length b) :: u32) = 7 + length b" by (rule unat_7_plus [OF n])
  have "\<not> (7 + of_nat (length b) :: u32) < 7"
    by (simp add: word_less_nat_alt u)
  moreover have "unat (7 + of_nat (length b) - 7 :: u32) = length b"
    using n by (simp add: unat_of_nat take_bit_nat_eq_self)
  moreover have "gint32 (hdr (length b) t tag @ b @ r)
      = Some (7 + of_nat (length b), t # le16 tag @ b @ r)"
    by (simp add: hdr_def)
  moreover have "\<not> t < Tversion" "\<not> Tlast \<le> t" using t by auto
  ultimately show ?thesis
    using u tab
    by (simp add: Unpack_def go_slice_def start_fc_def Let_def)
qed



lemma min_sizes:
  assumes ok: "fields_ok m dotu" and "m = MRwstat \<Longrightarrow> dotu"
  shows "(if dotu then minFcsize else minFcusize) ! unat (mtype m - Tversion)
    \<le> 7 + length (body m dotu)"
proof -
  have "49 \<le> statsz d dotu" for d by (rule statsz_ge)
  then show ?thesis
    using assms by (cases m; cases dotu; simp add: msg_type_defs minFcsize_def minFcusize_def)
qed

lemma mtype_range: "Tversion \<le> mtype m \<and> mtype m < Tlast"
  by (cases m) (simp_all add: msg_type_defs)

lemma unpack_body_enc:
  assumes ok: "msg_ok m dotu"
    and fc: "fc_Type fc = mtype m" "fc_Dir fc = zero_Dir" "fc_Unamenum fc = 0" "fc_Ext fc = []"
  shows "\<exists>fc'. unpack_body fc (body m dotu) dotu = Some (Inr (fc', Some []))
    \<and> read_msg fc' = Some (wire_msg m dotu) \<and> fc_Tag fc' = fc_Tag fc \<and> fc_Pkt fc' = fc_Pkt fc
    \<and> fc_Size fc' = fc_Size fc \<and> fc_Type fc' = fc_Type fc"
proof -
  have dx: "dir_Ext zero_Dir = []" by (simp add: zero_Dir_def)
  have l16: "unat (of_nat n :: u16) = n" if "n < 65536" for n
    using that by (simp add: unat_of_nat take_bit_nat_eq_self)
  have l32: "unat (of_nat n :: u32) = n" if "n < 4294967296" for n
    using that by (simp add: unat_of_nat take_bit_nat_eq_self)
  note u = unpack_body_def unpack_version_def unpack_Tauth_def unpack_qid_def unpack_Tflush_def
    unpack_Tattach_def unpack_Rerror_def unpack_Twalk_def unpack_Rwalk_def unpack_Topen_def
    unpack_open_def unpack_Tcreate_def unpack_Tread_def unpack_Rread_def unpack_Twrite_def
    unpack_Rwrite_def unpack_fid_def unpack_Rstat_def unpack_Twstat_def Let_def
  show ?thesis
    using ok fc
    by (cases m; cases dotu; simp add: u msg_ok_def msg_type_defs read_msg_def gstat_enc_Nil dx l16 l32
        gstrs_enc [where r = "[]", simplified])
qed

lemma Unpack_msg:
  assumes ok: "msg_ok m dotu" and "m = MRwstat \<Longrightarrow> dotu"
  shows "\<exists>fc. Unpack (frame m dotu tag @ r) dotu = Some (Inr (fc, length (frame m dotu tag)))
    \<and> read_msg fc = Some (wire_msg m dotu) \<and> fc_Tag fc = tag \<and> fc_Pkt fc = frame m dotu tag"
proof -
  let ?b = "body m dotu"
  let ?h = "hdr (length ?b) (mtype m) tag"
  let ?fc = "start_fc (length ?b) (mtype m) tag (?h @ ?b)"
  have tab: "(if dotu then minFcsize else minFcusize) ! unat (mtype m - Tversion) \<le> 7 + length ?b"
    using assms by (intro min_sizes) (auto simp: msg_ok_def)
  have "fc_Type ?fc = mtype m" "fc_Dir ?fc = zero_Dir" "fc_Unamenum ?fc = 0" "fc_Ext ?fc = []"
    "fc_Tag ?fc = tag" "fc_Pkt ?fc = ?h @ ?b"
    by (simp_all add: start_fc_def zero_Fcall_def)
  then obtain fc' where "unpack_body ?fc ?b dotu = Some (Inr (fc', Some []))"
      and "read_msg fc' = Some (wire_msg m dotu)" "fc_Tag fc' = tag" "fc_Pkt fc' = ?h @ ?b"
    using unpack_body_enc [OF ok, of ?fc] by auto
  then show ?thesis
    using Unpack_frame [OF _ _ _ tab, of tag r] ok mtype_range [of m]
    by (intro exI [of _ fc']) (simp add: frame_def msg_ok_def)
qed

subsection \<open>What a successful Unpack guarantees\<close>

lemma Unpack_prefix:
  assumes l: "7 \<le> length buf"
  shows "\<exists>sz t tag p. gint32 buf = Some (sz, t # p) \<and> gint16 p = Some (tag, drop 7 buf)
    \<and> (\<forall>r. gint32 (take 7 buf @ r) = Some (sz, t # take 2 p @ r)
          \<and> gint16 (take 2 p @ r) = Some (tag, r))"
proof -
  obtain b0 b1 b2 b3 b4 b5 b6 r where "buf = b0 # b1 # b2 # b3 # b4 # b5 # b6 # r"
    using l by (auto simp: numeral_eq_Suc Suc_le_length_iff)
  then show ?thesis by (simp add: gint32_def gint16_def)
qed

lemma Unpack_success:
  assumes u: "Unpack buf dotu = Some (Inr (fc, n))"
  shows "\<exists>sz t tag fc0 q. 7 \<le> n \<and> n \<le> length buf \<and> unat sz = n
    \<and> Tversion \<le> t \<and> t < Tlast
    \<and> (if dotu then minFcsize else minFcusize) ! unat (t - Tversion) \<le> n
    \<and> fc0 = zero_Fcall\<lparr>fc_Fid := NOFID, fc_Afid := NOFID, fc_Newfid := NOFID, fc_Size := sz,
         fc_Type := t, fc_Tag := tag, fc_Pkt := take n buf\<rparr>
    \<and> (\<exists>p. gint32 buf = Some (sz, t # p) \<and> gint16 p = Some (tag, drop 7 buf))
    \<and> unpack_body fc0 (take (n - 7) (drop 7 buf)) dotu = Some (Inr (fc, q))
    \<and> (q = None \<or> q = Some [])"
proof -
  have l: "7 \<le> length buf"
    using u by (simp add: Unpack_def split: if_splits)
  obtain sz t tag p where g: "gint32 buf = Some (sz, t # p)" "gint16 p = Some (tag, drop 7 buf)"
    using Unpack_prefix [OF l] by auto
  have s: "\<not> (unat sz > length buf \<or> sz < 7)"
    using u l g by (auto simp: Unpack_def Let_def)
  then have m: "unat (sz - 7) = unat sz - 7"
    by (simp add: unat_sub linorder_not_less)
  have s7: "7 \<le> unat sz" using s by (simp add: word_less_nat_alt)
  show ?thesis
    using u l g s m s7
    by (auto simp: Unpack_def Let_def go_slice_def szerror_def linorder_not_less split: if_splits Option.bind_splits
        sum.splits option.splits intro!: exI [of _ sz])
qed

lemma Unpack_successE:
  assumes "Unpack buf dotu = Some (Inr (fc, n))"
  obtains sz t tag p q fc0 where "7 \<le> n" "n \<le> length buf" "unat sz = n" "Tversion \<le> t" "t < Tlast"
    "(if dotu then minFcsize else minFcusize) ! unat (t - Tversion) \<le> n"
    "fc0 = zero_Fcall\<lparr>fc_Fid := NOFID, fc_Afid := NOFID, fc_Newfid := NOFID, fc_Size := sz,
       fc_Type := t, fc_Tag := tag, fc_Pkt := take n buf\<rparr>"
    "gint32 buf = Some (sz, t # p)" "gint16 p = Some (tag, drop 7 buf)"
    "unpack_body fc0 (take (n - 7) (drop 7 buf)) dotu = Some (Inr (fc, q))"
    "q = None \<or> q = Some []"
  using Unpack_success [OF assms] by (elim exE conjE) (rule that; assumption)

subsection \<open>Filling in a read reply\<close>

lemma SetRreadCount_filled:
  assumes c: "11 + unat count < 2 ^ 32" "11 + unat count \<le> length (fc_Buf fc)"
    and n: "unat n \<le> unat count" "unat n \<le> length src"
  shows "\<exists>fc1 fc2. InitRread fc count = Some (Inr fc1)
    \<and> SetRreadCount (copy_Data fc1 src) n = Some fc2
    \<and> fc_Pkt fc2 = hdr (4 + unat n) Rread NOTAG @ le32 n @ take (unat n) src
    \<and> fc_Data fc2 = take (unat n) src \<and> fc_Count fc2 = n"
proof -
  let ?fc1 = "rread_fcall fc count"
  define m where "m = unat count"
  define k where "k = unat n"
  define d where "d = go_copy (take m (drop 11 (fc_Buf fc))) src"
  define r where "r = drop (11 + m) (fc_Buf fc)"
  have d: "length d = m" "take k d = take k src" "k \<le> m"
    using assms by (simp_all add: d_def go_copy_def m_def k_def)
  have cd: "copy_Data ?fc1 src = ?fc1\<lparr>fc_Data := d, fc_Buf := hdr (4 + m) Rread NOTAG @ le32 count @ d @ r,
      fc_Pkt := hdr (4 + m) Rread NOTAG @ le32 count @ d\<rparr>"
    using c(2) d(1)
    by (simp add: copy_Data_def rread_fcall_def Let_def d_def [symmetric] m_def [symmetric] r_def add.commute)
  have i: "InitRread fc count = Some (Inr ?fc1)"
    using InitRread_eq [of count fc] c by simp
  have k: "4 + 1 + 2 + 4 + n = of_nat (7 + (4 + k))"
    by (simp add: k_def)
  have u: "unat (4 + 1 + 2 + 4 + n) = 11 + k"
    unfolding k using c(1) n(1) by (subst unat_of_nat) (simp add: take_bit_nat_eq_self k_def)
  have "\<exists>fc2. SetRreadCount (copy_Data ?fc1 src) n = Some fc2
    \<and> fc_Pkt fc2 = hdr (4 + k) Rread NOTAG @ le32 n @ take k src
    \<and> fc_Data fc2 = take k src \<and> fc_Count fc2 = n"
    unfolding cd SetRreadCount_def Let_def u unfolding k
    using d
    by (simp add: hdr_def put_int poke_def go_slice_def k_def [symmetric] take_Cons' drop_Cons')
  then show ?thesis using i by (simp add: k_def)
qed

end
