(* ===== verification/P9_Wire.thy ===== *)
theory P9_Wire
  imports P9_Roundtrip
begin

section \<open>Properties of packing and unpacking\<close>

text \<open>
  The properties of package \<open>p\<close>'s codec, each a short proof over the lemmas of the previous
  theories, with a witness at a concrete message where it has hypotheses.
\<close>

subsection \<open>Helper facts\<close>

text \<open>The \<open>case\<close>s of \<open>Unpack\<close> leave the header fields and the packet alone.\<close>

definition same_hdr :: "Fcall \<Rightarrow> body_result \<Rightarrow> bool" where
  "same_hdr fc r \<longleftrightarrow> (case r of Some (Inr (fc', q)) \<Rightarrow>
     fc_Size fc' = fc_Size fc \<and> fc_Type fc' = fc_Type fc \<and> fc_Tag fc' = fc_Tag fc
     \<and> fc_Pkt fc' = fc_Pkt fc | _ \<Rightarrow> True)"

lemma same_hdr_None [simp]: "same_hdr fc None" "same_hdr fc (Some (Inl e))"
  by (simp_all add: same_hdr_def)

lemma same_hdr_bind: "(\<And>x. same_hdr fc (f x)) \<Longrightarrow> same_hdr fc (Option.bind m f)"
  by (cases m) simp_all

lemma same_hdr_nilchk: "(\<And>x. same_hdr fc (f x)) \<Longrightarrow> same_hdr fc (nilchk q f)"
  by (cases q) (simp_all add: szerror_def)

lemma same_hdr_return:
  "fc_Size fc' = fc_Size fc \<Longrightarrow> fc_Type fc' = fc_Type fc \<Longrightarrow> fc_Tag fc' = fc_Tag fc \<Longrightarrow>
   fc_Pkt fc' = fc_Pkt fc \<Longrightarrow> same_hdr fc (Some (Inr (fc', q)))"
  by (simp add: same_hdr_def)

lemma same_hdr_if: "same_hdr fc a \<Longrightarrow> same_hdr fc b \<Longrightarrow> same_hdr fc (if c then a else b)"
  by simp

lemmas same_hdr_intros = same_hdr_if same_hdr_bind same_hdr_nilchk same_hdr_return same_hdr_None

lemma unpack_body_same_hdr: "same_hdr fc (unpack_body fc p dotu)"
  unfolding unpack_body_def unpack_version_def unpack_Tauth_def unpack_qid_def
      unpack_Tflush_def unpack_Tattach_def unpack_Rerror_def unpack_Twalk_def unpack_Rwalk_def
      unpack_Topen_def unpack_open_def unpack_Tcreate_def unpack_Tread_def unpack_Rread_def
      unpack_Twrite_def unpack_Rwrite_def unpack_fid_def unpack_Rstat_def unpack_Twstat_def
      Let_def szerror_def case_prod_beta
  by (intro same_hdr_intros) simp_all

lemma unpack_body_keeps:
  assumes "unpack_body fc p dotu = Some (Inr (fc', q))"
  shows "fc_Size fc' = fc_Size fc \<and> fc_Type fc' = fc_Type fc \<and> fc_Tag fc' = fc_Tag fc
    \<and> fc_Pkt fc' = fc_Pkt fc"
  using unpack_body_same_hdr [of fc p dotu] assms by (simp add: same_hdr_def)

lemma Unpack_prefix_stable:
  assumes u: "Unpack buf dotu = Some (Inr (fc, n))"
  shows "Unpack (take n buf @ r) dotu = Some (Inr (fc, n))"
  using u
proof (rule Unpack_successE)
  fix sz t tag p q fc0
  assume f: "7 \<le> n" "n \<le> length buf" "unat sz = n" "Tversion \<le> t" "t < Tlast"
      "(if dotu then minFcsize else minFcusize) ! unat (t - Tversion) \<le> n"
      "fc0 = zero_Fcall\<lparr>fc_Fid := NOFID, fc_Afid := NOFID, fc_Newfid := NOFID, fc_Size := sz,
         fc_Type := t, fc_Tag := tag, fc_Pkt := take n buf\<rparr>"
    and h: "gint32 buf = Some (sz, t # p)" "gint16 p = Some (tag, drop 7 buf)"
    and b: "unpack_body fc0 (take (n - 7) (drop 7 buf)) dotu = Some (Inr (fc, q))"
      "q = None \<or> q = Some []"
  have "take n buf = take 7 buf @ take (n - 7) (drop 7 buf)"
    using f(1,2) by (metis le_add_diff_inverse take_add)
  then have g: "gint32 (take n buf @ r) = Some (sz, t # take 2 p @ take (n - 7) (drop 7 buf) @ r)"
      "gint16 (take 2 p @ take (n - 7) (drop 7 buf) @ r) = Some (tag, take (n - 7) (drop 7 buf) @ r)"
    using Unpack_prefix [of buf] f(1,2) h by auto
  have s: "\<not> sz < 7" "unat (sz - 7) = n - 7"
    using f(1,3) by (auto simp: word_less_nat_alt unat_sub word_le_nat_alt)
  have "\<not> t < Tversion" "\<not> Tlast \<le> t" using f(4,5) by auto
  then show ?thesis
    using f(1,2,3,6,7) g s b by (auto simp: Unpack_def Let_def go_slice_def linorder_not_less)
qed

lemma frame_packed:
  assumes "msg_ok m dotu" and "pack_msg m fc dotu = Some (Inr fc1)"
  shows "fc_Pkt fc1 = frame m dotu NOTAG \<and> fc_Buf fc1 = fc_Pkt fc1 @ drop (7 + length (body m dotu)) (fc_Buf fc)"
proof -
  have "\<not> length (fc_Buf fc) < 7 + length (body m dotu)"
    using packs_pack_msg [OF assms(1), of fc] assms(2) by (auto simp: packs_def)
  then show ?thesis
    using pack_msg_frame [OF assms(1), of fc] assms(2) by (auto simp: linorder_not_less)
qed

lemma SetTag_frame:
  assumes "msg_ok m dotu" and "pack_msg m fc dotu = Some (Inr fc1)"
  shows "\<exists>fc2. SetTag fc1 tag = Some fc2 \<and> fc_Pkt fc2 = frame m dotu tag"
  using frame_packed [OF assms] SetTag_packed [of fc1 "length (body m dotu)" "mtype m" NOTAG "body m dotu"]
  by (auto simp: frame_def)

subsection \<open>Round trip and refinement\<close>

text \<open>C1: A message packed by the code's packing functions, given a tag by SetTag and sent, is
  unpacked by the receiver to the same message with that tag, whatever follows it in the receive
  buffer; the number of bytes used is the length of the packet.  Without 9P2000.u the dialect's
  extra fields are dropped, and the one message this fails for is Rwstat in plain 9P2000.\<close>

theorem pack_unpack_roundtrip:
  assumes "msg_ok m dotu" and "m = MRwstat \<Longrightarrow> dotu"
    and "pack_msg m fc dotu = Some (Inr fc1)" and "SetTag fc1 tag = Some fc2"
  shows "\<exists>fc3. Unpack (fc_Pkt fc2 @ rest) dotu = Some (Inr (fc3, length (fc_Pkt fc2)))
    \<and> read_msg fc3 = Some (wire_msg m dotu) \<and> fc_Tag fc3 = tag"
  using SetTag_frame [OF assms(1,3), of tag] Unpack_msg [OF assms(1,2), of tag rest] assms(4)
  by auto

theorem pack_unpack_roundtrip_witness:
  "\<exists>fc1 fc2 fc3. pack_msg (MTwalk 1 2 [''usr'', ''glenda'']) (NewFcall 64) False = Some (Inr fc1)
    \<and> SetTag fc1 5 = Some fc2
    \<and> Unpack (fc_Pkt fc2 @ [9, 9]) False = Some (Inr (fc3, length (fc_Pkt fc2)))
    \<and> read_msg fc3 = Some (MTwalk 1 2 [''usr'', ''glenda'']) \<and> fc_Tag fc3 = 5"
proof -
  let ?m = "MTwalk 1 2 [''usr'', ''glenda'']"
  have ok: "msg_ok ?m False" by (simp add: msg_ok_def str_ok_def)
  obtain fc1 where 1: "pack_msg ?m (NewFcall 64) False = Some (Inr fc1)"
    using pack_msg_frame [OF ok, of "NewFcall 64"] by (auto simp: NewFcall_def)
  obtain fc2 where 2: "SetTag fc1 5 = Some fc2"
    using SetTag_frame [OF ok 1, of 5] by auto
  show ?thesis
    using pack_unpack_roundtrip [OF ok _ 1 2, of "[9, 9]"] 1 2 by auto
qed

text \<open>C2: Every packing function implements the wire format: when the buffer of the Fcall is too
  small for the message it returns the error "buffer too small" and changes nothing, otherwise the
  packet is exactly the message's frame with tag NOTAG, it is a prefix of the buffer, the rest of the
  buffer is untouched, and the Size, Type and Tag fields describe it.\<close>

theorem pack_refines_frame:
  assumes "msg_ok m dotu"
  shows "pack_msg m fc dotu =
      (if length (fc_Buf fc) < length (frame m dotu NOTAG)
       then Some (Inl (Error ''buffer too small'' EINVAL))
       else Some (Inr (projr (the (pack_msg m fc dotu)))))
    \<and> (length (frame m dotu NOTAG) \<le> length (fc_Buf fc) \<longrightarrow>
       (let fc' = projr (the (pack_msg m fc dotu)) in
          fc_Pkt fc' = frame m dotu NOTAG
        \<and> fc_Buf fc' = frame m dotu NOTAG @ drop (length (frame m dotu NOTAG)) (fc_Buf fc)
        \<and> unat (fc_Size fc') = length (frame m dotu NOTAG)
        \<and> fc_Type fc' = mtype m \<and> fc_Tag fc' = NOTAG))"
proof (cases "length (fc_Buf fc) < 7 + length (body m dotu)")
  case True
  then show ?thesis using packs_pack_msg [OF assms, of fc] by (simp add: packs_def frame_def)
next
  case False
  then obtain fc' where p: "pack_msg m fc dotu = Some (Inr fc')"
      and f: "fc_Pkt fc' = frame m dotu NOTAG"
        "fc_Buf fc' = frame m dotu NOTAG @ drop (7 + length (body m dotu)) (fc_Buf fc)"
        "unat (fc_Size fc') = length (frame m dotu NOTAG)" "fc_Type fc' = mtype m" "fc_Tag fc' = NOTAG"
    using pack_msg_frame [OF assms, of fc] by auto
  have l: "length (frame m dotu NOTAG) = 7 + length (body m dotu)" by (simp add: frame_def)
  show ?thesis
    using False by (simp add: p f l Let_def)
qed

theorem pack_refines_frame_witness:
  "fc_Pkt (projr (the (pack_msg (MTclunk 7) (NewFcall 16) True))) = [11, 0, 0, 0, 120, 255, 255, 7, 0, 0, 0]"
proof -
  have ok: "msg_ok (MTclunk 7) True" by (simp add: msg_ok_def)
  have f: "frame (MTclunk 7) True NOTAG = [11, 0, 0, 0, 120, 255, 255, 7, 0, 0, 0]"
    by (simp add: frame_def hdr_def le32_def le16_def Tclunk_def NOTAG_def)
  have "length (frame (MTclunk 7) True NOTAG) \<le> length (fc_Buf (NewFcall 16))"
    by (simp add: f NewFcall_def)
  then show ?thesis
    using pack_refines_frame [OF ok, of "NewFcall 16"] by (simp only: Let_def f)
qed

subsection \<open>Framing\<close>

text \<open>C3: A successful Unpack stays within the buffer and depends only on the message itself: the
  reported size is the message's size field, lies between 7 and the length of the buffer, the packet
  is that prefix of the buffer, the type is a known one, and any other buffer that starts with the
  same packet unpacks to the same Fcall.  Messages of a stream can therefore be cut off one by one.\<close>

theorem Unpack_framing:
  assumes "Unpack buf dotu = Some (Inr (fc, n))"
  shows "7 \<le> n \<and> n \<le> length buf \<and> unat (fc_Size fc) = n \<and> fc_Pkt fc = take n buf
    \<and> Tversion \<le> fc_Type fc \<and> fc_Type fc < Tlast
    \<and> (\<forall>rest. Unpack (take n buf @ rest) dotu = Some (Inr (fc, n)))"
  using assms
proof (rule Unpack_successE)
  fix sz t tag p q fc0
  assume f: "7 \<le> n" "n \<le> length buf" "unat sz = n" "Tversion \<le> t" "t < Tlast"
      "fc0 = zero_Fcall\<lparr>fc_Fid := NOFID, fc_Afid := NOFID, fc_Newfid := NOFID, fc_Size := sz,
         fc_Type := t, fc_Tag := tag, fc_Pkt := take n buf\<rparr>"
    and b: "unpack_body fc0 (take (n - 7) (drop 7 buf)) dotu = Some (Inr (fc, q))"
  show ?thesis
    using f unpack_body_keeps [OF b] Unpack_prefix_stable [OF assms] by simp
qed

theorem Unpack_framing_witness:
  "\<exists>fc. Unpack [11, 0, 0, 0, 120, 1, 0, 7, 0, 0, 0, 42] True = Some (Inr (fc, 11))
    \<and> Unpack [11, 0, 0, 0, 120, 1, 0, 7, 0, 0, 0, 5, 6] True = Some (Inr (fc, 11))"
proof -
  obtain fc where u: "Unpack [11, 0, 0, 0, 120, 1, 0, 7, 0, 0, 0, 42] True = Some (Inr (fc, 11))"
    using Unpack_msg [of "MTclunk 7" True 1 "[42]"]
    by (auto simp: msg_ok_def frame_def hdr_def le32_def le16_def Tclunk_def)
  show ?thesis
    using u Unpack_framing [OF u] by (intro exI [of _ fc]) (auto dest: spec [of _ "[5, 6]"])
qed

subsection \<open>Directory entries\<close>

text \<open>C6: PackDir writes a directory entry that UnpackDir reads back: every field except the size,
  which is recomputed, and except the 9P2000.u fields, which plain 9P2000 does not carry; the entry
  occupies exactly statsz bytes and nothing behind it is changed.\<close>

theorem PackDir_UnpackDir:
  assumes "dir_strs_ok d dotu" and "statsz d dotu \<le> length buf"
  shows "\<exists>out. PackDir d buf dotu = Some (statsz d dotu, out) \<and> length out = length buf
    \<and> drop (statsz d dotu) out = drop (statsz d dotu) buf
    \<and> UnpackDir out dotu = Some (Inr (wire_dir d dotu))"
  using assms by (simp add: PackDir_enc UnpackDir_enc)

theorem PackDir_UnpackDir_witness:
  "\<exists>out. PackDir (zero_Dir\<lparr>dir_Name := ''glenda'', dir_Mode := 420\<rparr>) (replicate 80 7) True = Some (69, out)
    \<and> UnpackDir out True = Some (Inr (zero_Dir\<lparr>dir_Size := 67, dir_Name := ''glenda'', dir_Mode := 420\<rparr>))"
proof -
  let ?d = "zero_Dir\<lparr>dir_Name := ''glenda'', dir_Mode := 420\<rparr>"
  have s: "statsz ?d True = 69" by (simp add: statsz_def zero_Dir_def)
  have w: "wire_dir ?d True = zero_Dir\<lparr>dir_Size := 67, dir_Name := ''glenda'', dir_Mode := 420\<rparr>"
    by (simp add: wire_dir_def statsz_def zero_Dir_def)
  have "dir_strs_ok ?d True" by (simp add: dir_strs_ok_def str_ok_def zero_Dir_def)
  then show ?thesis
    using PackDir_UnpackDir [of ?d True "replicate 80 7"] unfolding s w by auto
qed

text \<open>C9: PackDir never panics, whatever the strings and the buffer are: with room for statsz bytes it
  returns that number, otherwise it returns 0, and the length of the buffer does not change.\<close>

theorem PackDir_never_panics:
  "\<exists>n out. PackDir d buf dotu = Some (n, out) \<and> length out = length buf
    \<and> n = (if length buf < statsz d dotu then 0 else statsz d dotu)"
  using PackDir_total [of d buf dotu] by (auto simp: not_less)

subsection \<open>The read reply\<close>

text \<open>C5: The server's way to answer a read: InitRread for the count that was asked for, the data
  copied into the Data slice, SetRreadCount for the number of bytes there are.  For any number n up to
  the count and up to the size of the source the packet is the frame of an Rread that carries the first
  n bytes, and Unpack reads back exactly these.\<close>

theorem Rread_in_place:
  assumes "11 + unat count < 2 ^ 32" "11 + unat count \<le> length (fc_Buf fc)"
    and "unat n \<le> unat count" "unat n \<le> length src"
  shows "\<exists>fc1 fc2. InitRread fc count = Some (Inr fc1) \<and> SetRreadCount (copy_Data fc1 src) n = Some fc2
    \<and> fc_Pkt fc2 = frame (MRread (take (unat n) src)) dotu NOTAG
    \<and> (\<exists>fc3. Unpack (fc_Pkt fc2) dotu = Some (Inr (fc3, 11 + unat n)) \<and> fc_Data fc3 = take (unat n) src)"
proof -
  let ?m = "MRread (take (unat n) src)"
  have l: "length (take (unat n) src) = unat n" using assms(4) by simp
  have f: "frame ?m dotu NOTAG = hdr (4 + unat n) Rread NOTAG @ le32 n @ take (unat n) src"
    using assms(4) by (simp add: frame_def min_absorb2)
  have "msg_ok ?m dotu" using assms l by (simp add: msg_ok_def)
  then obtain fc3 where "Unpack (frame ?m dotu NOTAG) dotu = Some (Inr (fc3, length (frame ?m dotu NOTAG)))"
      and r: "read_msg fc3 = Some ?m"
    using Unpack_msg [of ?m dotu NOTAG "[]"] by auto
  moreover have "fc_Data fc3 = take (unat n) src"
    using r by (auto simp: read_msg_def Let_def split: if_splits)
  moreover have "length (frame ?m dotu NOTAG) = 11 + unat n" using l by (simp add: f)
  ultimately show ?thesis
    using SetRreadCount_filled [OF assms] unfolding f [symmetric] by auto
qed

theorem Rread_in_place_witness:
  "\<exists>fc1 fc2. InitRread (NewFcall 64) 8 = Some (Inr fc1) \<and> SetRreadCount (copy_Data fc1 [1, 2, 3]) 3 = Some fc2
    \<and> fc_Pkt fc2 = frame (MRread [1, 2, 3]) True NOTAG"
  using Rread_in_place [of 8 "NewFcall 64" 3 "[1, 2, 3]" True] by (auto simp: NewFcall_def)

end
