(* ===== verification/P9_Limits.thy ===== *)
theory P9_Limits
  imports P9_Roundtrip
begin

section \<open>Edges of the wire format\<close>

text \<open>
  Directory entries, the read reply that is filled in place, and the inputs on which \<open>Unpack\<close> does
  something else than accept or reject: short bodies that make it panic and malformed messages it
  accepts.
\<close>

subsection \<open>Helper facts\<close>

text \<open>\<open>fixed_part t\<close>: the number of bytes that the case of type \<open>t\<close> reads before its first check.\<close>

definition fixed_part :: "u8 \<Rightarrow> nat" where
  "fixed_part t =
    (if t = Tversion \<or> t = Rversion then 4 + 2 else if t = Tauth then 4 + 2
     else if t = Rauth \<or> t = Rattach then 13 + 0 else if t = Tflush then 2 + 0
     else if t = Tattach then 4 + (4 + 2) else if t = Rerror then 2
     else if t = Twalk then 4 + (4 + (2 + 0)) else if t = Rwalk then 2 + 0
     else if t = Topen then 4 + (1 + 0) else if t = Ropen \<or> t = Rcreate then 13 + (4 + 0)
     else if t = Tcreate then 4 + 2 else if t = Tread then 4 + (8 + (4 + 0))
     else if t = Rread then 4 + 0 else if t = Twrite then 4 + (8 + (4 + 0))
     else if t = Rwrite then 4 + 0 else if t = Tclunk \<or> t = Tremove \<or> t = Tstat then 4 + 0
     else if t = Rstat then 2 + 43 else if t = Twstat then 4 + (2 + 43) else 0)"

lemma gint_short:
  "length b < 1 \<Longrightarrow> gint8 b = None" "length b < 2 \<Longrightarrow> gint16 b = None"
  "length b < 4 \<Longrightarrow> gint32 b = None" "length b < 8 \<Longrightarrow> gint64 b = None"
  "length b < 13 \<Longrightarrow> gqid b = None" "length b < 2 \<Longrightarrow> gstr (Some b) = None"
  using i8.get_short [of b] i16.get_short [of b] i32.get_short [of b] i64.get_short [of b]
    qid.get_short [of b] by (simp_all add: gstr_def)

lemma gint_long:
  "1 \<le> length b \<Longrightarrow> \<exists>x. gint8 b = Some (x, drop 1 b)"
  "2 \<le> length b \<Longrightarrow> \<exists>x. gint16 b = Some (x, drop 2 b)"
  "4 \<le> length b \<Longrightarrow> \<exists>x. gint32 b = Some (x, drop 4 b)"
  "8 \<le> length b \<Longrightarrow> \<exists>x. gint64 b = Some (x, drop 8 b)"
  "13 \<le> length b \<Longrightarrow> \<exists>x. gqid b = Some (x, drop 13 b)"
  by (rule i8.get_total i16.get_total i32.get_total i64.get_total qid.get_total; simp)+

text \<open>A reader of a fixed-size field followed by something that needs \<open>m\<close> more bytes.\<close>

definition needs :: "nat \<Rightarrow> (bytes \<Rightarrow> 'a option) \<Rightarrow> bool" where
  "needs n f \<longleftrightarrow> (\<forall>b. length b < n \<longrightarrow> f b = None)"

lemma needs_bind:
  assumes "\<And>b. length b < w \<Longrightarrow> get b = None" "\<And>b. w \<le> length b \<Longrightarrow> \<exists>x. get b = Some (x, drop w b)"
    and "\<And>x. needs m (f x)"
  shows "needs (w + m) (\<lambda>b. Option.bind (get b) (\<lambda>(x, b). f x b))"
  unfolding needs_def
proof (intro allI impI)
  fix b :: bytes assume l: "length b < w + m"
  show "Option.bind (get b) (\<lambda>(x, b). f x b) = None"
  proof (cases "length b < w")
    case True then show ?thesis by (simp add: assms(1))
  next
    case False
    then obtain x where "get b = Some (x, drop w b)" using assms(2) [of b] by auto
    then show ?thesis using False l assms(3) [of x] by (simp add: needs_def)
  qed
qed

lemma needs_gint8: "(\<And>x. needs m (f x)) \<Longrightarrow>
    needs (1 + m) (\<lambda>b. Option.bind (gint8 b) (\<lambda>(x, b). f x b))"
  by (rule needs_bind [OF gint_short(1) gint_long(1)])

lemma needs_gint16: "(\<And>x. needs m (f x)) \<Longrightarrow>
    needs (2 + m) (\<lambda>b. Option.bind (gint16 b) (\<lambda>(x, b). f x b))"
  by (rule needs_bind [OF gint_short(2) gint_long(2)])

lemma needs_gint32: "(\<And>x. needs m (f x)) \<Longrightarrow>
    needs (4 + m) (\<lambda>b. Option.bind (gint32 b) (\<lambda>(x, b). f x b))"
  by (rule needs_bind [OF gint_short(3) gint_long(3)])

lemma needs_gint64: "(\<And>x. needs m (f x)) \<Longrightarrow>
    needs (8 + m) (\<lambda>b. Option.bind (gint64 b) (\<lambda>(x, b). f x b))"
  by (rule needs_bind [OF gint_short(4) gint_long(4)])

lemma needs_gqid: "(\<And>x. needs m (f x)) \<Longrightarrow>
    needs (13 + m) (\<lambda>b. Option.bind (gqid b) (\<lambda>(x, b). f x b))"
  by (rule needs_bind [OF gint_short(5) gint_long(5)])

lemmas needs_int = needs_gint8 needs_gint16 needs_gint32 needs_gint64 needs_gqid

lemma needs_0: "needs 0 f"
  by (simp add: needs_def)

lemma needs_gstr: "needs 2 (\<lambda>b. Option.bind (gstr (Some b)) f)"
  by (simp add: needs_def gint_short)

lemma needsD: "needs n f \<Longrightarrow> length b < n \<Longrightarrow> f b = None"
  by (simp add: needs_def)

lemma needs_gstat: "needs 43 (\<lambda>b. gstat b d dotu)"
proof -
  have "needs (2 + (2 + (4 + (13 + (4 + (4 + (4 + (8 + 2)))))))) (\<lambda>b. gstat b d dotu)"
    unfolding gstat_def by (simp only: Option.bind.simps) (intro needs_int needs_gstr)
  then show ?thesis by simp
qed

lemma needs_gstat_bind: "needs 43 (\<lambda>b. Option.bind (gstat b d dotu) f)"
  using needs_gstat by (simp add: needs_def)

text \<open>One lemma per shape of a case: the sum of the widths it reads.\<close>

lemma unpack_needs:
  "needs (4 + 2) (unpack_version fc)" "needs (4 + 2) (\<lambda>b. unpack_Tauth fc b dotu)"
  "needs (13 + 0) (unpack_qid fc)" "needs (2 + 0) (unpack_Tflush fc)"
  "needs (4 + (4 + 2)) (\<lambda>b. unpack_Tattach fc b dotu)" "needs 2 (\<lambda>b. unpack_Rerror fc b dotu)"
  "needs (4 + (4 + (2 + 0))) (unpack_Twalk fc)" "needs (2 + 0) (unpack_Rwalk fc)"
  "needs (4 + (1 + 0)) (unpack_Topen fc)" "needs (13 + (4 + 0)) (unpack_open fc)"
  "needs (4 + 2) (\<lambda>b. unpack_Tcreate fc b dotu)" "needs (4 + (8 + (4 + 0))) (unpack_Tread fc)"
  "needs (4 + 0) (unpack_Rread fc)" "needs (4 + (8 + (4 + 0))) (unpack_Twrite fc)"
  "needs (4 + 0) (unpack_Rwrite fc)" "needs (4 + 0) (unpack_fid fc)"
  "needs (2 + 43) (\<lambda>b. unpack_Rstat fc b dotu)" "needs (4 + (2 + 43)) (\<lambda>b. unpack_Twstat fc b dotu)"
  unfolding unpack_version_def unpack_Tauth_def unpack_qid_def unpack_Tflush_def
    unpack_Tattach_def unpack_Rerror_def unpack_Twalk_def unpack_Rwalk_def unpack_Topen_def
    unpack_open_def unpack_Tcreate_def unpack_Tread_def unpack_Rread_def unpack_Twrite_def
    unpack_Rwrite_def unpack_fid_def unpack_Rstat_def unpack_Twstat_def Let_def
  by (intro needs_int needs_gstr needs_gstat_bind needs_0)+

lemma needs_if: "needs m f \<Longrightarrow> needs n g \<Longrightarrow> needs (if c then m else n) (\<lambda>b. if c then f b else g b)"
  by simp

lemma unpack_body_short:
  assumes "length b < fixed_part (fc_Type fc)"
  shows "unpack_body fc b dotu = None"
proof (rule needsD [OF _ assms])
  show "needs (fixed_part (fc_Type fc)) (\<lambda>b. unpack_body fc b dotu)"
    unfolding unpack_body_def fixed_part_def Let_def by (intro needs_if unpack_needs needs_0)
qed

subsection \<open>Short bodies\<close>

text \<open>C4: The minimum sizes that Unpack compares with the size of the message do not count its
  7-byte header, so they do not protect the readers behind it: a message of a known type whose size
  passes the check but whose body is shorter than the part its type reads unconditionally makes
  Unpack panic with an index out of range, whatever the bytes are.\<close>

theorem Unpack_short_body_panics:
  assumes "Tversion \<le> t" "t < Tlast" "length b < fixed_part t"
    and "(if dotu then minFcsize else minFcusize) ! unat (t - Tversion) \<le> 7 + length b"
  shows "Unpack (hdr (length b) t tag @ b @ rest) dotu = None"
proof -
  have "7 + length b < 2 ^ 32" using assms(3) by (simp add: fixed_part_def split: if_splits)
  then show ?thesis
    using assms by (subst Unpack_frame) (simp_all add: start_fc_def unpack_body_short)
qed

theorem Unpack_short_body_panics_witness:
  "Unpack [7, 0, 0, 0, 120, 1, 0] True = None \<and> Unpack [13, 0, 0, 0, 110, 1, 0, 1, 2, 3, 4, 5, 6] True = None"
  using Unpack_short_body_panics [of Tclunk "[]" True 1 "[]"]
    Unpack_short_body_panics [of Twalk "[1, 2, 3, 4, 5, 6]" True 1 "[]"]
  by (simp add: fixed_part_def msg_type_defs minFcsize_def hdr_def le32_def le16_def)

text \<open>The second size table has no entry for Rwstat, so in plain 9P2000 the code compares the
  7 bytes of an Rwstat with the 20 of Tbread and rejects every Rwstat a server can send, although
  the packing function of the same package builds it.\<close>

lemma Rwstat_rejected_in_plain_9P: "Unpack (frame MRwstat False tag @ rest) False = Some szerror"
  by (simp add: frame_def hdr_def Unpack_def msg_type_defs minFcusize_def go_slice_def Let_def)

text \<open>A Twrite whose count field differs from the number of bytes that follow is accepted: the
  message unpacks to the given count and to a buffer of count bytes, filled from the bytes that are
  there and cut off or padded with zeros, and the size is that of the packet.\<close>

theorem Unpack_Twrite_any_count:
  assumes "23 + length b < 2 ^ 32" and "unat count \<noteq> length b"
  shows "\<exists>fc. Unpack (hdr (16 + length b) Twrite tag @ (le32 fid @ le64 off @ le32 count @ b) @ rest) dotu
      = Some (Inr (fc, 23 + length b))
    \<and> fc_Fid fc = fid \<and> fc_Offset fc = off \<and> fc_Count fc = count
    \<and> fc_Data fc = take (unat count) b @ replicate (unat count - length b) 0"
  using assms Unpack_frame [of "le32 fid @ le64 off @ le32 count @ b" Twrite dotu tag rest]
  by (simp add: unpack_body_def unpack_Twrite_def start_fc_def go_copy_def msg_type_defs
      minFcsize_def minFcusize_def Let_def)

theorem Unpack_Twrite_any_count_witness:
  "\<exists>fc. Unpack (hdr 18 Twrite 1 @ (le32 7 @ le64 0 @ le32 4 @ [65, 66]) @ []) True
      = Some (Inr (fc, 25)) \<and> fc_Count fc = 4 \<and> fc_Data fc = [65, 66, 0, 0]"
proof -
  have l: "length [65, 66 :: u8] = 2" by simp
  have d: "take (unat (4 :: u32)) [65, 66 :: u8] @ replicate (unat (4 :: u32) - 2) 0 = [65, 66, 0, 0]"
  proof -
    have "replicate (Suc (Suc 0)) (0 :: u8) = [0, 0]" by simp
    then show ?thesis by (simp add: numeral_2_eq_2 [symmetric])
  qed
  have s: "16 + 2 = (18 :: nat)" "23 + 2 = (25 :: nat)" by simp_all
  have "23 + 2 < (2 :: nat) ^ 32" "unat (4 :: u32) \<noteq> 2" by simp_all
  then show ?thesis
    using Unpack_Twrite_any_count [of "[65, 66]" 4 1 7 0 "[]" True] unfolding l d s by blast
qed

text \<open>The fixed fields of a stat, then a string that claims \<open>len\<close> bytes and has only \<open>b\<close>.\<close>

definition cut_stat :: "Dir \<Rightarrow> u16 \<Rightarrow> bytes \<Rightarrow> bytes" where
  "cut_stat d len b = le16 (dir_Size d) @ le16 (dir_Type d) @ le32 (dir_Dev d) @ enc_qid (dir_Qid d)
     @ le32 (dir_Mode d) @ le32 (dir_Atime d) @ le32 (dir_Mtime d) @ le64 (dir_Length d) @ le16 len @ b"

text \<open>A Twstat whose stat is cut off within its first string is accepted with an empty name,
  while the same stat in an Rstat is rejected with "invalid size": only the latter checks for the nil
  slice that gstat returns.\<close>

lemma Unpack_truncated_stat:
  assumes "length b < unat len"
  shows "(\<exists>fc. Unpack (hdr (49 + length b) Twstat tag @ (le32 fid @ le16 n @ cut_stat d len b) @ rest) dotu
      = Some (Inr (fc, 56 + length b))
      \<and> fc_Fid fc = fid \<and> dir_Mode (fc_Dir fc) = dir_Mode d \<and> dir_Name (fc_Dir fc) = '''')
    \<and> Unpack (hdr (45 + length b) Rstat tag @ (le16 n @ cut_stat d len b) @ rest) dotu = Some szerror"
proof -
  have "unat len < 65536" using unsigned_less [of len, where ?'a = nat] by simp
  then have l: "length b < 65536" using assms by simp
  have g: "\<exists>d'. gstat (cut_stat d len b) d0 dotu = Some (d', None) \<and> dir_Mode d' = dir_Mode d
      \<and> dir_Name d' = ''''" for d0
    using assms by (simp add: gstat_def gstr_def cut_stat_def)
  have s: "length (cut_stat d len b) = 43 + length b" by (simp add: cut_stat_def)
  obtain d' where d': "gstat (cut_stat d len b) zero_Dir dotu = Some (d', None)"
      "dir_Mode d' = dir_Mode d" "dir_Name d' = ''''"
    using g [of zero_Dir] by auto
  have z: "fc_Dir zero_Fcall = zero_Dir" by (simp add: zero_Fcall_def)
  show ?thesis
    using Unpack_frame [of "le32 fid @ le16 n @ cut_stat d len b" Twstat dotu tag rest]
      Unpack_frame [of "le16 n @ cut_stat d len b" Rstat dotu tag rest] l d'
    by (simp add: unpack_body_def unpack_Twstat_def unpack_Rstat_def start_fc_def s z
        msg_type_defs minFcsize_def minFcusize_def Let_def szerror_def)
qed

theorem Unpack_truncated_stat_witness:
  "\<exists>fc. Unpack (hdr 49 Twstat 1 @ (le32 7 @ le16 0 @ cut_stat zero_Dir 5 []) @ []) True
       = Some (Inr (fc, 56)) \<and> dir_Name (fc_Dir fc) = ''''"
  using Unpack_truncated_stat [of "[]" 5 1 7 0 zero_Dir "[]" True] by auto

lemma InitRread_None:
  assumes "2 ^ 32 - 4 \<le> unat count" and "10 \<le> length (fc_Buf fc)"
  shows "InitRread fc count = None"
proof -
  have l: "unat count < 2 ^ 32" using unsigned_less [of count, where ?'a = nat] by simp
  have "unat (count + 4) = (unat count + 4) mod 2 ^ 32" by (simp add: unat_word_ariths)
  also have "\<dots> = (unat count + 4 - 2 ^ 32) mod 2 ^ 32"
    using assms(1) by (intro le_mod_geq) simp
  also have "\<dots> \<le> 3"
    using l by (intro order_trans [OF mod_less_eq_dividend]) simp
  finally have u: "unat (count + 4) \<le> 3" .
  have "\<not> length (fc_Buf fc) < unat (count + 4) + 7" using assms(2) u by simp
  then show ?thesis
    using u by (simp add: InitRread_def packThen_def packCommon_eq go_slice_def add.commute [of 4] Let_def)
qed

text \<open>C7: InitRread adds 4 to the count in 32 bits.  For the four largest counts the sum wraps, the size
  check passes with any buffer of 10 bytes, and the slice expression for Data then has its bounds the
  wrong way round: the code panics instead of returning "buffer too small".\<close>

theorem InitRread_wraps:
  assumes "2 ^ 32 - 4 \<le> unat count" and "10 \<le> length (fc_Buf fc)"
  shows "InitRread fc count = None"
  using assms by (rule InitRread_None)

theorem InitRread_wraps_witness: "InitRread (NewFcall 64) 0xFFFFFFFF = None"
  using InitRread_wraps [of "0xFFFFFFFF" "NewFcall 64"] by (simp add: NewFcall_def)

end
