(* ===== verification/P9_Fmt.thy ===== *)
theory P9_Fmt
  imports P9_Types
begin

section \<open>Text forms of the protocol's values (p/fmt.go, ParseNetName of p/p9.go) and p/osusers.go\<close>

text \<open>
  What the server's and the client's debug logs print, the parser of network addresses, and the table
  of users and groups known by number only.
\<close>

subsection \<open>Printing\<close>

text \<open>\<open>if cond { ret += "c" }\<close>\<close>

definition flag :: "bool \<Rightarrow> char \<Rightarrow> string" where
  "flag b c = (if b then [c] else [])"

definition perm_flags :: "u32 \<Rightarrow> string" where
  "perm_flags perm =
     flag (perm AND DMDIR \<noteq> 0) CHR ''d'' @ flag (perm AND DMAPPEND \<noteq> 0) CHR ''a''
     @ flag (perm AND DMAUTH \<noteq> 0) CHR ''A'' @ flag (perm AND DMEXCL \<noteq> 0) CHR ''l''
     @ flag (perm AND DMTMP \<noteq> 0) CHR ''t'' @ flag (perm AND DMDEVICE \<noteq> 0) CHR ''D''
     @ flag (perm AND DMSOCKET \<noteq> 0) CHR ''S'' @ flag (perm AND DMNAMEDPIPE \<noteq> 0) CHR ''P''
     @ flag (perm AND DMSYMLINK \<noteq> 0) CHR ''L''"

definition permToString :: "u32 \<Rightarrow> string" where
  "permToString perm = perm_flags perm @ fmt_o (unat (perm AND 0x1FF))"

definition Qid_flags :: "Qid \<Rightarrow> string" where
  "Qid_flags q =
     flag (qid_Type q AND QTDIR \<noteq> 0) CHR ''d'' @ flag (qid_Type q AND QTAPPEND \<noteq> 0) CHR ''a''
     @ flag (qid_Type q AND QTAUTH \<noteq> 0) CHR ''A'' @ flag (qid_Type q AND QTEXCL \<noteq> 0) CHR ''l''
     @ flag (qid_Type q AND QTTMP \<noteq> 0) CHR ''t'' @ flag (qid_Type q AND QTSYMLINK \<noteq> 0) CHR ''L''"

definition Qid_String :: "Qid \<Rightarrow> string" where
  "Qid_String q = ''('' @ fmt_x (unat (qid_Path q)) @ '' '' @ fmt_x (unat (qid_Version q)) @ '' ''
     @ [char_of (39 :: nat)] @ Qid_flags q @ [char_of (39 :: nat)] @ '')''"

text \<open>A string in single quotes; \<open>word_d\<close> is \<open>%d\<close> of an unsigned word.\<close>

definition quoted :: "string \<Rightarrow> string" where
  "quoted s = [char_of (39 :: nat)] @ s @ [char_of (39 :: nat)]"

definition word_d :: "'a::len word \<Rightarrow> string" where
  "word_d w = fmt_d (unat w)"

definition Dir_String :: "Dir \<Rightarrow> string" where
  "Dir_String d = quoted (dir_Name d) @ '' '' @ quoted (dir_Uid d) @ '' '' @ quoted (dir_Gid d)
     @ '' '' @ quoted (dir_Muid d) @ '' q '' @ Qid_String (dir_Qid d) @ '' m '' @ permToString (dir_Mode d)
     @ '' at '' @ word_d (dir_Atime d) @ '' mt '' @ word_d (dir_Mtime d) @ '' l '' @ word_d (dir_Length d)
     @ '' t '' @ word_d (dir_Type d) @ '' d '' @ word_d (dir_Dev d) @ '' ext '' @ dir_Ext d"

text \<open>The loop over the names of a \<open>Twalk\<close>, from index \<open>i\<close>.\<close>

fun names_String :: "nat \<Rightarrow> string list \<Rightarrow> string" where
  "names_String i [] = ''''"
| "names_String i (w # ws) = fmt_d i @ '':'' @ quoted w @ '' '' @ names_String (Suc i) ws"

definition Fcall_String :: "Fcall \<Rightarrow> string" where
  "Fcall_String fc = (let t = fc_Type fc; tag = '' tag '' @ word_d (fc_Tag fc); fid = '' fid '' @ word_d (fc_Fid fc) in
     if t = Tversion then
       ''Tversion'' @ tag @ '' msize '' @ word_d (fc_Msize fc) @ '' version '' @ quoted (fc_Version fc)
     else if t = Rversion then
       ''Rversion'' @ tag @ '' msize '' @ word_d (fc_Msize fc) @ '' version '' @ quoted (fc_Version fc)
     else if t = Tauth then
       ''Tauth'' @ tag @ '' afid '' @ word_d (fc_Afid fc) @ '' uname '' @ quoted (fc_Uname fc)
       @ '' nuname '' @ word_d (fc_Unamenum fc) @ '' aname '' @ quoted (fc_Aname fc)
     else if t = Rauth then ''Rauth'' @ tag @ '' aqid '' @ Qid_String (fc_Qid fc)
     else if t = Rattach then ''Rattach'' @ tag @ '' aqid '' @ Qid_String (fc_Qid fc)
     else if t = Tattach then
       ''Tattach'' @ tag @ fid @ '' afid '' @ word_d (fc_Afid fc) @ '' uname '' @ quoted (fc_Uname fc)
       @ '' nuname '' @ word_d (fc_Unamenum fc) @ '' aname '' @ quoted (fc_Aname fc)
     else if t = Tflush then ''Tflush'' @ tag @ '' oldtag '' @ word_d (fc_Oldtag fc)
     else if t = Rerror then
       ''Rerror'' @ tag @ '' ename '' @ quoted (fc_Error fc) @ '' ecode '' @ word_d (fc_Errornum fc)
     else if t = Twalk then
       ''Twalk'' @ tag @ fid @ '' newfid '' @ word_d (fc_Newfid fc) @ '' '' @ names_String 0 (fc_Wname fc)
     else if t = Rwalk then
       ''Rwalk'' @ tag @ '' '' @ concat (map (\<lambda>q. Qid_String q @ '' '') (fc_Wqid fc))
     else if t = Topen then ''Topen'' @ tag @ fid @ '' mode '' @ fmt_x (unat (fc_Mode fc))
     else if t = Ropen then
       ''Ropen'' @ tag @ '' qid '' @ Qid_String (fc_Qid fc) @ '' iounit '' @ word_d (fc_Iounit fc)
     else if t = Rcreate then
       ''Rcreate'' @ tag @ '' qid '' @ Qid_String (fc_Qid fc) @ '' iounit '' @ word_d (fc_Iounit fc)
     else if t = Tcreate then
       ''Tcreate'' @ tag @ fid @ '' name '' @ quoted (fc_Name fc) @ '' perm '' @ permToString (fc_Perm fc)
       @ '' mode '' @ fmt_x (unat (fc_Mode fc)) @ '' ''
     else if t = Tread then
       ''Tread'' @ tag @ fid @ '' offset '' @ word_d (fc_Offset fc) @ '' count '' @ word_d (fc_Count fc)
     else if t = Rread then ''Rread'' @ tag @ '' count '' @ word_d (fc_Count fc)
     else if t = Twrite then
       ''Twrite'' @ tag @ fid @ '' offset '' @ word_d (fc_Offset fc) @ '' count '' @ word_d (fc_Count fc)
     else if t = Rwrite then ''Rwrite'' @ tag @ '' count '' @ word_d (fc_Count fc)
     else if t = Tclunk then ''Tclunk'' @ tag @ fid
     else if t = Rclunk then ''Rclunk'' @ tag
     else if t = Tremove then ''Tremove'' @ tag @ fid
     else if t = Tstat then ''Tstat'' @ tag @ fid
     else if t = Rstat then ''Rstat'' @ tag @ '' st ('' @ Dir_String (fc_Dir fc) @ '')''
     else if t = Twstat then ''Twstat'' @ tag @ fid @ '' st ('' @ Dir_String (fc_Dir fc) @ '')''
     else if t = Rflush then ''Rflush'' @ tag
     else if t = Rremove then ''Rremove'' @ tag
     else if t = Rwstat then ''Rwstat'' @ tag
     else ''invalid call: '' @ word_d t)"

subsection \<open>Network names\<close>

text \<open>\<open>strings.Split(s, "!")\<close> and \<open>net.JoinHostPort\<close> of the standard library.\<close>

fun split_at :: "char \<Rightarrow> string \<Rightarrow> string list" where
  "split_at c [] = [[]]"
| "split_at c (x # xs) = (if x = c then [] # split_at c xs
     else (case split_at c xs of [] \<Rightarrow> [[x]] | w # ws \<Rightarrow> (x # w) # ws))"

definition JoinHostPort :: "string \<Rightarrow> string \<Rightarrow> string" where
  "JoinHostPort host port = (if CHR '':'' \<in> set host then ''['' @ host @ '']:'' @ port else host @ '':'' @ port)"

text \<open>\<open>lookup\<close> is \<open>net.LookupPort\<close>, which asks the system's table of services.\<close>

definition ParseNetName ::
  "(string \<Rightarrow> string \<Rightarrow> perror + nat) \<Rightarrow> string \<Rightarrow> perror + string \<times> string" where
  "ParseNetName lookup addr = (let a = split_at CHR ''!'' addr; l = length a in
     if l < 1 \<or> l > 3 then Inl (Error ''unable to parse name'' EINVAL)
     else
       let (proto, netaddr) = (if l \<ge> 2 then (a ! 0, a ! 1) else ('''', a ! 0));
           proto = (if proto = '''' then ''tcp'' else proto)
       in if l = 3 then
            (case lookup proto (a ! 2) of
               Inl e \<Rightarrow> Inl e
             | Inr port \<Rightarrow> Inr (proto, JoinHostPort netaddr (fmt_d port)))
          else Inr (proto, netaddr))"

subsection \<open>Users and groups by number (p/osusers.go)\<close>

text \<open>
  The two maps of \<open>OsUsers\<close>, created on first use; a user or a group is its number.  The methods
  that would need names return empty values.
\<close>

record osUsers =
  users :: "int \<Rightarrow> int option"
  groups :: "int \<Rightarrow> int option"

definition initOsusers :: osUsers where
  "initOsusers = \<lparr>users = Map.empty, groups = Map.empty\<rparr>"

definition once_osusers :: "osUsers option \<Rightarrow> osUsers" where
  "once_osusers up = (case up of None \<Rightarrow> initOsusers | Some up \<Rightarrow> up)"

definition Uid2User :: "osUsers option \<Rightarrow> int \<Rightarrow> int \<times> osUsers" where
  "Uid2User up uid = (let up = once_osusers up in
     case users up uid of Some user \<Rightarrow> (user, up) | None \<Rightarrow> (uid, up\<lparr>users := (users up)(uid \<mapsto> uid)\<rparr>))"

definition Gid2Group :: "osUsers option \<Rightarrow> int \<Rightarrow> int \<times> osUsers" where
  "Gid2Group up gid = (let up = once_osusers up in
     case groups up gid of Some g \<Rightarrow> (g, up) | None \<Rightarrow> (gid, up\<lparr>groups := (groups up)(gid \<mapsto> gid)\<rparr>))"

definition Uname2User :: "osUsers option \<Rightarrow> string \<Rightarrow> int option" where
  "Uname2User up uname = None"

definition Gname2Group :: "osUsers option \<Rightarrow> string \<Rightarrow> int option" where
  "Gname2Group up gname = None"

subsection \<open>Helper facts\<close>

lemma digits_set: "2 \<le> b \<Longrightarrow> set (digits b n) \<subseteq> digit ` {0..<b}"
proof (induction b n rule: digits.induct)
  case (1 b n)
  have "digits b n = (if b < 2 \<or> n < b then [digit n] else digits b (n div b) @ [digit (n mod b)])"
    by (rule digits.simps)
  moreover have "n mod b < b" using "1.prems" by simp
  ultimately show ?case using 1 by (cases "n < b") auto
qed

definition octal :: "char \<Rightarrow> bool" where
  "octal c \<longleftrightarrow> 48 \<le> (of_char c :: nat) \<and> of_char c < (56 :: nat)"

lemma octal_digit: "d < 8 \<Longrightarrow> octal (digit d)"
  by (simp add: octal_def digit_def)

lemma hex_digit: "d < 16 \<Longrightarrow> digit d \<noteq> CHR '' ''"
proof
  assume "d < 16" "digit d = CHR '' ''"
  then have "(of_char (digit d) :: nat) = of_char CHR '' ''" by simp
  then show False using \<open>d < 16\<close> by (simp add: digit_def split: if_splits)
qed

lemma fmt_o_octal: "c \<in> set (fmt_o n) \<Longrightarrow> octal c"
  using digits_set [of 8 n] octal_digit by (auto simp: fmt_o_def)

lemma fmt_x_nospace: "c \<in> set (fmt_x n) \<Longrightarrow> c \<noteq> CHR '' ''"
  using digits_set [of 16 n] hex_digit by (force simp: fmt_x_def)

lemma set_flag [simp]: "set (flag b c) = (if b then {c} else {})"
  by (simp add: flag_def)

lemma perm_flags_not_octal: "\<forall>c\<in>set (perm_flags p). \<not> octal c"
proof -
  have "set (perm_flags p) \<subseteq> set ''daAltDSPL''"
    unfolding perm_flags_def set_append Un_subset_iff set_flag by (intro conjI) simp_all
  moreover have "\<forall>c\<in>set ''daAltDSPL''. \<not> octal c" by (simp add: octal_def)
  ultimately show ?thesis by blast
qed

lemma takeWhile_split:
  assumes "\<forall>c\<in>set a. P c" "\<forall>c\<in>set b. P c" "x = [] \<or> \<not> P (hd x)" "y = [] \<or> \<not> P (hd y)" "a @ x = b @ y"
  shows "a = b \<and> x = y"
proof -
  have "takeWhile P (a @ x) = a" "takeWhile P (b @ y) = b"
    using assms(1-4) by (auto simp: takeWhile_append takeWhile_eq_Nil_iff)
  then have "a = b" using assms(5) by simp
  then show ?thesis using assms(5) by simp
qed

lemma digits_inject: "2 \<le> b \<Longrightarrow> b \<le> 16 \<Longrightarrow> digits b m = digits b n \<Longrightarrow> m = n"
  by (metis num_val_digits)

lemma fmt_o_inject: "fmt_o m = fmt_o n \<Longrightarrow> m = n"
  unfolding fmt_o_def by (rule digits_inject [of 8]) simp_all

lemma fmt_x_inject: "fmt_x m = fmt_x n \<Longrightarrow> m = n"
  unfolding fmt_x_def by (rule digits_inject [of 16]) simp_all

lemma perm_flags_mem: "perm_flags p = perm_flags q \<Longrightarrow>
    (p AND m \<noteq> 0 \<longleftrightarrow> q AND m \<noteq> 0)"
  if "m \<in> {DMDIR, DMAPPEND, DMAUTH, DMEXCL, DMTMP, DMDEVICE, DMSOCKET, DMNAMEDPIPE, DMSYMLINK}"
proof -
  assume e: "perm_flags p = perm_flags q"
  have mem: "CHR ''d'' \<in> set (perm_flags r) \<longleftrightarrow> r AND DMDIR \<noteq> 0"
    "CHR ''a'' \<in> set (perm_flags r) \<longleftrightarrow> r AND DMAPPEND \<noteq> 0"
    "CHR ''A'' \<in> set (perm_flags r) \<longleftrightarrow> r AND DMAUTH \<noteq> 0"
    "CHR ''l'' \<in> set (perm_flags r) \<longleftrightarrow> r AND DMEXCL \<noteq> 0"
    "CHR ''t'' \<in> set (perm_flags r) \<longleftrightarrow> r AND DMTMP \<noteq> 0"
    "CHR ''D'' \<in> set (perm_flags r) \<longleftrightarrow> r AND DMDEVICE \<noteq> 0"
    "CHR ''S'' \<in> set (perm_flags r) \<longleftrightarrow> r AND DMSOCKET \<noteq> 0"
    "CHR ''P'' \<in> set (perm_flags r) \<longleftrightarrow> r AND DMNAMEDPIPE \<noteq> 0"
    "CHR ''L'' \<in> set (perm_flags r) \<longleftrightarrow> r AND DMSYMLINK \<noteq> 0" for r
    by (simp_all add: perm_flags_def)
  show ?thesis using that mem [of p] mem [of q] unfolding e by blast
qed

text \<open>permToString shows what it is meant to show: two modes with the same text have the same nine
  permission bits and agree on each of the nine flag bits.\<close>

theorem permToString_inject:
  assumes "permToString p = permToString q"
  shows "p AND 0x1FF = q AND 0x1FF
    \<and> (\<forall>m\<in>{DMDIR, DMAPPEND, DMAUTH, DMEXCL, DMTMP, DMDEVICE, DMSOCKET, DMNAMEDPIPE, DMSYMLINK}.
         p AND m \<noteq> 0 \<longleftrightarrow> q AND m \<noteq> 0)"
proof -
  have h: "fmt_o n = [] \<or> \<not> \<not> octal (hd (fmt_o n))" for n
    using fmt_o_octal [of "hd (fmt_o n)" n] by (cases "fmt_o n") simp_all
  have "perm_flags p @ fmt_o (unat (p AND 0x1FF)) = perm_flags q @ fmt_o (unat (q AND 0x1FF))"
    using assms unfolding permToString_def .
  then have "perm_flags p = perm_flags q \<and> fmt_o (unat (p AND 0x1FF)) = fmt_o (unat (q AND 0x1FF))"
    by (rule takeWhile_split [where P = "\<lambda>c. \<not> octal c", OF perm_flags_not_octal
        perm_flags_not_octal h h])
  then have f: "perm_flags p = perm_flags q" and o: "unat (p AND 0x1FF) = unat (q AND 0x1FF)"
    by (auto dest: fmt_o_inject)
  show ?thesis
    using o by (intro conjI ballI perm_flags_mem f) (simp_all only: word_unat_eq_iff)
qed

theorem permToString_inject_witness:
  "permToString 0x1A4 = permToString 0x4001A4 \<and> (0x4001A4 :: u32) AND 0x1FF = 0x1A4"
proof -
  have e: "permToString 0x1A4 = permToString 0x4001A4"
    by (simp add: permToString_def perm_flags_def flag_def file_mode_defs)
  show ?thesis using permToString_inject [OF e] by (simp add: permToString_def perm_flags_def flag_def file_mode_defs)
qed

text \<open>The text of a qid determines its path, its version and the letters of its type, so log lines
  of different files never look the same.\<close>

theorem Qid_String_inject:
  assumes "Qid_String q = Qid_String r"
  shows "qid_Path q = qid_Path r \<and> qid_Version q = qid_Version r \<and> Qid_flags q = Qid_flags r"
proof -
  have s: "\<forall>c\<in>set (fmt_x n). c \<noteq> CHR '' ''" for n using fmt_x_nospace by blast
  have "fmt_x (unat (qid_Path q)) @ '' '' @ fmt_x (unat (qid_Version q)) @ '' ''
        @ [char_of (39 :: nat)] @ Qid_flags q @ [char_of (39 :: nat)] @ '')''
      = fmt_x (unat (qid_Path r)) @ '' '' @ fmt_x (unat (qid_Version r)) @ '' ''
        @ [char_of (39 :: nat)] @ Qid_flags r @ [char_of (39 :: nat)] @ '')''"
    using assms unfolding Qid_String_def by (simp only: append.simps list.inject)
  from takeWhile_split [where P = "\<lambda>c. c \<noteq> CHR '' ''", OF s s _ _ this]
  have p: "fmt_x (unat (qid_Path q)) = fmt_x (unat (qid_Path r))"
    and v: "fmt_x (unat (qid_Version q)) @ '' '' @ [char_of (39 :: nat)] @ Qid_flags q @ [char_of (39 :: nat)] @ '')''
      = fmt_x (unat (qid_Version r)) @ '' '' @ [char_of (39 :: nat)] @ Qid_flags r @ [char_of (39 :: nat)] @ '')''"
    by simp_all
  from takeWhile_split [where P = "\<lambda>c. c \<noteq> CHR '' ''", OF s s _ _ v]
  have "fmt_x (unat (qid_Version q)) = fmt_x (unat (qid_Version r))" "Qid_flags q = Qid_flags r"
    by simp_all
  then show ?thesis using p by (auto dest: fmt_x_inject simp: word_unat_eq_iff)
qed

theorem Qid_String_inject_witness:
  "Qid_String \<lparr>qid_Type = 0x80, qid_Version = 1, qid_Path = 2\<rparr> = Qid_String \<lparr>qid_Type = 0x90, qid_Version = 1, qid_Path = 2\<rparr>
   \<and> Qid_flags \<lparr>qid_Type = 0x80, qid_Version = 1, qid_Path = 2\<rparr> = Qid_flags \<lparr>qid_Type = 0x90, qid_Version = 1, qid_Path = 2\<rparr>"
proof -
  have e: "Qid_String \<lparr>qid_Type = 0x80, qid_Version = 1, qid_Path = 2\<rparr> = Qid_String \<lparr>qid_Type = 0x90, qid_Version = 1, qid_Path = 2\<rparr>"
    by (simp add: Qid_String_def Qid_flags_def flag_def qid_type_defs)
  show ?thesis using e Qid_String_inject [OF e] by simp
qed

text \<open>The parts of a network name put together again.\<close>

fun join_bang :: "string list \<Rightarrow> string" where
  "join_bang [] = ''''"
| "join_bang [w] = w"
| "join_bang (w # ws) = w @ CHR ''!'' # join_bang ws"

lemma split_at_plain: "c \<notin> set w \<Longrightarrow> split_at c w = [w]"
  by (induction w) auto

lemma split_at_append: "c \<notin> set w \<Longrightarrow> split_at c (w @ c # s) = w # split_at c s"
  by (induction w) auto

lemma split_join_bang: "ws \<noteq> [] \<Longrightarrow> list_all (\<lambda>w. CHR ''!'' \<notin> set w) ws \<Longrightarrow>
    split_at CHR ''!'' (join_bang ws) = ws"
  by (induction ws rule: join_bang.induct) (simp_all add: split_at_plain split_at_append)

text \<open>ParseNetName takes a network name apart at its exclamation marks: one part is an address on
  tcp, two parts are the network (tcp if empty) and the address, three parts also name a service whose
  port number is joined to the address, and any other number of parts is an error.\<close>

theorem ParseNetName_parts:
  assumes "ws \<noteq> []" and "list_all (\<lambda>w. CHR ''!'' \<notin> set w) ws"
  shows "ParseNetName lookup (join_bang ws) =
    (case ws of
       [a] \<Rightarrow> Inr (''tcp'', a)
     | [n, a] \<Rightarrow> Inr (if n = '''' then ''tcp'' else n, a)
     | [n, a, s] \<Rightarrow> (case lookup (if n = '''' then ''tcp'' else n) s of
           Inl e \<Rightarrow> Inl e
         | Inr port \<Rightarrow> Inr (if n = '''' then ''tcp'' else n, JoinHostPort a (fmt_d port)))
     | _ \<Rightarrow> Inl (Error ''unable to parse name'' EINVAL))"
  using assms(1)
  by (simp add: ParseNetName_def split_join_bang [OF assms] Let_def split: list.splits sum.splits)

theorem ParseNetName_parts_witness:
  "ParseNetName (\<lambda>_ _. Inr 564) ''tcp!::1!9fs'' = Inr (''tcp'', ''[::1]:564'')"
  using ParseNetName_parts [of "[''tcp'', ''::1'', ''9fs'']" "\<lambda>_ _. Inr 564"]
  by (simp add: JoinHostPort_def fmt_d_def digits.simps digit_def char_of_def bit_0)

end
