(* ===== verification/P9_Log.thy ===== *)
theory P9_Log
  imports Go_Prelude
begin

section \<open>The logger (p/log.go)\<close>

text \<open>
  A \<open>Logger\<close> is a ring of log entries that one goroutine (\<open>doLog\<close>) owns; \<open>Log\<close>, \<open>Filter\<close> and
  \<open>Resize\<close> send it a request and each request is one step of the loop.  The entries are \<open>Log\<close>
  records or nil (\<open>None\<close>); owners are compared as interface values, nil is \<open>None\<close>.  \<open>ring\<close> is the
  abstraction: the slots from the oldest to the one written last.
\<close>

record ('d, 'o) Log =
  log_Data :: 'd
  log_Owner :: "'o option"
  log_Type :: int

record ('d, 'o) Logger =
  items :: "('d, 'o) Log option list"
  idx :: nat

definition NewLogger :: "nat \<Rightarrow> ('d, 'o) Logger option" where
  "NewLogger sz = (if sz = 0 then None else Some \<lparr>items = replicate sz None, idx = 0\<rparr>)"

subsection \<open>The three requests\<close>

definition log_put :: "('d, 'o) Logger \<Rightarrow> ('d, 'o) Log \<Rightarrow> ('d, 'o) Logger" where
  "log_put l it = (let i = (if idx l \<ge> length (items l) then 0 else idx l) in
     l\<lparr>items := (items l)[i := Some it], idx := i + 1\<rparr>)"

text \<open>The loop of \<open>Resize\<close>: what is stored from slot \<open>j\<close> on, with \<open>n\<close> slots left.\<close>

primrec resize_loop :: "'a list \<Rightarrow> nat \<Rightarrow> nat \<Rightarrow> nat \<Rightarrow> 'a list" where
  "resize_loop xs k i 0 = []"
| "resize_loop xs k i (Suc n) = (let i = (if i \<ge> length xs then 0 else i) in
     xs ! i # (if i + 1 = k then [] else resize_loop xs k (i + 1) n))"

definition Resize :: "('d, 'o) Logger \<Rightarrow> nat \<Rightarrow> ('d, 'o) Logger" where
  "Resize l sz = (if sz = 0 then l else
     (let its = resize_loop (items l) (idx l) (idx l) sz in
      l\<lparr>items := its @ replicate (sz - length its) None, idx := 0\<rparr>))"

definition flt_match :: "'o option \<Rightarrow> int \<Rightarrow> ('d, 'o) Log option \<Rightarrow> bool" where
  "flt_match owner itype it = (case it of None \<Rightarrow> False
     | Some it \<Rightarrow> (owner = None \<or> log_Owner it = owner) \<and> (itype = 0 \<or> log_Type it = itype))"

text \<open>The second loop of the filter has no bound of its own: it runs until it has found all entries
  that the first loop counted.\<close>

partial_function (option) flt_loop ::
  "('d, 'o) Log option list \<Rightarrow> 'o option \<Rightarrow> int \<Rightarrow> nat \<Rightarrow> nat \<Rightarrow> ('d, 'o) Log option list option" where
  "flt_loop xs owner itype i m = (if m = 0 then Some [] else
     (let i = (if i \<ge> length xs then 0 else i) in
      if flt_match owner itype (xs ! i)
      then Option.bind (flt_loop xs owner itype (i + 1) (m - 1)) (\<lambda>its. Some (xs ! i # its))
      else flt_loop xs owner itype (i + 1) m))"

declare flt_loop.simps [code]

definition Filter :: "('d, 'o) Logger \<Rightarrow> 'o option \<Rightarrow> int \<Rightarrow> ('d, 'o) Log option list option" where
  "Filter l owner itype = (let n = length (filter (flt_match owner itype) (items l)) in
     flt_loop (items l) owner itype (idx l) n)"

subsection \<open>The ring as a list, oldest slot first\<close>

definition start :: "('d, 'o) Logger \<Rightarrow> nat" where
  "start l = (if idx l \<ge> length (items l) then 0 else idx l)"

definition ring :: "('d, 'o) Logger \<Rightarrow> ('d, 'o) Log option list" where
  "ring l = drop (start l) (items l) @ take (start l) (items l)"

definition log_inv :: "('d, 'o) Logger \<Rightarrow> bool" where
  "log_inv l \<longleftrightarrow> items l \<noteq> [] \<and> idx l \<le> length (items l)"

lemma length_ring [simp]: "length (ring l) = length (items l)"
  by (simp add: ring_def start_def)

lemma start_less: "log_inv l \<Longrightarrow> start l < length (items l)"
  by (auto simp: start_def log_inv_def)

lemma log_put_eq: "log_put l it = l\<lparr>items := (items l)[start l := Some it], idx := start l + 1\<rparr>"
  by (simp add: log_put_def start_def Let_def)

lemma ring_log_put:
  assumes "log_inv l"
  shows "ring (log_put l it) = tl (ring l) @ [Some it]"
proof -
  define i where "i = start l"
  define xs where "xs = items l"
  have i: "i < length xs" using start_less [OF assms] by (simp add: i_def xs_def)
  have u: "xs[i := Some it] = take i xs @ Some it # drop (Suc i) xs"
    by (rule upd_conv_take_nth_drop [OF i])
  have r: "ring l = xs ! i # drop (Suc i) xs @ take i xs"
    using i by (simp add: ring_def i_def [symmetric] xs_def [symmetric] Cons_nth_drop_Suc)
  have "start (log_put l it) = (if Suc i \<ge> length xs then 0 else Suc i)"
    unfolding start_def [of "log_put l it"] unfolding log_put_eq by (simp add: i_def xs_def)
  moreover have "items (log_put l it) = xs[i := Some it]"
    by (simp add: log_put_eq i_def xs_def)
  ultimately show ?thesis
    unfolding r ring_def [of "log_put l it"] using i by (auto simp: u)
qed

lemma log_inv_put:
  assumes "log_inv l"
  shows "log_inv (log_put l it)"
proof -
  have "items (log_put l it) \<noteq> []" using assms by (simp add: log_put_eq log_inv_def)
  moreover have "idx (log_put l it) \<le> length (items (log_put l it))"
    using start_less [OF assms] by (simp add: log_put_eq)
  ultimately show ?thesis by (simp add: log_inv_def)
qed

lemma resize_loop_bound: "length (resize_loop xs k i n) \<le> n"
  by (induction n arbitrary: i) (auto simp: Let_def)

lemma log_inv_Resize: "log_inv l \<Longrightarrow> log_inv (Resize l sz)"
  by (cases sz) (auto simp: Resize_def log_inv_def Let_def)


text \<open>Entries still in the ring, oldest first.\<close>

definition entries :: "('d, 'o) Logger \<Rightarrow> ('d, 'o) Log list" where
  "entries l = List.map_filter (\<lambda>x. x) (ring l)"

lemma entries_put: "log_inv l \<Longrightarrow> entries (log_put l it)
    = (case hd (ring l) of None \<Rightarrow> entries l | Some _ \<Rightarrow> tl (entries l)) @ [it]"
proof -
  assume l: "log_inv l"
  have "0 < length (ring l)" using start_less [OF l] unfolding length_ring by linarith
  then obtain x xs where "ring l = x # xs" by (cases "ring l") simp_all
  then show ?thesis
    by (auto simp: entries_def ring_log_put [OF l] List.map_filter_def split: option.splits)
qed

text \<open>The ring after \<open>Resize\<close>: the slots are copied in ring order until the copy is full or has come
  back to \<open>idx\<close>; the second test never succeeds when \<open>idx\<close> is 0.\<close>

lemma resize_loop_nowrap:
  "i + n \<le> length xs \<Longrightarrow> k \<notin> {i + 1..<i + n} \<Longrightarrow> resize_loop xs k i n = take n (drop i xs)"
proof (induction n arbitrary: i)
  case (Suc n)
  then have i: "i < length xs" by simp
  have "resize_loop xs k i (Suc n) = xs ! i # (if i + 1 = k then [] else resize_loop xs k (i + 1) n)"
    using i by (simp add: Let_def)
  also have "(if i + 1 = k then [] else resize_loop xs k (i + 1) n) = take n (drop (Suc i) xs)"
    using Suc by (cases n) auto
  finally show ?case using i by (simp add: Cons_nth_drop_Suc [symmetric])
qed simp

lemma resize_loop_to:
  "0 < k \<Longrightarrow> i < k \<Longrightarrow> k \<le> length xs \<Longrightarrow> resize_loop xs k i n = take n (drop i (take k xs))"
proof (induction n arbitrary: i)
  case (Suc n)
  then have i: "i < length xs" "i < length (take k xs)" by simp_all
  have "resize_loop xs k i (Suc n) = xs ! i # (if i + 1 = k then [] else resize_loop xs k (i + 1) n)"
    using i by (simp add: Let_def)
  also have "(if i + 1 = k then [] else resize_loop xs k (i + 1) n) = take n (drop (i + 1) (take k xs))"
    using Suc by auto
  also have "xs ! i # \<dots> = take (Suc n) (drop i (take k xs))"
    using Cons_nth_drop_Suc [OF i(2)] Suc.prems(2) by (metis Suc_eq_plus1 nth_take take_Suc_Cons)
  finally show ?case .
qed simp

lemma resize_loop_from:
  "0 < k \<Longrightarrow> k \<le> i \<Longrightarrow> i \<le> length xs \<Longrightarrow> resize_loop xs k i n = take n (drop i xs @ take k xs)"
proof (induction n arbitrary: i)
  case (Suc n)
  show ?case
  proof (cases "i < length xs")
    case True
    then have "resize_loop xs k i (Suc n) = xs ! i # resize_loop xs k (Suc i) n"
      using Suc.prems by (simp add: Let_def)
    also have "\<dots> = xs ! i # take n (drop (Suc i) xs @ take k xs)"
      using Suc.IH [of "Suc i"] Suc.prems True by simp
    also have "\<dots> = take (Suc n) (drop i xs @ take k xs)"
      using Cons_nth_drop_Suc [OF True] by (metis append_Cons take_Suc_Cons)
    finally show ?thesis .
  next
    case False
    then have "resize_loop xs k i (Suc n) = resize_loop xs k 0 (Suc n)"
      using Suc.prems by (simp add: Let_def)
    then show ?thesis using False Suc.prems resize_loop_to [of k 0 xs "Suc n"] by simp
  qed
qed simp

lemma ring_Resize:
  assumes "log_inv l" "0 < idx l" "0 < sz"
  shows "ring (Resize l sz) = take sz (ring l) @ replicate (sz - length (items l)) None"
proof -
  have "drop (idx l) (items l) @ take (idx l) (items l) = ring l"
    by (simp add: ring_def start_def)
  then have r: "resize_loop (items l) (idx l) (idx l) sz = take sz (ring l)"
    using resize_loop_from [of "idx l" "idx l" "items l" sz] assms by (simp add: log_inv_def)
  have "idx (Resize l sz) = 0"
    "items (Resize l sz) = take sz (ring l) @ replicate (sz - length (items l)) None"
    using assms(3) by (simp_all add: Resize_def r Let_def)
  then show ?thesis by (simp add: ring_def [of "Resize l sz"] start_def [of "Resize l sz"])
qed

subsection \<open>The filter loop\<close>

lemma flt_loop_0 [simp]: "flt_loop xs owner itype i 0 = Some []"
  by (subst flt_loop.simps) simp

lemma flt_loop_wrap: "i \<ge> length xs \<Longrightarrow> flt_loop xs owner itype i m = flt_loop xs owner itype 0 m"
  by (subst (1 2) flt_loop.simps) (simp add: Let_def)

lemma flt_loop_lap:
  "m \<le> length (filter (flt_match owner itype) (drop i xs)) \<Longrightarrow>
   flt_loop xs owner itype i m = Some (take m (filter (flt_match owner itype) (drop i xs)))"
proof (induction "length xs - i" arbitrary: i m)
  case 0
  then show ?case by simp
next
  case (Suc n)
  then have i: "i < length xs" by simp
  have d: "drop i xs = xs ! i # drop (Suc i) xs" using i by (simp add: Cons_nth_drop_Suc)
  have IH: "m' \<le> length (filter (flt_match owner itype) (drop (Suc i) xs)) \<Longrightarrow>
      flt_loop xs owner itype (Suc i) m' = Some (take m' (filter (flt_match owner itype) (drop (Suc i) xs)))" for m'
    using Suc.hyps by (metis Suc_diff_Suc i nat.inject)
  show ?case
  proof (cases m)
    case (Suc m')
    with Suc.prems IH i show ?thesis
      by (subst flt_loop.simps) (simp add: d Let_def split: if_splits)
  qed simp
qed

lemma flt_loop_two_laps:
  "m \<le> length (filter (flt_match owner itype) xs) \<Longrightarrow>
   flt_loop xs owner itype i (length (filter (flt_match owner itype) (drop i xs)) + m)
   = Some (filter (flt_match owner itype) (drop i xs) @ take m (filter (flt_match owner itype) xs))"
proof (induction "length xs - i" arbitrary: i)
  case 0
  then show ?case using flt_loop_lap [of m owner itype 0 xs] by (simp add: flt_loop_wrap)
next
  case (Suc n)
  then have i: "i < length xs" by simp
  have d: "drop i xs = xs ! i # drop (Suc i) xs" using i by (simp add: Cons_nth_drop_Suc)
  have IH: "flt_loop xs owner itype (Suc i) (length (filter (flt_match owner itype) (drop (Suc i) xs)) + m)
   = Some (filter (flt_match owner itype) (drop (Suc i) xs) @ take m (filter (flt_match owner itype) xs))"
    using Suc by (metis Suc_diff_Suc i nat.inject)
  show ?case
  proof (cases "flt_match owner itype (xs ! i)")
    case True
    then show ?thesis using IH i by (subst flt_loop.simps) (simp add: d Let_def)
  next
    case False
    then show ?thesis using IH i
      by (cases "length (filter (flt_match owner itype) (drop (Suc i) xs)) + m")
         (subst flt_loop.simps, simp add: d Let_def)+
  qed
qed

lemma Filter_ring: "Filter l owner itype = Some (filter (flt_match owner itype) (ring l))"
proof -
  let ?P = "flt_match owner itype" and ?xs = "items l" and ?i = "start l"
  have t: "filter ?P ?xs = filter ?P (take ?i ?xs) @ filter ?P (drop ?i ?xs)"
    by (metis append_take_drop_id filter_append)
  then have n: "length (filter ?P ?xs) = length (filter ?P (drop ?i ?xs)) + length (filter ?P (take ?i ?xs))"
    by simp
  have "flt_loop ?xs owner itype (idx l) k = flt_loop ?xs owner itype ?i k" for k
    by (auto simp: start_def flt_loop_wrap)
  moreover have "length (filter ?P (take ?i ?xs)) \<le> length (filter ?P ?xs)" using n by simp
  then have "flt_loop ?xs owner itype ?i (length (filter ?P ?xs))
      = Some (filter ?P (drop ?i ?xs) @ filter ?P (take ?i ?xs))"
    using flt_loop_two_laps [of "length (filter ?P (take ?i ?xs))" owner itype ?xs ?i] unfolding n by (simp add: t)
  ultimately show ?thesis by (simp add: Filter_def Let_def ring_def)
qed

subsection \<open>Properties\<close>

lemma ring_puts:
  assumes "NewLogger sz = Some l"
  shows "log_inv (foldl log_put l its)
    \<and> ring (foldl log_put l its) = replicate (sz - length its) None @ map Some (drop (length its - sz) its)"
proof (induction its rule: rev_induct)
  case Nil
  show ?case using assms
    by (auto simp: NewLogger_def log_inv_def ring_def start_def split: if_splits)
next
  case (snoc x its)
  let ?l = "foldl log_put l its"
  have inv: "log_inv ?l" using snoc by simp
  have "0 < sz" using assms by (simp add: NewLogger_def split: if_splits)
  have "tl (replicate (sz - length its) None @ map Some (drop (length its - sz) its)) @ [Some x]
      = replicate (sz - Suc (length its)) None @ map Some (drop (Suc (length its) - sz) (its @ [x]))"
  proof (cases "length its < sz")
    case True
    then show ?thesis by (cases "sz - length its") (simp_all add: Suc_diff_Suc)
  next
    case False
    then have "length its - sz < length its" using \<open>0 < sz\<close> by simp
    then show ?thesis using False by (simp add: Suc_diff_le tl_drop drop_Suc map_tl [symmetric])
  qed
  then show ?case
    using snoc log_inv_put [OF inv] ring_log_put [OF inv, of x] by simp
qed

text \<open>C8: A logger keeps exactly the last sz entries: after any sequence of Log calls on a new logger
  of size sz, Filter returns, oldest first, those among the last sz entries whose owner and type match,
  where owner nil and type 0 match everything; its second loop, which has no bound, ends.\<close>

theorem Filter_last_entries:
  assumes "NewLogger sz = Some l"
  shows "Filter (foldl log_put l its) owner itype
    = Some (filter (flt_match owner itype) (map Some (drop (length its - sz) its)))"
  using ring_puts [OF assms, of its] by (simp add: Filter_ring flt_match_def)

theorem Filter_last_entries_witness:
  "\<exists>l. NewLogger 2 = Some l
    \<and> Filter (foldl log_put l [\<lparr>log_Data = ''a'', log_Owner = Some True, log_Type = 1\<rparr>,
        \<lparr>log_Data = ''b'', log_Owner = Some True, log_Type = 1\<rparr>,
        \<lparr>log_Data = ''c'', log_Owner = Some False, log_Type = 2\<rparr>]) (Some True) 0
      = Some [Some \<lparr>log_Data = ''b'', log_Owner = Some True, log_Type = 1\<rparr>]"
proof -
  let ?l = "\<lparr>items = replicate 2 None, idx = 0\<rparr> :: (string, bool) Logger"
  let ?a = "\<lparr>log_Data = ''a'', log_Owner = Some True, log_Type = 1\<rparr>"
  let ?b = "\<lparr>log_Data = ''b'', log_Owner = Some True, log_Type = 1\<rparr>"
  let ?c = "\<lparr>log_Data = ''c'', log_Owner = Some False, log_Type = 2\<rparr>"
  have "NewLogger 2 = Some ?l" by (simp add: NewLogger_def)
  then show ?thesis
    using Filter_last_entries [of 2 ?l "[?a, ?b, ?c]" "Some True" 0]
    by (intro exI [of _ ?l]) (simp add: flt_match_def)
qed

text \<open>Resize of a logger that was written to copies the ring oldest slot first and cuts it off at
  the new size.  Shrinking therefore drops the newest entries, not the oldest; and as the copy starts at
  slot 0 with idx 0, the next Log of a grown logger overwrites the oldest entry although the new slots
  are empty.\<close>

theorem Resize_keeps_oldest:
  assumes "log_inv l" and "0 < idx l" and "0 < sz"
  shows "ring (Resize l sz) = take sz (ring l) @ replicate (sz - length (items l)) None
    \<and> (length (items l) < sz \<longrightarrow>
        ring (log_put (Resize l sz) it) = tl (ring l) @ replicate (sz - length (items l)) None @ [Some it])"
proof -
  have "ring l \<noteq> []" using assms(1) length_ring [of l] by (auto simp: log_inv_def simp del: length_ring)
  then show ?thesis
    using ring_Resize [OF assms] ring_log_put [OF log_inv_Resize [OF assms(1)], of sz it] by simp
qed

theorem Resize_keeps_oldest_witness:
  "ring (Resize \<lparr>items = [Some \<lparr>log_Data = (), log_Owner = Some True, log_Type = 1\<rparr>,
       Some \<lparr>log_Data = (), log_Owner = Some True, log_Type = 2\<rparr>], idx = 2\<rparr> 1)
     = [Some \<lparr>log_Data = (), log_Owner = Some True, log_Type = 1\<rparr>]"
  using Resize_keeps_oldest [of "\<lparr>items = [Some \<lparr>log_Data = (), log_Owner = Some True, log_Type = 1\<rparr>,
       Some \<lparr>log_Data = (), log_Owner = Some True, log_Type = 2\<rparr>], idx = 2\<rparr>" 1]
  by (simp add: log_inv_def ring_def start_def)

end
