(* ===== verification/Go_Heap.thy ===== *)
theory Go_Heap
  imports Go_Prelude
begin

section \<open>Chains of pointers\<close>

text \<open>
  Structs that are linked by a pointer live in heaps, functions from addresses; \<open>next a\<close> is the
  pointer stored at \<open>a\<close> and a nil pointer is \<open>None\<close>.  \<open>path next p xs\<close> says that following \<open>next\<close>
  from \<open>p\<close> passes through the addresses \<open>xs\<close> and ends in nil.
\<close>

fun path :: "(nat \<Rightarrow> nat option) \<Rightarrow> nat option \<Rightarrow> nat list \<Rightarrow> bool" where
  "path next p [] = (p = None)"
| "path next p (x # xs) = (p = Some x \<and> path next (next x) xs)"

lemma path_None [simp]: "path next None xs = (xs = [])"
  by (cases xs) auto

lemma path_cong: "p = q \<Longrightarrow> (\<And>x. x \<in> set xs \<Longrightarrow> f x = g x) \<Longrightarrow> path f p xs = path g q xs"
  by (induction xs arbitrary: p q) auto

lemma path_upd [simp]: "a \<notin> set xs \<Longrightarrow> path (f(a := y)) p xs = path f p xs"
  by (rule path_cong) auto

lemma path_unique: "path f p xs \<Longrightarrow> path f p ys \<Longrightarrow> xs = ys"
proof (induction xs arbitrary: p ys)
  case (Cons x xs)
  then show ?case by (cases ys) auto
qed auto

lemma path_tl: "path f p (xs @ y # ys) \<Longrightarrow> path f (Some y) (y # ys)"
  by (induction xs arbitrary: p) auto

text \<open>A chain that ends visits no address twice.\<close>

lemma path_distinct: "path f p xs \<Longrightarrow> distinct xs"
proof (induction xs arbitrary: p)
  case (Cons x xs)
  have "x \<notin> set xs"
  proof
    assume "x \<in> set xs"
    then obtain ys zs where xs: "xs = ys @ x # zs" by (auto simp: in_set_conv_decomp)
    have "path f (f x) xs" using Cons.prems by simp
    then have "path f (Some x) (x # zs)" using path_tl xs by fastforce
    then have "path f (f x) zs" by simp
    with \<open>path f (f x) xs\<close> have "xs = zs" by (rule path_unique)
    then show False using xs by simp
  qed
  then show ?case using Cons by auto
qed simp

text \<open>So its length is bounded by the number of addresses in use.\<close>

lemma path_length: "path f p xs \<Longrightarrow> set xs \<subseteq> {..<n} \<Longrightarrow> length xs \<le> n"
  using card_mono [of "{..<n}" "set xs"] by (simp add: distinct_card path_distinct)

subsection \<open>Changing the end of a chain, or taking an element out\<close>

lemma path_snoc:
  "path f p (xs @ [l]) \<Longrightarrow> a \<notin> set (xs @ [l]) \<Longrightarrow> path (f(l := Some a, a := None)) p (xs @ [l, a])"
proof (induction xs arbitrary: p)
  case (Cons x xs)
  then have "l \<noteq> x" using path_distinct [OF Cons.prems(1)] by auto
  then show ?case using Cons by auto
qed auto

lemma path_remove:
  "path f p (xs @ a # ys) \<Longrightarrow> p' = (if xs = [] then f a else p) \<Longrightarrow>
   (\<And>x. x \<in> set (xs @ ys) \<Longrightarrow> g x = (if xs \<noteq> [] \<and> x = last xs then f a else f x)) \<Longrightarrow>
   path g p' (xs @ ys)"
proof (induction xs arbitrary: p p')
  case Nil
  have "path f (f a) ys = path g p' ys" using Nil(2,3) by (intro path_cong) auto
  then show ?case using Nil(1) by simp
next
  case (Cons x xs)
  have x: "x \<notin> set (xs @ ys)" "x \<noteq> a" using path_distinct [OF Cons.prems(1)] by auto
  have "path g (if xs = [] then f a else f x) (xs @ ys)"
  proof (rule Cons.IH [OF _ refl])
    show "path f (f x) (xs @ a # ys)" using Cons.prems(1) by simp
    show "g z = (if xs \<noteq> [] \<and> z = last xs then f a else f z)" if "z \<in> set (xs @ ys)" for z
      using Cons.prems(3) [of z] that x by auto
  qed
  moreover have "g x = (if xs = [] then f a else f x)" using Cons.prems(3) [of x] x by auto
  ultimately show ?case using Cons.prems(1,2) by simp
qed

lemma path_last: "path f p (xs @ [l]) \<Longrightarrow> f l = None"
  by (induction xs arbitrary: p) auto

lemma path_next: "path f p (xs @ a # b # ys) \<Longrightarrow> f a = Some b"
  by (induction xs arbitrary: p) auto

end
