(* ===== verification/Srv_State.thy ===== *)
theory Srv_State
  imports Go_Heap P9_Pack "HOL-Library.AList"
begin

section \<open>The server's data: Srv, Conn, Fid, Req (p/srv/srv.go)\<close>

text \<open>
  One connection of a file server.  Pointers are addresses (\<^typ>\<open>nat\<close>) into two heaps, one of \<open>Fid\<close>s
  and one of \<open>Req\<close>s, and a nil pointer is \<open>None\<close>; an address is handed out once, by \<open>new\<close>, so every
  address in the state is allocated.  The maps \<open>fidpool\<close> and \<open>reqs\<close> are association lists.  The
  channels are lists: \<open>c_reqout\<close> holds the requests whose response waits to be sent, \<open>c_runq\<close> those
  that were handed to a goroutine (\<open>go req.process()\<close> or \<open>Reqin\<close>) and have not started, \<open>c_rchan\<close> the
  response buffers to be used again.  A blocking send is a send to a channel that is long enough.

  \<open>'a\<close> is the type of a fid's \<open>Aux\<close> data and \<open>'s\<close> the state of the file server implementation.
\<close>

subsection \<open>Errors\<close>

definition Eunknownfid :: perror where "Eunknownfid = Error ''unknown fid'' EINVAL"
definition Enoauth :: perror where "Enoauth = Error ''no authentication required'' EINVAL"
definition Einuse :: perror where "Einuse = Error ''fid already in use'' EINVAL"
definition Ebaduse :: perror where "Ebaduse = Error ''bad use of fid'' EINVAL"
definition Eopen :: perror where "Eopen = Error ''fid already opened'' EINVAL"
definition Enotdir :: perror where "Enotdir = Error ''not a directory'' ENOTDIR"
definition Eperm :: perror where "Eperm = Error ''permission denied'' EPERM"
definition Ebadarg :: perror where "Ebadarg = Error ''bad argument'' EINVAL"
definition Etoolarge :: perror where "Etoolarge = Error ''i/o count too large'' EINVAL"
definition Ebadoffset :: perror where "Ebadoffset = Error ''bad offset in directory read'' EINVAL"
definition Edirchange :: perror where
  "Edirchange = Error ''cannot convert between files and directories'' EINVAL"
definition Enouser :: perror where "Enouser = Error ''unknown user'' EINVAL"
definition Enotimpl :: perror where "Enotimpl = Error ''not implemented'' EINVAL"

text \<open>The argument of \<open>RespondError\<close> is a \<open>*p.Error\<close> or another error, of which only its text is used.\<close>

datatype go_error = PErr perror | OtherErr string

subsection \<open>Users and groups (the interfaces User, Group, Users of p/p9.go)\<close>

record Group =
  grp_Name :: string
  grp_Id :: int

record User =
  usr_Name :: string
  usr_Id :: int
  usr_Groups :: "Group list"

record Users =
  up_Uid2User :: "int \<Rightarrow> User option"
  up_Uname2User :: "string \<Rightarrow> User option"
  up_Gid2Group :: "int \<Rightarrow> Group option"
  up_Gname2Group :: "string \<Rightarrow> Group option"

subsection \<open>The structs\<close>

datatype reqStatus = reqFlush | reqWork | reqResponded | reqSaved

record Srv =
  srv_Msize :: u32
  srv_Dotu :: bool
  srv_Maxpend :: nat
  srv_Ngoroutines :: nat
  srv_Upool :: Users

record 'a Fid =
  fid_fid :: u32
  fid_refcount :: int
  fid_opened :: bool
  fid_Omode :: u8
  fid_Type :: u8
  fid_Diroffset :: u64
  fid_User :: "User option"
  fid_Aux :: "'a option"

record Req =
  req_Tc :: Fcall
  req_Rc :: Fcall
  req_Fid :: "nat option"
  req_Afid :: "nat option"
  req_Newfid :: "nat option"
  req_status :: "reqStatus set"
  req_flushreq :: "nat option"
  req_prev :: "nat option"
  req_next :: "nat option"

record ('a, 's) Conn =
  c_Srv :: Srv
  c_Msize :: u32
  c_Dotu :: bool
  c_fids :: "nat \<Rightarrow> 'a Fid"
  c_fnew :: nat
  c_fidpool :: "(u32 \<times> nat) list"
  c_heap :: "nat \<Rightarrow> Req"
  c_rnew :: nat
  c_reqs :: "(u16 \<times> nat) list"
  c_reqout :: "nat list"
  c_runq :: "nat list"
  c_rchan :: "Fcall list"
  c_nreqs :: nat
  c_tsz :: u64
  c_rsz :: u64
  c_npend :: int
  c_maxpend :: int
  c_fs :: 's

type_synonym ('a, 's) action = "('a, 's) Conn \<Rightarrow> ('a, 's) Conn option"

definition zero_Fid :: "'a Fid" where
  "zero_Fid = \<lparr>fid_fid = 0, fid_refcount = 0, fid_opened = False, fid_Omode = 0, fid_Type = 0,
     fid_Diroffset = 0, fid_User = None, fid_Aux = None\<rparr>"

definition zero_Req :: Req where
  "zero_Req = \<lparr>req_Tc = zero_Fcall, req_Rc = zero_Fcall, req_Fid = None, req_Afid = None,
     req_Newfid = None, req_status = {}, req_flushreq = None, req_prev = None, req_next = None\<rparr>"

lemma zero_Fcall_simps [simp]:
  "fc_Type zero_Fcall = 0" "fc_Tag zero_Fcall = 0" "fc_Fid zero_Fcall = 0" "fc_Newfid zero_Fcall = 0"
  "fc_Wname zero_Fcall = []" "fc_Wqid zero_Fcall = []" "fc_Oldtag zero_Fcall = 0" "fc_Buf zero_Fcall = []"
  "fc_Count zero_Fcall = 0" "fc_Data zero_Fcall = []" "fc_Afid zero_Fcall = 0" "fc_Msize zero_Fcall = 0"
  "fc_Offset zero_Fcall = 0" "fc_Mode zero_Fcall = 0"
  by (simp_all add: zero_Fcall_def)

lemma zero_Fid_simps [simp]:
  "fid_fid zero_Fid = 0" "fid_refcount zero_Fid = 0" "fid_opened zero_Fid = False" "fid_Type zero_Fid = 0"
  "fid_Omode zero_Fid = 0" "fid_Diroffset zero_Fid = 0" "fid_User zero_Fid = None" "fid_Aux zero_Fid = None"
  by (simp_all add: zero_Fid_def)

lemma zero_Req_simps [simp]:
  "req_Tc zero_Req = zero_Fcall" "req_Rc zero_Req = zero_Fcall" "req_Fid zero_Req = None"
  "req_Afid zero_Req = None" "req_Newfid zero_Req = None" "req_status zero_Req = {}"
  "req_flushreq zero_Req = None" "req_prev zero_Req = None" "req_next zero_Req = None"
  by (simp_all add: zero_Req_def)

subsection \<open>Stores through pointers\<close>

definition set_fid :: "nat \<Rightarrow> ('a Fid \<Rightarrow> 'a Fid) \<Rightarrow> ('a, 's) Conn \<Rightarrow> ('a, 's) Conn" where
  "set_fid a f c = c\<lparr>c_fids := (c_fids c)(a := f (c_fids c a))\<rparr>"

definition set_req :: "nat \<Rightarrow> (Req \<Rightarrow> Req) \<Rightarrow> ('a, 's) Conn \<Rightarrow> ('a, 's) Conn" where
  "set_req r f c = c\<lparr>c_heap := (c_heap c)(r := f (c_heap c r))\<rparr>"

lemma set_fid_simps [simp]:
  "c_fids (set_fid a f c) = (c_fids c)(a := f (c_fids c a))"
  "c_Srv (set_fid a f c) = c_Srv c" "c_Msize (set_fid a f c) = c_Msize c"
  "c_Dotu (set_fid a f c) = c_Dotu c" "c_fnew (set_fid a f c) = c_fnew c"
  "c_fidpool (set_fid a f c) = c_fidpool c" "c_heap (set_fid a f c) = c_heap c"
  "c_rnew (set_fid a f c) = c_rnew c" "c_reqs (set_fid a f c) = c_reqs c"
  "c_reqout (set_fid a f c) = c_reqout c" "c_runq (set_fid a f c) = c_runq c"
  "c_rchan (set_fid a f c) = c_rchan c" "c_fs (set_fid a f c) = c_fs c"
  by (simp_all add: set_fid_def)

lemma set_req_simps [simp]:
  "c_heap (set_req r g c) = (c_heap c)(r := g (c_heap c r))"
  "c_Srv (set_req r g c) = c_Srv c" "c_Msize (set_req r g c) = c_Msize c"
  "c_Dotu (set_req r g c) = c_Dotu c" "c_fnew (set_req r g c) = c_fnew c"
  "c_fidpool (set_req r g c) = c_fidpool c" "c_fids (set_req r g c) = c_fids c"
  "c_rnew (set_req r g c) = c_rnew c" "c_reqs (set_req r g c) = c_reqs c"
  "c_reqout (set_req r g c) = c_reqout c" "c_runq (set_req r g c) = c_runq c"
  "c_rchan (set_req r g c) = c_rchan c" "c_fs (set_req r g c) = c_fs c"
  by (simp_all add: set_req_def)

subsection \<open>The fid table: FidGet, FidNew, IncRef, DecRef\<close>

text \<open>
  What a file server may provide for the end of a request: \<open>FidOps\<close> and the second half of
  \<open>ReqProcessOps\<close>.  They are called from within \<open>Respond\<close>, the other operations are not.
\<close>

record ('a, 's) RespOps =
  op_FidDestroy :: "(nat \<Rightarrow> ('a, 's) action) option"
  op_ReqRespond :: "(nat \<Rightarrow> ('a, 's) action) option"

definition IncRef :: "nat \<Rightarrow> ('a, 's) Conn \<Rightarrow> ('a, 's) Conn" where
  "IncRef a c = set_fid a (\<lambda>f. f\<lparr>fid_refcount := fid_refcount f + 1\<rparr>) c"

definition DecRef :: "('a, 's, 'z) RespOps_scheme \<Rightarrow> nat \<Rightarrow> ('a, 's) action" where
  "DecRef ops a c = do {
     let c = set_fid a (\<lambda>f. f\<lparr>fid_refcount := fid_refcount f - 1\<rparr>) c;
     let n = fid_refcount (c_fids c a);
     if n > 0 then Some c
     else do {
       let c = c\<lparr>c_fidpool := AList.delete (fid_fid (c_fids c a)) (c_fidpool c)\<rparr>;
       (case op_FidDestroy ops of Some destroy \<Rightarrow> destroy a c | None \<Rightarrow> Some c) } }"

definition FidGet :: "u32 \<Rightarrow> ('a, 's) Conn \<Rightarrow> nat option \<times> ('a, 's) Conn" where
  "FidGet fidno c = (case map_of (c_fidpool c) fidno of
     Some a \<Rightarrow> (Some a, IncRef a c)
   | None \<Rightarrow> (None, c))"

definition FidNew :: "u32 \<Rightarrow> ('a, 's) Conn \<Rightarrow> nat option \<times> ('a, 's) Conn" where
  "FidNew fidno c = (case map_of (c_fidpool c) fidno of
     Some _ \<Rightarrow> (None, c)
   | None \<Rightarrow> (let a = c_fnew c in
       (Some a, c\<lparr>c_fids := (c_fids c)(a := zero_Fid\<lparr>fid_fid := fidno, fid_refcount := 1\<rparr>),
                  c_fnew := Suc a, c_fidpool := AList.update fidno a (c_fidpool c)\<rparr>)))"

end
