(* ===== verification/Srv_Respond.thy ===== *)
theory Srv_Respond
  imports Srv_State
begin

section \<open>Responding to a request (p/srv/respond.go; Respond, PostProcess, Flush of p/srv/srv.go)\<close>

text \<open>
  Every function is an \<open>action\<close>: it takes the connection and returns it changed, or \<open>None\<close> when the
  code panics or does not return.  \<open>ops\<close> is the file server implementation.
\<close>

subsection \<open>Post-handlers and PostProcess\<close>

text \<open>\<open>req.Rc\<close> is set by \<open>recv\<close> and never nil.  A method call or field access on a nil \<open>Fid\<close> panics.\<close>

definition authPost :: "nat \<Rightarrow> ('a, 's) action" where
  "authPost r c = (if fc_Type (req_Rc (c_heap c r)) = Rauth then do {
       a \<leftarrow> req_Afid (c_heap c r);
       Some (IncRef a c) }
     else Some c)"

definition attachPost :: "nat \<Rightarrow> ('a, 's) action" where
  "attachPost r c = (if fc_Type (req_Rc (c_heap c r)) = Rattach then do {
       a \<leftarrow> req_Fid (c_heap c r);
       let c = set_fid a (\<lambda>f. f\<lparr>fid_Type := qid_Type (fc_Qid (req_Rc (c_heap c r)))\<rparr>) c;
       Some (IncRef a c) }
     else Some c)"

definition walkPost :: "nat \<Rightarrow> ('a, 's) action" where
  "walkPost r c = (let rc = req_Rc (c_heap c r); tc = req_Tc (c_heap c r) in
     if fc_Type rc \<noteq> Rwalk then Some c
     else (case req_Newfid (c_heap c r) of
         None \<Rightarrow> Some c
       | Some nf \<Rightarrow> do {
           let n = length (fc_Wqid rc);
           c \<leftarrow> (if n > 0 then Some (set_fid nf (\<lambda>f. f\<lparr>fid_Type := qid_Type (fc_Wqid rc ! (n - 1))\<rparr>) c)
                 else do {
                   a \<leftarrow> req_Fid (c_heap c r);
                   Some (set_fid nf (\<lambda>f. f\<lparr>fid_Type := fid_Type (c_fids c a)\<rparr>) c) });
           if n \<noteq> length (fc_Wname tc) then Some c
           else do {
             a \<leftarrow> req_Fid (c_heap c r);
             if fid_fid (c_fids c nf) \<noteq> fid_fid (c_fids c a) then Some (IncRef nf c) else Some c } }))"

definition openPost :: "nat \<Rightarrow> ('a, 's) action" where
  "openPost r c = (case req_Fid (c_heap c r) of
     Some a \<Rightarrow> Some (set_fid a (\<lambda>f. f\<lparr>fid_opened := (fc_Type (req_Rc (c_heap c r)) = Ropen)\<rparr>) c)
   | None \<Rightarrow> Some c)"

definition createPost :: "nat \<Rightarrow> ('a, 's) action" where
  "createPost r c = (let rc = req_Rc (c_heap c r) in
     case req_Fid (c_heap c r) of
       Some a \<Rightarrow> if fc_Type rc = Rcreate then
           Some (set_fid a (\<lambda>f. f\<lparr>fid_Type := qid_Type (fc_Qid rc), fid_opened := True\<rparr>) c)
         else Some c
     | None \<Rightarrow> Some c)"

definition readPost :: "nat \<Rightarrow> ('a, 's) action" where
  "readPost r c = (let rc = req_Rc (c_heap c r) in
     if fc_Type rc = Rread then do {
       a \<leftarrow> req_Fid (c_heap c r);
       if fid_Type (c_fids c a) AND QTDIR \<noteq> 0 then
         Some (set_fid a (\<lambda>f. f\<lparr>fid_Diroffset := fid_Diroffset f + ucast (fc_Count rc)\<rparr>) c)
       else Some c }
     else Some c)"

definition clunkPost :: "('a, 's, 'z) RespOps_scheme \<Rightarrow> nat \<Rightarrow> ('a, 's) action" where
  "clunkPost ops r c = (if fc_Type (req_Rc (c_heap c r)) = Rclunk then
       (case req_Fid (c_heap c r) of Some a \<Rightarrow> DecRef ops a c | None \<Rightarrow> Some c)
     else Some c)"

definition removePost :: "('a, 's, 'z) RespOps_scheme \<Rightarrow> nat \<Rightarrow> ('a, 's) action" where
  "removePost ops r c = (case req_Fid (c_heap c r) of Some a \<Rightarrow> DecRef ops a c | None \<Rightarrow> Some c)"

definition post_handler :: "('a, 's, 'z) RespOps_scheme \<Rightarrow> nat \<Rightarrow> ('a, 's) action" where
  "post_handler ops r c = (let t = fc_Type (req_Tc (c_heap c r)) in
     if t = Tauth then authPost r c
     else if t = Tattach then attachPost r c
     else if t = Twalk then walkPost r c
     else if t = Topen then openPost r c
     else if t = Tcreate then createPost r c
     else if t = Tread then readPost r c
     else if t = Tclunk then clunkPost ops r c
     else if t = Tremove then removePost ops r c
     else Some c)"

text \<open>\<open>if req.Fid != nil { req.Fid.DecRef(); req.Fid = nil }\<close> for one of the three fids.\<close>

definition drop_slot :: "('a, 's, 'z) RespOps_scheme \<Rightarrow> (Req \<Rightarrow> nat option)
    \<Rightarrow> ((nat option \<Rightarrow> nat option) \<Rightarrow> Req \<Rightarrow> Req) \<Rightarrow> nat \<Rightarrow> ('a, 's) action" where
  "drop_slot ops slot upd r c = (case slot (c_heap c r) of
     Some a \<Rightarrow> do {
       c \<leftarrow> DecRef ops a c;
       Some (set_req r (upd (\<lambda>_. None)) c) }
   | None \<Rightarrow> Some c)"

definition PostProcess :: "('a, 's, 'z) RespOps_scheme \<Rightarrow> nat \<Rightarrow> ('a, 's) action" where
  "PostProcess ops r c = do {
     c \<leftarrow> post_handler ops r c;
     c \<leftarrow> drop_slot ops req_Fid req_Fid_update r c;
     c \<leftarrow> drop_slot ops req_Afid req_Afid_update r c;
     drop_slot ops req_Newfid req_Newfid_update r c }"

subsection \<open>Respond\<close>

text \<open>
  The loop that looks for the last flush request of the next request: \<open>p\<close> after the loop.  The fuel
  is the number of requests, so it only runs out on a cyclic list, on which the loop does not end.
\<close>

fun last_flush :: "nat \<Rightarrow> (nat \<Rightarrow> Req) \<Rightarrow> nat option \<Rightarrow> nat option \<Rightarrow> nat option option" where
  "last_flush n h p None = Some p"
| "last_flush 0 h p (Some r) = None"
| "last_flush (Suc n) h p (Some r) = last_flush n h (Some r) (req_flushreq (h r))"

text \<open>Taking the request out of its tag group; the result is \<open>nextreq\<close> and \<open>flushreqs\<close>.\<close>

definition unlink_req :: "nat \<Rightarrow> ('a, 's) Conn \<Rightarrow> (('a, 's) Conn \<times> nat option \<times> nat option) option" where
  "unlink_req r c = (case req_prev (c_heap c r) of
     Some nextreq \<Rightarrow> do {
       let c = set_req nextreq (\<lambda>q. q\<lparr>req_next := None\<rparr>) c;
       c \<leftarrow> (case req_flushreq (c_heap c r) of
           None \<Rightarrow> Some c
         | Some f \<Rightarrow> do {
             p \<leftarrow> last_flush (c_rnew c) (c_heap c) None (req_flushreq (c_heap c nextreq));
             (case p of
                None \<Rightarrow> Some (set_req nextreq (\<lambda>q. q\<lparr>req_flushreq := Some f\<rparr>) c)
              | Some p \<Rightarrow> Some (set_req p (\<lambda>q. q\<lparr>req_next := Some f\<rparr>) c)) });
       Some (c, Some nextreq, None) }
   | None \<Rightarrow>
       Some (c\<lparr>c_reqs := AList.delete (fc_Tag (req_Tc (c_heap c r))) (c_reqs c)\<rparr>, None,
             req_flushreq (c_heap c r)))"

text \<open>\<open>Respond\<close> up to its last loop; \<open>None\<close> as the list of flushes when it returned early.\<close>

definition respond_head :: "('a, 's, 'z) RespOps_scheme \<Rightarrow> nat \<Rightarrow> ('a, 's) Conn
    \<Rightarrow> (('a, 's) Conn \<times> nat option) option" where
  "respond_head ops r c = do {
     let status = req_status (c_heap c r);
     let c = set_req r (\<lambda>q. q\<lparr>req_status := insert reqResponded (req_status q) - {reqWork}\<rparr>) c;
     if reqResponded \<in> status then Some (c, None)
     else do {
       (c, nextreq, flushreqs) \<leftarrow> unlink_req r c;
       c \<leftarrow> (case op_ReqRespond ops of Some f \<Rightarrow> f r c | None \<Rightarrow> PostProcess ops r c);
       let c = (if reqFlush \<notin> status then c\<lparr>c_reqout := c_reqout c @ [r]\<rparr> else c);
       let c = (case nextreq of Some n \<Rightarrow> c\<lparr>c_runq := c_runq c @ [n]\<rparr> | None \<Rightarrow> c);
       Some (c, flushreqs) } }"

text \<open>\<open>Respond\<close> and its last loop call each other.\<close>

fun Respond_fuel :: "nat \<Rightarrow> ('a, 's, 'z) RespOps_scheme \<Rightarrow> nat \<Rightarrow> ('a, 's) action"
  and respond_flushes :: "nat \<Rightarrow> ('a, 's, 'z) RespOps_scheme \<Rightarrow> nat option \<Rightarrow> ('a, 's) action" where
  "Respond_fuel 0 ops r c = None"
| "Respond_fuel (Suc n) ops r c = do {
     (c, flushreqs) \<leftarrow> respond_head ops r c;
     respond_flushes n ops flushreqs c }"
| "respond_flushes n ops None c = Some c"
| "respond_flushes 0 ops (Some freq) c = None"
| "respond_flushes (Suc n) ops (Some freq) c = do {
     c \<leftarrow> Respond_fuel n ops freq c;
     respond_flushes n ops (req_flushreq (c_heap c freq)) c }"

definition Respond :: "('a, 's, 'z) RespOps_scheme \<Rightarrow> nat \<Rightarrow> ('a, 's) action" where
  "Respond ops r c = Respond_fuel (2 * c_rnew c + 2) ops r c"

definition Flush :: "('a, 's, 'z) RespOps_scheme \<Rightarrow> nat \<Rightarrow> ('a, 's) action" where
  "Flush ops r c = Respond ops r (set_req r (\<lambda>q. q\<lparr>req_status := insert reqFlush (req_status q)\<rparr>) c)"

subsection \<open>The RespondR functions\<close>

text \<open>A packing function that returns an error leaves \<open>req.Rc\<close> as it was.\<close>

definition set_Rc :: "nat \<Rightarrow> Fcall \<Rightarrow> ('a, 's) Conn \<Rightarrow> ('a, 's) Conn" where
  "set_Rc r rc = set_req r (\<lambda>q. q\<lparr>req_Rc := rc\<rparr>)"

lemma set_Rc_simps [simp]:
  "c_heap (set_Rc r rc c) = (c_heap c)(r := (c_heap c r)\<lparr>req_Rc := rc\<rparr>)"
  "c_Srv (set_Rc r rc c) = c_Srv c" "c_Msize (set_Rc r rc c) = c_Msize c"
  "c_Dotu (set_Rc r rc c) = c_Dotu c" "c_fnew (set_Rc r rc c) = c_fnew c"
  "c_fidpool (set_Rc r rc c) = c_fidpool c" "c_fids (set_Rc r rc c) = c_fids c"
  "c_rnew (set_Rc r rc c) = c_rnew c" "c_reqs (set_Rc r rc c) = c_reqs c"
  "c_reqout (set_Rc r rc c) = c_reqout c" "c_runq (set_Rc r rc c) = c_runq c"
  "c_rchan (set_Rc r rc c) = c_rchan c" "c_fs (set_Rc r rc c) = c_fs c"
  by (simp_all add: set_Rc_def)

definition RespondError :: "('a, 's, 'z) RespOps_scheme \<Rightarrow> nat \<Rightarrow> go_error \<Rightarrow> ('a, 's) action" where
  "RespondError ops r err c = do {
     let rc = req_Rc (c_heap c r);
     p \<leftarrow> (case err of
         PErr e \<Rightarrow> PackRerror rc (Error_Error (Some e)) (err_Errornum e) (c_Dotu c)
       | OtherErr s \<Rightarrow> PackRerror rc s EIO (c_Dotu c));
     Respond ops r (case p of Inl _ \<Rightarrow> c | Inr rc \<Rightarrow> set_Rc r rc c) }"

text \<open>\<open>err := p.PackR\<dots>(req.Rc, \<dots>); if err != nil { req.RespondError(err) } else { req.Respond() }\<close>\<close>

definition respond_with :: "('a, 's, 'z) RespOps_scheme \<Rightarrow> nat \<Rightarrow> (Fcall \<Rightarrow> (perror + Fcall) option)
    \<Rightarrow> ('a, 's) action" where
  "respond_with ops r pack c = do {
     p \<leftarrow> pack (req_Rc (c_heap c r));
     (case p of
        Inl err \<Rightarrow> RespondError ops r (PErr err) c
      | Inr rc \<Rightarrow> Respond ops r (set_Rc r rc c)) }"

definition RespondRversion :: "('a, 's, 'z) RespOps_scheme \<Rightarrow> nat \<Rightarrow> u32 \<Rightarrow> string \<Rightarrow> ('a, 's) action" where
  "RespondRversion ops r msize version = respond_with ops r (\<lambda>rc. PackRversion rc msize version)"

definition RespondRauth :: "('a, 's, 'z) RespOps_scheme \<Rightarrow> nat \<Rightarrow> Qid \<Rightarrow> ('a, 's) action" where
  "RespondRauth ops r aqid = respond_with ops r (\<lambda>rc. PackRauth rc aqid)"

definition RespondRflush :: "('a, 's, 'z) RespOps_scheme \<Rightarrow> nat \<Rightarrow> ('a, 's) action" where
  "RespondRflush ops r = respond_with ops r PackRflush"

definition RespondRattach :: "('a, 's, 'z) RespOps_scheme \<Rightarrow> nat \<Rightarrow> Qid \<Rightarrow> ('a, 's) action" where
  "RespondRattach ops r aqid = respond_with ops r (\<lambda>rc. PackRattach rc aqid)"

definition RespondRwalk :: "('a, 's, 'z) RespOps_scheme \<Rightarrow> nat \<Rightarrow> Qid list \<Rightarrow> ('a, 's) action" where
  "RespondRwalk ops r wqids = respond_with ops r (\<lambda>rc. PackRwalk rc wqids)"

definition RespondRopen :: "('a, 's, 'z) RespOps_scheme \<Rightarrow> nat \<Rightarrow> Qid \<Rightarrow> u32 \<Rightarrow> ('a, 's) action" where
  "RespondRopen ops r qid iounit = respond_with ops r (\<lambda>rc. PackRopen rc qid iounit)"

definition RespondRcreate :: "('a, 's, 'z) RespOps_scheme \<Rightarrow> nat \<Rightarrow> Qid \<Rightarrow> u32 \<Rightarrow> ('a, 's) action" where
  "RespondRcreate ops r qid iounit = respond_with ops r (\<lambda>rc. PackRcreate rc qid iounit)"

definition RespondRread :: "('a, 's, 'z) RespOps_scheme \<Rightarrow> nat \<Rightarrow> bytes \<Rightarrow> ('a, 's) action" where
  "RespondRread ops r data = respond_with ops r (\<lambda>rc. PackRread rc data)"

definition RespondRwrite :: "('a, 's, 'z) RespOps_scheme \<Rightarrow> nat \<Rightarrow> u32 \<Rightarrow> ('a, 's) action" where
  "RespondRwrite ops r count = respond_with ops r (\<lambda>rc. PackRwrite rc count)"

definition RespondRclunk :: "('a, 's, 'z) RespOps_scheme \<Rightarrow> nat \<Rightarrow> ('a, 's) action" where
  "RespondRclunk ops r = respond_with ops r PackRclunk"

definition RespondRremove :: "('a, 's, 'z) RespOps_scheme \<Rightarrow> nat \<Rightarrow> ('a, 's) action" where
  "RespondRremove ops r = respond_with ops r PackRremove"

definition RespondRstat :: "('a, 's, 'z) RespOps_scheme \<Rightarrow> nat \<Rightarrow> Dir \<Rightarrow> ('a, 's) action" where
  "RespondRstat ops r st c = respond_with ops r (\<lambda>rc. PackRstat rc st (c_Dotu c)) c"

definition RespondRwstat :: "('a, 's, 'z) RespOps_scheme \<Rightarrow> nat \<Rightarrow> ('a, 's) action" where
  "RespondRwstat ops r = respond_with ops r PackRwstat"

end
