(* ===== verification/Srv_Handlers.thy ===== *)
theory Srv_Handlers
  imports Srv_Respond
begin

section \<open>The message handlers (p/srv/fcall.go; Process, process of p/srv/srv.go)\<close>

text \<open>
  The file server implementation is a record of actions, one per method of \<open>ReqOps\<close>, and optional
  ones for the interfaces it may implement (\<open>AuthOps\<close>, \<open>FlushOp\<close>, the first half of
  \<open>ReqProcessOps\<close>).  \<open>AuthRead\<close> gets the length of the data slice and returns the bytes it stored
  there and its count.
\<close>

record ('a, 's) AuthOps =
  au_Init :: "nat \<Rightarrow> string \<Rightarrow> ('a, 's) Conn \<Rightarrow> ((go_error + Qid) \<times> ('a, 's) Conn) option"
  au_Destroy :: "nat \<Rightarrow> ('a, 's) action"
  au_Check :: "nat \<Rightarrow> nat option \<Rightarrow> string \<Rightarrow> ('a, 's) Conn \<Rightarrow> (go_error option \<times> ('a, 's) Conn) option"
  au_Read :: "nat \<Rightarrow> u64 \<Rightarrow> nat \<Rightarrow> ('a, 's) Conn \<Rightarrow> ((go_error + nat \<times> bytes) \<times> ('a, 's) Conn) option"
  au_Write :: "nat \<Rightarrow> u64 \<Rightarrow> bytes \<Rightarrow> ('a, 's) Conn \<Rightarrow> ((go_error + nat) \<times> ('a, 's) Conn) option"

record ('a, 's) Ops = "('a, 's) RespOps" +
  op_ReqProcess :: "(nat \<Rightarrow> ('a, 's) action) option"
  op_Flush :: "(nat \<Rightarrow> ('a, 's) action) option"
  op_Auth :: "('a, 's) AuthOps option"
  op_Attach :: "nat \<Rightarrow> ('a, 's) action"
  op_Walk :: "nat \<Rightarrow> ('a, 's) action"
  op_Open :: "nat \<Rightarrow> ('a, 's) action"
  op_Create :: "nat \<Rightarrow> ('a, 's) action"
  op_Read :: "nat \<Rightarrow> ('a, 's) action"
  op_Write :: "nat \<Rightarrow> ('a, 's) action"
  op_Clunk :: "nat \<Rightarrow> ('a, 's) action"
  op_Remove :: "nat \<Rightarrow> ('a, 's) action"
  op_Stat :: "nat \<Rightarrow> ('a, 's) action"
  op_Wstat :: "nat \<Rightarrow> ('a, 's) action"

abbreviation reject :: "('a, 's, 'z) Ops_scheme \<Rightarrow> nat \<Rightarrow> perror \<Rightarrow> ('a, 's) action" where
  "reject ops r e \<equiv> RespondError ops r (PErr e)"

subsection \<open>Start\<close>

definition Start :: "Srv \<Rightarrow> Srv" where
  "Start srv = (if srv_Msize srv < IOHDRSZ then srv\<lparr>srv_Msize := MSIZE\<rparr> else srv)"

subsection \<open>Tversion\<close>

text \<open>The requests of one tag group from the newest on, along \<open>next\<close>; fuel as in \<^const>\<open>last_flush\<close>.\<close>

fun mark_group :: "nat \<Rightarrow> nat option \<Rightarrow> ('a, 's) action" where
  "mark_group n None c = Some c"
| "mark_group 0 (Some r) c = None"
| "mark_group (Suc n) (Some r) c =
     mark_group n (req_next (c_heap c r)) (set_req r (\<lambda>q. q\<lparr>req_status := insert reqFlush (req_status q)\<rparr>) c)"

fun mark_all :: "(u16 \<times> nat) list \<Rightarrow> ('a, 's) action" where
  "mark_all [] c = Some c"
| "mark_all ((tag, r) # rs) c =
     (if tag = NOTAG then mark_all rs c else do { c \<leftarrow> mark_group (c_rnew c) (Some r) c; mark_all rs c })"

definition version :: "('a, 's, 'z) Ops_scheme \<Rightarrow> nat \<Rightarrow> ('a, 's) action" where
  "version ops r c = (let tc = req_Tc (c_heap c r) in
     if fc_Msize tc < IOHDRSZ then reject ops r (Error ''msize too small'' EINVAL) c
     else do {
       let c = (if fc_Msize tc < c_Msize c then c\<lparr>c_Msize := fc_Msize tc\<rparr> else c);
       let c = c\<lparr>c_Dotu := (fc_Version tc = ''9P2000.u'' \<and> srv_Dotu (c_Srv c))\<rparr>;
       let ver = (if c_Dotu c then ''9P2000.u'' else ''9P2000'');
       c \<leftarrow> mark_all (c_reqs c) c;
       RespondRversion ops r (c_Msize c) ver c })"

subsection \<open>Tauth and Tattach\<close>

definition find_user :: "Fcall \<Rightarrow> ('a, 's) Conn \<Rightarrow> User option" where
  "find_user tc c = (let up = srv_Upool (c_Srv c) in
     if fc_Unamenum tc \<noteq> NOUID \<or> c_Dotu c then up_Uid2User up (int (unat (fc_Unamenum tc)))
     else if fc_Uname tc \<noteq> '''' then up_Uname2User up (fc_Uname tc)
     else None)"

definition auth :: "('a, 's, 'z) Ops_scheme \<Rightarrow> nat \<Rightarrow> ('a, 's) action" where
  "auth ops r c = (let tc = req_Tc (c_heap c r) in
     if fc_Afid tc = NOFID then reject ops r Eunknownfid c
     else (case FidNew (fc_Afid tc) c of
         (None, c) \<Rightarrow> reject ops r Einuse (set_req r (\<lambda>q. q\<lparr>req_Afid := None\<rparr>) c)
       | (Some a, c) \<Rightarrow>
           let c = set_req r (\<lambda>q. q\<lparr>req_Afid := Some a\<rparr>) c in
           (case find_user tc c of
              None \<Rightarrow> reject ops r Enouser c
            | Some user \<Rightarrow>
                let c = set_fid a (\<lambda>f. f\<lparr>fid_User := Some user, fid_Type := QTAUTH\<rparr>) c in
                (case op_Auth ops of
                   None \<Rightarrow> reject ops r Enoauth c
                 | Some aop \<Rightarrow> do {
                     (res, c) \<leftarrow> au_Init aop a (fc_Aname tc) c;
                     (case res of
                        Inl err \<Rightarrow> RespondError ops r err c
                      | Inr aqid \<Rightarrow> RespondRauth ops r (aqid\<lparr>qid_Type := qid_Type aqid OR QTAUTH\<rparr>) c) }))))"

text \<open>
  An unknown \<open>afid\<close> is answered with an error, and the function goes on; \<open>req.Fid\<close> is nil then.
\<close>

definition attach_user :: "('a, 's, 'z) Ops_scheme \<Rightarrow> nat \<Rightarrow> ('a, 's) action" where
  "attach_user ops r c = (let tc = req_Tc (c_heap c r) in
     (case find_user tc c of
        None \<Rightarrow> reject ops r Enouser c
      | Some user \<Rightarrow> do {
          a \<leftarrow> req_Fid (c_heap c r);
          let c = set_fid a (\<lambda>f. f\<lparr>fid_User := Some user\<rparr>) c;
          (case op_Auth ops of
             None \<Rightarrow> op_Attach ops r c
           | Some aop \<Rightarrow> do {
               (err, c) \<leftarrow> au_Check aop a (req_Afid (c_heap c r)) (fc_Aname tc) c;
               (case err of Some e \<Rightarrow> RespondError ops r e c | None \<Rightarrow> op_Attach ops r c) }) }))"

definition attach :: "('a, 's, 'z) Ops_scheme \<Rightarrow> nat \<Rightarrow> ('a, 's) action" where
  "attach ops r c = (let tc = req_Tc (c_heap c r) in
     if fc_Fid tc = NOFID then reject ops r Eunknownfid c
     else (case FidNew (fc_Fid tc) c of
         (None, c) \<Rightarrow> reject ops r Einuse (set_req r (\<lambda>q. q\<lparr>req_Fid := None\<rparr>) c)
       | (Some a, c) \<Rightarrow> do {
           let c = set_req r (\<lambda>q. q\<lparr>req_Fid := Some a\<rparr>) c;
           c \<leftarrow> (if fc_Afid tc \<noteq> NOFID then
                  (case FidGet (fc_Afid tc) c of
                     (None, c) \<Rightarrow> reject ops r Eunknownfid (set_req r (\<lambda>q. q\<lparr>req_Afid := None\<rparr>) c)
                   | (Some af, c) \<Rightarrow> Some (set_req r (\<lambda>q. q\<lparr>req_Afid := Some af\<rparr>) c))
                else Some c);
           attach_user ops r c }))"

subsection \<open>Tflush\<close>

text \<open>Finding the request with the old tag, the newest of its group, and flushing it.\<close>

definition flush_old :: "('a, 's, 'z) Ops_scheme \<Rightarrow> nat \<Rightarrow> ('a, 's) action" where
  "flush_old ops r c = (case map_of (c_reqs c) (fc_Oldtag (req_Tc (c_heap c r))) of
     None \<Rightarrow> Respond ops r c
   | Some old \<Rightarrow>
       let c = set_req r (\<lambda>q. q\<lparr>req_flushreq := req_flushreq (c_heap c old)\<rparr>) c;
           c = set_req old (\<lambda>q. q\<lparr>req_flushreq := Some r\<rparr>) c;
           status = req_status (c_heap c old)
       in if reqWork \<notin> status \<and> reqSaved \<notin> status then
            Respond ops old (set_req old (\<lambda>q. q\<lparr>req_status := insert reqFlush (req_status q)\<rparr>) c)
          else (case op_Flush ops of Some f \<Rightarrow> f old c | None \<Rightarrow> Some c))"

definition flush :: "('a, 's, 'z) Ops_scheme \<Rightarrow> nat \<Rightarrow> ('a, 's) action" where
  "flush ops r c = do {
     p \<leftarrow> PackRflush (req_Rc (c_heap c r));
     flush_old ops r (case p of Inl _ \<Rightarrow> c | Inr rc \<Rightarrow> set_Rc r rc c) }"

subsection \<open>Handlers of messages with a fid\<close>

text \<open>They run with \<open>req.Fid\<close> set; \<open>the_fid\<close> is its address.\<close>

definition with_fid :: "nat \<Rightarrow> (nat \<Rightarrow> ('a, 's) action) \<Rightarrow> ('a, 's) action" where
  "with_fid r f c = Option.bind (req_Fid (c_heap c r)) (\<lambda>a. f a c)"

definition walk :: "('a, 's, 'z) Ops_scheme \<Rightarrow> nat \<Rightarrow> ('a, 's) action" where
  "walk ops r = with_fid r (\<lambda>a c. let tc = req_Tc (c_heap c r); fid = c_fids c a in
     if length (fc_Wname tc) > 0 \<and> fid_Type fid AND QTDIR = 0 then reject ops r Enotdir c
     else if fid_opened fid then reject ops r Ebaduse c
     else if fc_Fid tc \<noteq> fc_Newfid tc then
       (case FidNew (fc_Newfid tc) c of
          (None, c) \<Rightarrow> reject ops r Einuse (set_req r (\<lambda>q. q\<lparr>req_Newfid := None\<rparr>) c)
        | (Some nf, c) \<Rightarrow>
            op_Walk ops r (set_fid nf (\<lambda>f. f\<lparr>fid_User := fid_User (c_fids c a), fid_Type := fid_Type (c_fids c a)\<rparr>)
              (set_req r (\<lambda>q. q\<lparr>req_Newfid := Some nf\<rparr>) c)))
     else op_Walk ops r (IncRef a (set_req r (\<lambda>q. q\<lparr>req_Newfid := Some a\<rparr>) c)))"

definition open_srv :: "('a, 's, 'z) Ops_scheme \<Rightarrow> nat \<Rightarrow> ('a, 's) action" where
  "open_srv ops r = with_fid r (\<lambda>a c. let tc = req_Tc (c_heap c r); fid = c_fids c a in
     if fid_opened fid then reject ops r Eopen c
     else if fid_Type fid AND QTDIR \<noteq> 0 \<and> fc_Mode tc \<noteq> OREAD then reject ops r Eperm c
     else op_Open ops r (set_fid a (\<lambda>f. f\<lparr>fid_Omode := fc_Mode tc\<rparr>) c))"

definition create :: "('a, 's, 'z) Ops_scheme \<Rightarrow> nat \<Rightarrow> ('a, 's) action" where
  "create ops r = with_fid r (\<lambda>a c. let tc = req_Tc (c_heap c r); fid = c_fids c a in
     if fid_opened fid then reject ops r Eopen c
     else if fid_Type fid AND QTDIR = 0 then reject ops r Enotdir c
     else if fc_Perm tc AND DMDIR \<noteq> 0 \<and> fc_Mode tc \<noteq> OREAD then reject ops r Eperm c
     else if fc_Perm tc AND (DMNAMEDPIPE OR DMSYMLINK OR DMLINK OR DMDEVICE OR DMSOCKET) \<noteq> 0 \<and> \<not> c_Dotu c
       then reject ops r Eperm c
     else op_Create ops r (set_fid a (\<lambda>f. f\<lparr>fid_Omode := fc_Mode tc\<rparr>) c))"

definition auth_read :: "('a, 's, 'z) Ops_scheme \<Rightarrow> nat \<Rightarrow> nat \<Rightarrow> ('a, 's) action" where
  "auth_read ops r a c = (let tc = req_Tc (c_heap c r) in do {
     p \<leftarrow> InitRread (req_Rc (c_heap c r)) (fc_Count tc);
     (case p of
        Inl err \<Rightarrow> reject ops r err c
      | Inr rc \<Rightarrow> (let c = set_Rc r rc c in
          (case op_Auth ops of
             None \<Rightarrow> reject ops r Enotimpl c
           | Some aop \<Rightarrow> do {
               (res, c) \<leftarrow> au_Read aop a (fc_Offset tc) (length (fc_Data rc)) c;
               (case res of
                  Inl err \<Rightarrow> RespondError ops r err c
                | Inr (n, data) \<Rightarrow> do {
                    rc \<leftarrow> SetRreadCount (copy_Data (req_Rc (c_heap c r)) data) (of_nat n);
                    Respond ops r (set_Rc r rc c) }) }))) })"

definition read :: "('a, 's, 'z) Ops_scheme \<Rightarrow> nat \<Rightarrow> ('a, 's) action" where
  "read ops r = with_fid r (\<lambda>a c. let tc = req_Tc (c_heap c r); fid = c_fids c a in
     if fc_Count tc + IOHDRSZ > c_Msize c then reject ops r Etoolarge c
     else if fid_Type fid AND QTAUTH \<noteq> 0 then auth_read ops r a c
     else if fid_Type fid AND QTDIR \<noteq> 0 \<and> fc_Offset tc = 0 then
       op_Read ops r (set_fid a (\<lambda>f. f\<lparr>fid_Diroffset := 0\<rparr>) c)
     else if fid_Type fid AND QTDIR \<noteq> 0 \<and> fc_Offset tc \<noteq> fid_Diroffset fid then reject ops r Ebadoffset c
     else op_Read ops r c)"

definition write_srv :: "('a, 's, 'z) Ops_scheme \<Rightarrow> nat \<Rightarrow> ('a, 's) action" where
  "write_srv ops r = with_fid r (\<lambda>a c. let tc = req_Tc (c_heap c r); fid = c_fids c a in
     if fid_Type fid AND QTAUTH \<noteq> 0 then
       (case op_Auth ops of
          None \<Rightarrow> reject ops r Enotimpl c
        | Some aop \<Rightarrow> do {
            (res, c) \<leftarrow> au_Write aop a (fc_Offset tc) (fc_Data tc) c;
            (case res of
               Inl err \<Rightarrow> RespondError ops r err c
             | Inr n \<Rightarrow> RespondRwrite ops r (of_nat n) c) })
     else if \<not> fid_opened fid \<or> fid_Type fid AND QTDIR \<noteq> 0 \<or> fid_Omode fid AND 3 = OREAD then
       reject ops r Ebaduse c
     else if fc_Count tc + IOHDRSZ > c_Msize c then reject ops r Etoolarge c
     else op_Write ops r c)"

definition clunk :: "('a, 's, 'z) Ops_scheme \<Rightarrow> nat \<Rightarrow> ('a, 's) action" where
  "clunk ops r = with_fid r (\<lambda>a c. let fid = c_fids c a in
     if fid_Type fid AND QTAUTH \<noteq> 0 then
       (case op_Auth ops of
          None \<Rightarrow> reject ops r Enotimpl c
        | Some aop \<Rightarrow> do { c \<leftarrow> au_Destroy aop a c; RespondRclunk ops r c })
     else op_Clunk ops r c)"

definition remove :: "('a, 's, 'z) Ops_scheme \<Rightarrow> nat \<Rightarrow> ('a, 's) action" where
  "remove ops r = op_Remove ops r"

definition stat :: "('a, 's, 'z) Ops_scheme \<Rightarrow> nat \<Rightarrow> ('a, 's) action" where
  "stat ops r = op_Stat ops r"

definition wstat :: "('a, 's, 'z) Ops_scheme \<Rightarrow> nat \<Rightarrow> ('a, 's) action" where
  "wstat ops r = op_Wstat ops r"

subsection \<open>Process and process\<close>

definition dispatch :: "('a, 's, 'z) Ops_scheme \<Rightarrow> nat \<Rightarrow> ('a, 's) action" where
  "dispatch ops r c = (let t = fc_Type (req_Tc (c_heap c r)) in
     if t = Tversion then version ops r c
     else if t = Tauth then auth ops r c
     else if t = Tattach then attach ops r c
     else if t = Tflush then flush ops r c
     else if req_Fid (c_heap c r) = None then reject ops r Eunknownfid c
     else if t = Twalk then walk ops r c
     else if t = Topen then open_srv ops r c
     else if t = Tcreate then create ops r c
     else if t = Tread then read ops r c
     else if t = Twrite then write_srv ops r c
     else if t = Tclunk then clunk ops r c
     else if t = Tremove then remove ops r c
     else if t = Tstat then stat ops r c
     else if t = Twstat then wstat ops r c
     else reject ops r (Error ''unknown message type'' ENOSYS) c)"

definition Process :: "('a, 's, 'z) Ops_scheme \<Rightarrow> nat \<Rightarrow> ('a, 's) action" where
  "Process ops r c = (let tc = req_Tc (c_heap c r) in
     if fc_Fid tc \<noteq> NOFID \<and> fc_Type tc \<noteq> Tattach then
       (case FidGet (fc_Fid tc) c of
          (None, c) \<Rightarrow> reject ops r Eunknownfid (set_req r (\<lambda>q. q\<lparr>req_Fid := None\<rparr>) c)
        | (Some a, c) \<Rightarrow> dispatch ops r (set_req r (\<lambda>q. q\<lparr>req_Fid := Some a\<rparr>) c))
     else dispatch ops r c)"

text \<open>A flushed request is answered first, and then processed like any other.\<close>

definition process :: "('a, 's, 'z) Ops_scheme \<Rightarrow> nat \<Rightarrow> ('a, 's) action" where
  "process ops r c = do {
     c \<leftarrow> (if reqFlush \<in> req_status (c_heap c r) then Respond ops r c
           else Some (set_req r (\<lambda>q. q\<lparr>req_status := insert reqWork (req_status q)\<rparr>) c));
     c \<leftarrow> (case op_ReqProcess ops of Some f \<Rightarrow> f r c | None \<Rightarrow> Process ops r c);
     let c = set_req r (\<lambda>q. q\<lparr>req_status := req_status q - {reqWork}\<rparr>) c;
     Some (if reqResponded \<notin> req_status (c_heap c r)
           then set_req r (\<lambda>q. q\<lparr>req_status := insert reqSaved (req_status q)\<rparr>) c else c) }"

end
