(* ===== verification/Srv_Conn.thy ===== *)
theory Srv_Conn
  imports Srv_Handlers P9_Unpack
begin

section \<open>The two ends of a connection: recv and send (p/srv/conn.go)\<close>

text \<open>
  \<open>recv\<close> owns a buffer whose first \<open>pos\<close> bytes have been received; the rest holds what was there
  before.  One call of \<open>recv_read\<close> is one round of its outer loop with the bytes that \<open>Read\<close>
  returned, and \<open>recv_loop\<close> the inner loop, which cuts the messages off the buffer and makes requests
  of them.  \<open>send\<close> takes one request from \<open>reqout\<close> and returns the bytes written to the client.
\<close>

definition NewConn :: "Srv \<Rightarrow> 's \<Rightarrow> ('a, 's) Conn" where
  "NewConn srv fs = \<lparr>c_Srv = srv, c_Msize = srv_Msize srv, c_Dotu = srv_Dotu srv,
     c_fids = (\<lambda>_. zero_Fid), c_fnew = 0, c_fidpool = [], c_heap = (\<lambda>_. zero_Req), c_rnew = 0,
     c_reqs = [], c_reqout = [], c_runq = [], c_rchan = [], c_nreqs = 0, c_tsz = 0, c_rsz = 0,
     c_npend = 0, c_maxpend = 0, c_fs = fs\<rparr>"

text \<open>The response buffer of a new request: a used one if there is one.\<close>

definition take_rc :: "('a, 's) Conn \<Rightarrow> Fcall \<times> ('a, 's) Conn" where
  "take_rc c = (case c_rchan c of
     rc # rest \<Rightarrow> (rc, c\<lparr>c_rchan := rest\<rparr>)
   | [] \<Rightarrow> (NewFcall (c_Msize c), c))"

definition new_req :: "Fcall \<Rightarrow> ('a, 's) Conn \<Rightarrow> ('a, 's) Conn" where
  "new_req fc c = (let tag = fc_Tag fc; (rc, c) = take_rc c; r = c_rnew c;
       next = map_of (c_reqs c) tag;
       c = c\<lparr>c_rnew := Suc r,
         c_heap := (c_heap c)(r := zero_Req\<lparr>req_Tc := fc, req_Rc := rc, req_next := next\<rparr>),
         c_nreqs := c_nreqs c + 1, c_tsz := c_tsz c + ucast (fc_Size fc),
         c_npend := c_npend c + 1, c_maxpend := max (c_maxpend c) (c_npend c + 1),
         c_reqs := AList.update tag r (c_reqs c)\<rparr>
     in case next of
          Some q \<Rightarrow> set_req q (\<lambda>x. x\<lparr>req_prev := Some r\<rparr>) c
        | None \<Rightarrow> c\<lparr>c_runq := c_runq c @ [r]\<rparr>)"

datatype recv_result = Again bytes nat | Closed

text \<open>\<open>b := make([]byte, conn.Msize*8); copy(b, buf[0:pos])\<close>\<close>

definition regrow :: "u32 \<Rightarrow> bytes \<Rightarrow> nat \<Rightarrow> bytes" where
  "regrow msize buf pos = go_copy (replicate (unat (msize * 8)) 0) (take pos buf)"

function recv_loop :: "bytes \<Rightarrow> nat \<Rightarrow> ('a, 's) Conn \<Rightarrow> (recv_result \<times> ('a, 's) Conn) option" where
  "recv_loop buf pos c = (if pos \<le> 4 then Some (Again buf pos, c)
     else do {
       (sz, _) \<leftarrow> Gint32 buf;
       if sz > c_Msize c then Some (Closed, c)
       else if pos < unat sz then
         Some (Again (if length buf < unat sz then regrow (c_Msize c) buf pos else buf) pos, c)
       else do {
         u \<leftarrow> Unpack buf (c_Dotu c);
         (case u of
            Inl _ \<Rightarrow> Some (Closed, c)
          | Inr (fc, fcsize) \<Rightarrow>
              (if fcsize = 0 then None
               else recv_loop (drop fcsize buf) (pos - fcsize) (new_req fc c))) } })"
  by pat_completeness auto
termination by (relation "measure (\<lambda>(buf, pos, c). pos)") auto

text \<open>One round: the buffer is enlarged if the rest of it is shorter than a message may be, \<open>Read\<close>
  stores a chunk behind \<open>pos\<close>, and the complete messages are taken out.\<close>

definition recv_read :: "bytes \<Rightarrow> bytes \<Rightarrow> nat \<Rightarrow> ('a, 's) Conn \<Rightarrow> (recv_result \<times> ('a, 's) Conn) option" where
  "recv_read chunk buf pos c = (let buf = (if length buf < unat (c_Msize c) then regrow (c_Msize c) buf pos else buf) in
     if chunk = [] \<or> length buf < pos + length chunk then None
     else recv_loop (take pos buf @ chunk @ drop (pos + length chunk) buf) (pos + length chunk) c)"

text \<open>The end of \<open>recv\<close>: \<open>FidDestroy\<close> for every fid still in the table.\<close>

fun destroy_all :: "('a, 's, 'z) RespOps_scheme \<Rightarrow> (u32 \<times> nat) list \<Rightarrow> ('a, 's) action" where
  "destroy_all ops [] c = Some c"
| "destroy_all ops ((n, a) # fs) c = (case op_FidDestroy ops of
     Some destroy \<Rightarrow> do { c \<leftarrow> destroy a c; destroy_all ops fs c }
   | None \<Rightarrow> Some c)"

definition recv_closed :: "('a, 's, 'z) RespOps_scheme \<Rightarrow> ('a, 's) action" where
  "recv_closed ops c = destroy_all ops (c_fidpool c) c"

definition send :: "('a, 's) Conn \<Rightarrow> (bytes \<times> ('a, 's) Conn) option" where
  "send c = (case c_reqout c of
     [] \<Rightarrow> None
   | r # rest \<Rightarrow> do {
       rc \<leftarrow> SetTag (req_Rc (c_heap c r)) (fc_Tag (req_Tc (c_heap c r)));
       let c = set_Rc r rc (c\<lparr>c_reqout := rest\<rparr>);
       let c = c\<lparr>c_rsz := c_rsz c + ucast (fc_Size rc), c_npend := c_npend c - 1\<rparr>;
       let c = (if length (c_rchan c) < 64 then c\<lparr>c_rchan := c_rchan c @ [rc]\<rparr> else c);
       Some (fc_Pkt rc, c) })"

end
