(* ===== verification/Srv_Once.thy ===== *)
theory Srv_Once
  imports Srv_Conn
begin

section \<open>No request is answered twice\<close>

text \<open>
  The contract between the server library and a file server implementation, and what the library
  guarantees from it.  \<open>progress c c'\<close> is what every action may do to the responses: append to
  \<open>reqout\<close> requests that were not responded to before and are now, each once; the mark
  \<^const>\<open>reqResponded\<close> is never taken back.  \<open>good\<close> says that the pointers between requests point to
  allocated requests.
\<close>

definition responded :: "('a, 's) Conn \<Rightarrow> nat \<Rightarrow> bool" where
  "responded c r \<longleftrightarrow> reqResponded \<in> req_status (c_heap c r)"

definition links :: "Req \<Rightarrow> nat set" where
  "links q = set_option (req_flushreq q) \<union> set_option (req_prev q) \<union> set_option (req_next q)"

definition good :: "('a, 's) Conn \<Rightarrow> bool" where
  "good c \<longleftrightarrow> (\<forall>r. links (c_heap c r) \<subseteq> {..<c_rnew c}) \<and> snd ` set (c_reqs c) \<subseteq> {..<c_rnew c}
     \<and> (\<forall>r. responded c r \<longrightarrow> r < c_rnew c) \<and> set (c_runq c) \<subseteq> {..<c_rnew c}"

definition progress :: "('a, 's) Conn \<Rightarrow> ('a, 's) Conn \<Rightarrow> bool" where
  "progress c c' \<longleftrightarrow> c_rnew c' = c_rnew c \<and> (\<forall>r. responded c r \<longrightarrow> responded c' r)
     \<and> (\<exists>xs. c_reqout c' = c_reqout c @ xs \<and> distinct xs
          \<and> (\<forall>r\<in>set xs. \<not> responded c r \<and> responded c' r))"

lemma progress_refl [simp]: "progress c c"
  by (simp add: progress_def)

lemma progress_trans: "progress a b \<Longrightarrow> progress b c \<Longrightarrow> progress a c"
  unfolding progress_def
proof (elim conjE exE, intro conjI)
  fix xs ys
  assume 1: "\<forall>r. responded a r \<longrightarrow> responded b r" "\<forall>r. responded b r \<longrightarrow> responded c r"
    and 2: "c_reqout b = c_reqout a @ xs" "c_reqout c = c_reqout b @ ys" "distinct xs" "distinct ys"
    and 3: "\<forall>r\<in>set xs. \<not> responded a r \<and> responded b r" "\<forall>r\<in>set ys. \<not> responded b r \<and> responded c r"
  show "\<exists>zs. c_reqout c = c_reqout a @ zs \<and> distinct zs \<and> (\<forall>r\<in>set zs. \<not> responded a r \<and> responded c r)"
    using 1 2 3 by (intro exI [of _ "xs @ ys"]) auto
qed auto

text \<open>States that differ only in what \<open>good\<close> and \<open>progress\<close> do not look at.\<close>

definition quiet :: "('a, 's) Conn \<Rightarrow> ('a, 's) Conn \<Rightarrow> bool" where
  "quiet c c' \<longleftrightarrow> c_rnew c' = c_rnew c \<and> c_reqout c' = c_reqout c \<and> c_reqs c' = c_reqs c
     \<and> c_runq c' = c_runq c \<and> (\<forall>r. links (c_heap c' r) = links (c_heap c r)
     \<and> (responded c' r \<longleftrightarrow> responded c r))"

lemma quiet_good: "quiet c c' \<Longrightarrow> good c \<Longrightarrow> good c'"
  by (simp add: quiet_def good_def)

lemma quiet_progress: "quiet c c' \<Longrightarrow> progress c c'"
  by (auto simp: quiet_def progress_def)

text \<open>\<open>steps c x\<close>: if the action that was started in \<open>c\<close> has the result \<open>x\<close>, it kept the contract;
  \<open>steps_res\<close> the same for actions that also return a value.\<close>

definition steps :: "('a, 's) Conn \<Rightarrow> ('a, 's) Conn option \<Rightarrow> bool" where
  "steps c x \<longleftrightarrow> (good c \<longrightarrow> (\<forall>c'. x = Some c' \<longrightarrow> good c' \<and> progress c c'))"

definition steps_res :: "('a, 's) Conn \<Rightarrow> ('b \<times> ('a, 's) Conn) option \<Rightarrow> bool" where
  "steps_res c x \<longleftrightarrow> (good c \<longrightarrow> (\<forall>b c'. x = Some (b, c') \<longrightarrow> good c' \<and> progress c c'))"

lemma steps_None [simp]: "steps c None"
  by (simp add: steps_def)

lemma steps_Some: "quiet c d \<Longrightarrow> steps c (Some d)"
  by (simp add: steps_def quiet_good quiet_progress)

lemma steps_quiet: "quiet c d \<Longrightarrow> steps d x \<Longrightarrow> steps c x"
  unfolding steps_def by (blast intro: quiet_good quiet_progress progress_trans)

lemma steps_bind:
  assumes "steps c m" "\<And>d. c_rnew d = c_rnew c \<Longrightarrow> steps d (f d)"
  shows "steps c (Option.bind m f)"
  unfolding steps_def
proof (intro impI allI)
  fix c' assume g: "good c" and "Option.bind m f = Some c'"
  then obtain d where d: "m = Some d" "f d = Some c'" by (cases m) auto
  then have 1: "good d" "progress c d" using assms(1) g by (auto simp: steps_def)
  then have "c_rnew d = c_rnew c" by (simp add: progress_def)
  then have "steps d (f d)" by (rule assms(2))
  then have "good c'" "progress d c'" using d(2) 1(1) by (simp_all add: steps_def)
  with 1 show "good c' \<and> progress c c'" by (blast intro: progress_trans)
qed

lemma steps_res_bind:
  assumes "steps_res c m" "\<And>b d. c_rnew d = c_rnew c \<Longrightarrow> steps d (f (b, d))"
  shows "steps c (Option.bind m f)"
  unfolding steps_def
proof (intro impI allI)
  fix c' assume g: "good c" and "Option.bind m f = Some c'"
  then obtain b d where d: "m = Some (b, d)" "f (b, d) = Some c'" by (cases m) auto
  then have 1: "good d" "progress c d" using assms(1) g by (auto simp: steps_res_def)
  then have "c_rnew d = c_rnew c" by (simp add: progress_def)
  then have "steps d (f (b, d))" by (rule assms(2))
  then have "good c'" "progress d c'" using d(2) 1(1) by (simp_all add: steps_def)
  with 1 show "good c' \<and> progress c c'" by (blast intro: progress_trans)
qed

lemma steps_pure_bind: "(\<And>x. steps c (f x)) \<Longrightarrow> steps c (Option.bind m f)"
  by (cases m) simp_all

lemma steps_if: "(b \<Longrightarrow> steps c x) \<Longrightarrow> (\<not> b \<Longrightarrow> steps c y) \<Longrightarrow> steps c (if b then x else y)"
  by simp

lemma steps_case_option:
  "(z = None \<Longrightarrow> steps c x) \<Longrightarrow> (\<And>a. z = Some a \<Longrightarrow> steps c (y a)) \<Longrightarrow> steps c (case z of None \<Rightarrow> x | Some a \<Rightarrow> y a)"
  by (cases z) simp_all

lemma steps_case_sum:
  "(\<And>a. z = Inl a \<Longrightarrow> steps c (x a)) \<Longrightarrow> (\<And>a. z = Inr a \<Longrightarrow> steps c (y a)) \<Longrightarrow>
   steps c (case z of Inl a \<Rightarrow> x a | Inr a \<Rightarrow> y a)"
  by (cases z) simp_all

lemma quiet_refl [simp]: "quiet c c"
  by (simp add: quiet_def)

lemma quiet_trans: "quiet a b \<Longrightarrow> quiet b c \<Longrightarrow> quiet a c"
  by (simp add: quiet_def)

lemma quiet_set_fid [simp]: "quiet c (set_fid a f d) = quiet c d"
  by (simp add: quiet_def responded_def)

lemma quiet_IncRef [simp]: "quiet c (IncRef a d) = quiet c d"
  by (simp add: IncRef_def)

lemma quiet_set_req_iff:
  assumes "links (f (c_heap d r)) = links (c_heap d r)"
    and "reqResponded \<in> req_status (f (c_heap d r)) \<longleftrightarrow> reqResponded \<in> req_status (c_heap d r)"
  shows "quiet c (set_req r f d) = quiet c d"
proof -
  have "links (c_heap (set_req r f d) x) = links (c_heap d x)"
    "responded (set_req r f d) x = responded d x" for x
    using assms by (simp_all add: responded_def)
  then show ?thesis unfolding quiet_def by (simp del: set_req_simps(1))
qed

lemma quiet_set_req:
  "links (f (c_heap c r)) = links (c_heap c r) \<Longrightarrow>
   reqResponded \<in> req_status (f (c_heap c r)) \<longleftrightarrow> reqResponded \<in> req_status (c_heap c r) \<Longrightarrow>
   quiet c (set_req r f c)"
  by (simp add: quiet_set_req_iff)

lemma quiet_set_Rc [simp]: "quiet c (set_Rc r rc d) = quiet c d"
  unfolding set_Rc_def by (rule quiet_set_req_iff) (simp_all add: links_def)

lemma quiet_set_slot [simp]:
  "quiet c (set_req r (req_Fid_update f) d) = quiet c d"
  "quiet c (set_req r (req_Afid_update f) d) = quiet c d"
  "quiet c (set_req r (req_Newfid_update f) d) = quiet c d"
  by (rule quiet_set_req_iff; simp add: links_def)+

lemma quiet_status:
  "s \<noteq> reqResponded \<Longrightarrow> quiet c (set_req r (\<lambda>q. q\<lparr>req_status := insert s (req_status q)\<rparr>) c)"
  "s \<noteq> reqResponded \<Longrightarrow> quiet c (set_req r (\<lambda>q. q\<lparr>req_status := req_status q - {s}\<rparr>) c)"
  by (rule quiet_set_req; simp add: links_def)+

lemma quiet_status_iff [simp]:
  "s \<noteq> reqResponded \<Longrightarrow> quiet c (set_req r (\<lambda>q. q\<lparr>req_status := insert s (req_status q)\<rparr>) d) = quiet c d"
  "s \<noteq> reqResponded \<Longrightarrow> quiet c (set_req r (\<lambda>q. q\<lparr>req_status := req_status q - {s}\<rparr>) d) = quiet c d"
  by (rule quiet_set_req_iff; simp add: links_def)+

lemma quiet_fidpool [simp]: "quiet c (d\<lparr>c_fidpool := p\<rparr>) = quiet c d"
  by (simp add: quiet_def responded_def)

lemma quiet_fids [simp]: "quiet c (d\<lparr>c_fids := p\<rparr>) = quiet c d" "quiet c (d\<lparr>c_fnew := n\<rparr>) = quiet c d"
  "quiet c (d\<lparr>c_Msize := m\<rparr>) = quiet c d" "quiet c (d\<lparr>c_Dotu := b\<rparr>) = quiet c d"
  "quiet c (d\<lparr>c_fs := s\<rparr>) = quiet c d" "quiet c (d\<lparr>c_rchan := x\<rparr>) = quiet c d"
  by (simp_all add: quiet_def responded_def)

lemma quiet_FidNew [simp]: "quiet c (snd (FidNew n c))"
  by (simp add: FidNew_def Let_def split: option.splits)

lemma quiet_FidGet [simp]: "quiet c (snd (FidGet n c))"
  by (simp add: FidGet_def split: option.splits)

lemma rnew_FidNew [simp]: "c_rnew (snd (FidNew n c)) = c_rnew c"
  by (simp add: FidNew_def Let_def split: option.splits)

lemma rnew_FidGet [simp]: "c_rnew (snd (FidGet n c)) = c_rnew c"
  by (simp add: FidGet_def IncRef_def split: option.splits)

lemma quiet_res_bind:
  assumes "quiet c d" "steps_res d m" "\<And>res e. c_rnew e = c_rnew c \<Longrightarrow> steps e (f (res, e))"
  shows "steps c (Option.bind m f)"
  using assms by (intro steps_quiet [OF assms(1)] steps_res_bind) (auto simp: quiet_def)

subsection \<open>The end of a request\<close>

text \<open>What a file server may do when it is called from \<open>Respond\<close>.\<close>

locale responder =
  fixes ops :: "('a, 's, 'z) RespOps_scheme"
  assumes destroy_steps: "op_FidDestroy ops = Some f \<Longrightarrow> steps c (f a c)"
    and respond_steps: "op_ReqRespond ops = Some f \<Longrightarrow> r < c_rnew c \<Longrightarrow> steps c (f r c)"
begin

lemma steps_DecRef: "steps c (DecRef ops a c)"
  unfolding DecRef_def Let_def
  by (rule steps_if; (rule steps_Some)?; (rule steps_quiet [rotated], rule steps_case_option)?)
     (auto intro: destroy_steps steps_Some)

lemma steps_drop_slot:
  assumes "\<And>f (d :: ('a, 's) Conn). quiet d (set_req r (upd f) d)"
  shows "steps c (drop_slot ops slot upd r c)"
  unfolding drop_slot_def
  by (rule steps_case_option) (auto intro!: steps_Some steps_bind steps_DecRef assms)

lemma steps_post_handler: "steps c (post_handler ops r c)"
proof -
  have "steps c (authPost r c)" "steps c (attachPost r c)" "steps c (openPost r c)"
    "steps c (createPost r c)" "steps c (readPost r c)"
    by (auto simp: authPost_def attachPost_def openPost_def createPost_def readPost_def Let_def
        intro!: steps_if steps_pure_bind steps_Some steps_case_option)
  moreover have "steps c (walkPost r c)"
    by (auto simp: walkPost_def Let_def
        intro!: steps_if steps_bind steps_pure_bind steps_Some steps_case_option)
  moreover have "steps c (clunkPost ops r c)" "steps c (removePost ops r c)"
    by (auto simp: clunkPost_def removePost_def intro!: steps_if steps_case_option steps_DecRef steps_Some)
  ultimately show ?thesis by (simp add: post_handler_def Let_def steps_Some)
qed

lemma steps_PostProcess: "steps c (PostProcess ops r c)"
  unfolding PostProcess_def
  by (intro steps_bind steps_post_handler steps_drop_slot) simp_all

end

lemma good_links: "good c \<Longrightarrow> req_flushreq (c_heap c r) = Some x \<Longrightarrow> x < c_rnew c"
  "good c \<Longrightarrow> req_prev (c_heap c r) = Some x \<Longrightarrow> x < c_rnew c"
  "good c \<Longrightarrow> req_next (c_heap c r) = Some x \<Longrightarrow> x < c_rnew c"
  by (force simp: good_def links_def)+

lemma good_reqs: "good c \<Longrightarrow> map_of (c_reqs c) t = Some x \<Longrightarrow> x < c_rnew c"
  by (force simp: good_def dest: map_of_SomeD)

lemma good_set_req:
  assumes "good c" "links (f (c_heap c r)) \<subseteq> {..<c_rnew c}"
    and "reqResponded \<in> req_status (f (c_heap c r)) \<Longrightarrow> r < c_rnew c"
  shows "good (set_req r f c)"
  using assms by (auto simp: good_def responded_def)

lemma responded_set_req: "responded (set_req r f c) x \<longleftrightarrow>
    (if x = r then reqResponded \<in> req_status (f (c_heap c r)) else responded c x)"
  by (simp add: responded_def)

lemma good_delete_reqs: "good c \<Longrightarrow> good (c\<lparr>c_reqs := AList.delete t (c_reqs c)\<rparr>)"
  by (auto simp: good_def responded_def AList.delete_eq)

lemma responded_set_link [simp]:
  "responded (set_req p (\<lambda>q. q\<lparr>req_flushreq := y\<rparr>) c) x = responded c x"
  "responded (set_req p (\<lambda>q. q\<lparr>req_next := y\<rparr>) c) x = responded c x"
  "responded (set_req p (\<lambda>q. q\<lparr>req_prev := y\<rparr>) c) x = responded c x"
  by (simp_all add: responded_def)

lemma good_set_link:
  assumes "good c" "f < c_rnew c"
  shows "good (set_req p (\<lambda>q. q\<lparr>req_flushreq := Some f\<rparr>) c)" "good (set_req p (\<lambda>q. q\<lparr>req_next := Some f\<rparr>) c)"
    "good (set_req p (\<lambda>q. q\<lparr>req_prev := Some f\<rparr>) c)"
proof -
  have "links (c_heap c p) \<subseteq> {..<c_rnew c}" "reqResponded \<in> req_status (c_heap c p) \<Longrightarrow> p < c_rnew c"
    using assms(1) by (auto simp: good_def responded_def)
  then show "good (set_req p (\<lambda>q. q\<lparr>req_flushreq := Some f\<rparr>) c)"
    "good (set_req p (\<lambda>q. q\<lparr>req_next := Some f\<rparr>) c)" "good (set_req p (\<lambda>q. q\<lparr>req_prev := Some f\<rparr>) c)"
    using assms by (auto simp: links_def intro!: good_set_req)
qed

lemma unlink_req_keeps:
  assumes "unlink_req r c = Some (d, nx, fl)" "good c"
  shows "good d \<and> c_rnew d = c_rnew c \<and> c_reqout d = c_reqout c \<and> (\<forall>x. responded d x \<longleftrightarrow> responded c x)
    \<and> set_option nx \<union> set_option fl \<subseteq> {..<c_rnew c}"
proof (cases "req_prev (c_heap c r)")
  case None
  then show ?thesis
    using assms good_links(1) [OF assms(2)] good_delete_reqs [OF assms(2)]
    by (auto simp: unlink_req_def responded_def)
next
  case (Some n)
  let ?c = "set_req n (\<lambda>q. q\<lparr>req_next := None\<rparr>) c"
  have n: "n < c_rnew c" using good_links(2) [OF assms(2) Some] .
  have g: "good ?c"
    using assms(2) by (intro good_set_req) (auto simp: good_def links_def responded_def)
  have rs: "responded ?c x \<longleftrightarrow> responded c x" for x by (simp add: responded_set_req) (simp add: responded_def)
  show ?thesis
  proof (cases "req_flushreq (c_heap ?c r)")
    case None
    then show ?thesis
      using assms(1) \<open>req_prev (c_heap c r) = Some n\<close> n g rs by (auto simp: unlink_req_def)
  next
    case (Some f)
    then obtain p where p: "last_flush (c_rnew ?c) (c_heap ?c) None (req_flushreq (c_heap ?c n)) = Some p"
        and d: "d = (case p of None \<Rightarrow> set_req n (\<lambda>q. q\<lparr>req_flushreq := Some f\<rparr>) ?c
                 | Some p \<Rightarrow> set_req p (\<lambda>q. q\<lparr>req_next := Some f\<rparr>) ?c)" "nx = Some n" "fl = None"
      using assms(1) \<open>req_prev (c_heap c r) = Some n\<close>
      by (auto simp: unlink_req_def Let_def split: Option.bind_splits option.splits)
    have "f < c_rnew c" using good_links(1) [OF g Some] by simp
    then have "good d"
      using good_set_link [OF g, of f] unfolding d(1) by (cases p) simp_all
    moreover have "c_rnew d = c_rnew c" "c_reqout d = c_reqout c" "\<And>x. responded d x = responded c x"
      using rs unfolding d(1) by (cases p; simp)+
    ultimately show ?thesis using n d(2,3) by simp
  qed
qed

context responder
begin

lemma respond_head_steps:
  assumes h: "respond_head ops r c = Some (c', fl)" and g: "good c" and r: "r < c_rnew c"
  shows "good c' \<and> progress c c' \<and> responded c' r \<and> set_option fl \<subseteq> {..<c_rnew c}"
proof -
  let ?d = "set_req r (\<lambda>q. q\<lparr>req_status := insert reqResponded (req_status q) - {reqWork}\<rparr>) c"
  have gd: "good ?d" using g r by (intro good_set_req) (auto simp: good_def links_def)
  have rd: "responded ?d x \<longleftrightarrow> x = r \<or> responded c x" for x by (simp add: responded_def)
  show ?thesis
  proof (cases "responded c r")
    case True
    then have "c' = ?d" "fl = None" using h by (auto simp: respond_head_def responded_def Let_def)
    then show ?thesis using gd rd True by (auto simp: progress_def)
  next
    case False
    then obtain e nx f where u: "unlink_req r ?d = Some (e, nx, fl)"
        and f: "(case op_ReqRespond ops of Some f \<Rightarrow> f r e | None \<Rightarrow> PostProcess ops r e) = Some f"
        and c': "c' = (let c = (if reqFlush \<notin> req_status (c_heap c r) then f\<lparr>c_reqout := c_reqout f @ [r]\<rparr> else f)
            in case nx of Some n \<Rightarrow> c\<lparr>c_runq := c_runq c @ [n]\<rparr> | None \<Rightarrow> c)"
      using h by (auto simp: respond_head_def responded_def Let_def split: Option.bind_splits)
    have e: "good e" "c_rnew e = c_rnew c" "c_reqout e = c_reqout c" "\<And>x. responded e x = responded ?d x"
        "set_option nx \<union> set_option fl \<subseteq> {..<c_rnew c}"
      using unlink_req_keeps [OF u gd] by simp_all
    have "steps e (case op_ReqRespond ops of Some f \<Rightarrow> f r e | None \<Rightarrow> PostProcess ops r e)"
      using r e(2) by (intro steps_case_option steps_PostProcess) (auto intro: respond_steps)
    then have "good f" and p: "progress e f" using f e(1) by (auto simp: steps_def)
    then obtain xs where xs: "c_reqout f = c_reqout c @ xs" "distinct xs"
        "\<forall>x\<in>set xs. \<not> responded e x \<and> responded f x"
      using e(3) by (auto simp: progress_def)
    have rf: "\<And>x. responded e x \<Longrightarrow> responded f x" and n: "c_rnew f = c_rnew c"
      using p e(2) by (auto simp: progress_def)
    have "good c'" using \<open>good f\<close> n e(5) unfolding c'
      by (auto simp: Let_def good_def responded_def split: option.splits)
    moreover have "c_reqout c' = c_reqout c @ xs @ (if reqFlush \<notin> req_status (c_heap c r) then [r] else [])"
      "\<And>x. responded c' x = responded f x" "c_rnew c' = c_rnew c"
      using xs(1) n unfolding c' by (auto simp: Let_def responded_def split: option.splits)
    moreover have "r \<notin> set xs" using xs(3) e(4) rd by auto
    ultimately show ?thesis
      using xs(2,3) e(4,5) rd rf False unfolding progress_def
      by (intro conjI exI [of _ "xs @ (if reqFlush \<notin> req_status (c_heap c r) then [r] else [])"]) auto
  qed
qed

lemma Respond_fuel_steps:
  "(\<forall>r c. r < c_rnew c \<longrightarrow> steps c (Respond_fuel n ops r c))
   \<and> (\<forall>fl c. set_option fl \<subseteq> {..<c_rnew c} \<longrightarrow> steps c (respond_flushes n ops fl c))"
proof (induction n)
  case 0
  have "steps c (respond_flushes 0 ops fl c)" for fl c
    by (cases fl) (simp_all add: steps_Some)
  then show ?case by simp
next
  case (Suc n)
  have 1: "steps c (Respond_fuel (Suc n) ops r c)" if r: "r < c_rnew c" for r c
    unfolding steps_def
  proof (intro impI allI)
    fix c' assume g: "good c" and "Respond_fuel (Suc n) ops r c = Some c'"
    then obtain d fl where h: "respond_head ops r c = Some (d, fl)" and f: "respond_flushes n ops fl d = Some c'"
      by (auto split: Option.bind_splits)
    have d: "good d" "progress c d" "set_option fl \<subseteq> {..<c_rnew d}"
      using respond_head_steps [OF h g r] by (auto simp: progress_def)
    then have "steps d (respond_flushes n ops fl d)" using Suc.IH by blast
    then have "good c'" "progress d c'" using f d(1) by (auto simp: steps_def)
    with d(2) show "good c' \<and> progress c c'" by (blast intro: progress_trans)
  qed
  have 2: "steps c (respond_flushes (Suc n) ops fl c)" if fl: "set_option fl \<subseteq> {..<c_rnew c}" for fl c
  proof (cases fl)
    case None
    then show ?thesis by (simp add: steps_Some)
  next
    case (Some q)
    have "steps c (Respond_fuel n ops q c)" using fl Some Suc.IH by simp
    moreover have "steps d (respond_flushes n ops (req_flushreq (c_heap d q)) d)" for d
    proof -
      have "set_option (req_flushreq (c_heap d q)) \<subseteq> {..<c_rnew d}" if "good d"
        using that by (auto dest: good_links)
      then show ?thesis using Suc.IH by (cases "good d") (auto simp: steps_def)
    qed
    ultimately show ?thesis using Some by (simp add: steps_bind)
  qed
  from 1 2 show ?case by blast
qed

lemma steps_Respond: "r < c_rnew c \<Longrightarrow> steps c (Respond ops r c)"
  using Respond_fuel_steps [of "2 * c_rnew c + 2"] by (simp add: Respond_def)

lemma steps_Flush: "r < c_rnew c \<Longrightarrow> steps c (Flush ops r c)"
  unfolding Flush_def by (rule steps_quiet [OF quiet_status(1) [of reqFlush c r]]) (simp_all add: steps_Respond)

lemma steps_Respond_Rc: "r < c_rnew c \<Longrightarrow> steps c (Respond ops r (set_Rc r rc c))"
  by (rule steps_quiet [of c "set_Rc r rc c"]) (simp_all add: steps_Respond)

lemma steps_RespondError: "r < c_rnew c \<Longrightarrow> steps c (RespondError ops r err c)"
  unfolding RespondError_def Let_def
  by (intro steps_pure_bind) (auto split: sum.splits intro: steps_Respond steps_Respond_Rc)

lemma steps_respond_with: "r < c_rnew c \<Longrightarrow> steps c (respond_with ops r pack c)"
  unfolding respond_with_def
  by (intro steps_pure_bind steps_case_sum steps_RespondError steps_Respond_Rc)

lemma steps_RespondR:
  assumes "r < c_rnew c"
  shows "steps c (RespondRversion ops r m v c)" "steps c (RespondRauth ops r q c)"
    "steps c (RespondRflush ops r c)" "steps c (RespondRattach ops r q c)"
    "steps c (RespondRwalk ops r qs c)" "steps c (RespondRopen ops r q i c)"
    "steps c (RespondRcreate ops r q i c)" "steps c (RespondRread ops r b c)"
    "steps c (RespondRwrite ops r n c)" "steps c (RespondRclunk ops r c)"
    "steps c (RespondRremove ops r c)" "steps c (RespondRstat ops r d c)" "steps c (RespondRwstat ops r c)"
  using steps_respond_with [OF assms]
  by (simp_all add: RespondRversion_def RespondRauth_def RespondRflush_def RespondRattach_def
      RespondRwalk_def RespondRopen_def RespondRcreate_def RespondRread_def RespondRwrite_def
      RespondRclunk_def RespondRremove_def RespondRstat_def RespondRwstat_def)

end

subsection \<open>The handlers\<close>

text \<open>What a file server may do in its operations; \<^const>\<open>responder\<close> covers the calls from \<open>Respond\<close>.\<close>

locale file_server = responder ops for ops :: "('a, 's, 'z) Ops_scheme" +
  assumes process_steps: "op_ReqProcess ops = Some f \<Longrightarrow> r < c_rnew c \<Longrightarrow> steps c (f r c)"
    and flush_steps: "op_Flush ops = Some f \<Longrightarrow> r < c_rnew c \<Longrightarrow> steps c (f r c)"
    and auth_init_steps: "op_Auth ops = Some aop \<Longrightarrow> steps_res c (au_Init aop a aname c)"
    and auth_destroy_steps: "op_Auth ops = Some aop \<Longrightarrow> steps c (au_Destroy aop a c)"
    and auth_check_steps: "op_Auth ops = Some aop \<Longrightarrow> steps_res c (au_Check aop a af aname c)"
    and auth_read_steps: "op_Auth ops = Some aop \<Longrightarrow> steps_res c (au_Read aop a off n c)"
    and auth_write_steps: "op_Auth ops = Some aop \<Longrightarrow> steps_res c (au_Write aop a off data c)"
    and op_steps: "r < c_rnew c \<Longrightarrow> steps c (op_Attach ops r c)" "r < c_rnew c \<Longrightarrow> steps c (op_Walk ops r c)"
      "r < c_rnew c \<Longrightarrow> steps c (op_Open ops r c)" "r < c_rnew c \<Longrightarrow> steps c (op_Create ops r c)"
      "r < c_rnew c \<Longrightarrow> steps c (op_Read ops r c)" "r < c_rnew c \<Longrightarrow> steps c (op_Write ops r c)"
      "r < c_rnew c \<Longrightarrow> steps c (op_Clunk ops r c)" "r < c_rnew c \<Longrightarrow> steps c (op_Remove ops r c)"
      "r < c_rnew c \<Longrightarrow> steps c (op_Stat ops r c)" "r < c_rnew c \<Longrightarrow> steps c (op_Wstat ops r c)"
begin

lemma steps_mark_group: "steps c (mark_group n q c)"
proof (induction n q c rule: mark_group.induct)
  case (3 n r c)
  then show ?case using steps_quiet [OF quiet_status(1) [of reqFlush c r]] by simp
qed (simp_all add: steps_Some)

lemma steps_mark_all: "steps c (mark_all rs c)"
  by (induction rs arbitrary: c) (auto simp: steps_Some intro!: steps_bind steps_mark_group)

lemma steps_version:
  assumes "r < c_rnew c"
  shows "steps c (version ops r c)"
proof -
  let ?c = "if fc_Msize (req_Tc (c_heap c r)) < c_Msize c then c\<lparr>c_Msize := fc_Msize (req_Tc (c_heap c r))\<rparr> else c"
  let ?d = "?c\<lparr>c_Dotu := (fc_Version (req_Tc (c_heap c r)) = ''9P2000.u'' \<and> srv_Dotu (c_Srv ?c))\<rparr>"
  have "quiet c ?d" by simp
  moreover have "steps ?d (Option.bind (mark_all (c_reqs ?d) ?d) (\<lambda>c. RespondRversion ops r (c_Msize c) v c))" for v
    by (intro steps_bind steps_mark_all steps_RespondR) (use assms in simp)
  ultimately have "steps c (Option.bind (mark_all (c_reqs ?d) ?d) (\<lambda>c. RespondRversion ops r (c_Msize c) v c))" for v
    by (rule steps_quiet)
  then show ?thesis
    unfolding version_def Let_def by (intro steps_if steps_RespondError assms)
qed

lemma quiet_steps:
  assumes q: "quiet c d" and r: "r < c_rnew c"
  shows "steps c (RespondError ops r e d)" "steps c (RespondRauth ops r aq d)"
    "steps c (RespondRwrite ops r n d)" "steps c (RespondRclunk ops r d)" "steps c (Respond ops r d)"
    "steps c (op_Attach ops r d)" "steps c (op_Walk ops r d)" "steps c (op_Open ops r d)"
    "steps c (op_Create ops r d)" "steps c (op_Read ops r d)" "steps c (op_Write ops r d)"
    "steps c (op_Clunk ops r d)" "steps c (op_Remove ops r d)" "steps c (op_Stat ops r d)"
    "steps c (op_Wstat ops r d)"
proof -
  have "r < c_rnew d" using q r by (simp add: quiet_def)
  then show "steps c (RespondError ops r e d)" "steps c (RespondRauth ops r aq d)"
    "steps c (RespondRwrite ops r n d)" "steps c (RespondRclunk ops r d)" "steps c (Respond ops r d)"
    "steps c (op_Attach ops r d)" "steps c (op_Walk ops r d)" "steps c (op_Open ops r d)"
    "steps c (op_Create ops r d)" "steps c (op_Read ops r d)" "steps c (op_Write ops r d)"
    "steps c (op_Clunk ops r d)" "steps c (op_Remove ops r d)" "steps c (op_Stat ops r d)"
    "steps c (op_Wstat ops r d)"
    by (auto intro!: steps_quiet [OF q] steps_RespondError steps_RespondR op_steps steps_Respond)
qed

lemma steps_auth:
  assumes r: "r < c_rnew c"
  shows "steps c (auth ops r c)"
proof (cases "FidNew (fc_Afid (req_Tc (c_heap c r))) c")
  case (Pair x d)
  have d: "quiet c d" using quiet_FidNew [of c] Pair by (metis snd_conv)
  show ?thesis
    using r d unfolding auth_def Pair Let_def
    by (auto simp: quiet_steps steps_RespondError steps_RespondR split: option.split sum.split
        intro!: quiet_res_bind [OF _ auth_init_steps])
qed

lemma steps_attach_user:
  assumes r: "r < c_rnew c"
  shows "steps c (attach_user ops r c)"
proof -
  have "steps c (case op_Auth ops of None \<Rightarrow> op_Attach ops r d
      | Some aop \<Rightarrow> Option.bind (au_Check aop a af n d) (\<lambda>(err, c).
          case err of Some e \<Rightarrow> RespondError ops r e c | None \<Rightarrow> op_Attach ops r c))"
    if "quiet c d" for d a af n
    using r that by (auto simp: quiet_steps steps_RespondError op_steps split: option.split
      intro!: quiet_res_bind [OF _ auth_check_steps])
  note main = this
  show ?thesis
  proof (cases "find_user (req_Tc (c_heap c r)) c")
    case None
    then show ?thesis using r by (simp add: attach_user_def Let_def steps_RespondError)
  next
    case (Some u)
    then show ?thesis using main by (cases "req_Fid (c_heap c r)") (simp_all add: attach_user_def Let_def)
  qed
qed

lemma steps_attach:
  assumes r: "r < c_rnew c"
  shows "steps c (attach ops r c)"
proof (cases "FidNew (fc_Fid (req_Tc (c_heap c r))) c")
  case (Pair x d)
  have d: "quiet c d" using quiet_FidNew [of c] Pair by (metis snd_conv)
  have a: "quiet c e \<Longrightarrow> steps c (attach_user ops r e)" "c_rnew e = c_rnew c \<Longrightarrow> steps e (attach_user ops r e)" for e
    using steps_attach_user [of r e] r by (auto simp: quiet_def intro: steps_quiet)
  show ?thesis
  proof (cases x)
    case None
    then show ?thesis using r d by (simp add: attach_def Pair Let_def quiet_steps)
  next
    case (Some a)
    let ?e = "set_req r (\<lambda>q. q\<lparr>req_Fid := Some a\<rparr>) d"
    obtain y e where G: "FidGet (fc_Afid (req_Tc (c_heap c r))) ?e = (y, e)" by (cases "FidGet (fc_Afid (req_Tc (c_heap c r))) ?e")
    have "quiet ?e e" using quiet_FidGet [of ?e] G by (metis snd_conv)
    moreover have "quiet c ?e" using d by simp
    ultimately have e: "quiet c e" by (rule quiet_trans [rotated])
    show ?thesis
      using r d e a unfolding attach_def Pair Let_def Some option.case prod.case G
      by (auto simp: quiet_steps intro!: steps_bind steps_Some split: option.split)
  qed
qed

lemma steps_flush_old:
  assumes r: "r < c_rnew d"
  shows "steps d (flush_old ops r d)"
proof (cases "map_of (c_reqs d) (fc_Oldtag (req_Tc (c_heap d r)))")
  case None
  then show ?thesis using r by (simp add: flush_old_def steps_Respond)
next
  case (Some old)
  let ?e = "set_req old (\<lambda>q. q\<lparr>req_flushreq := Some r\<rparr>)
    (set_req r (\<lambda>q. q\<lparr>req_flushreq := req_flushreq (c_heap d old)\<rparr>) d)"
  show ?thesis
  proof (cases "good d")
    case g: True
    have old: "old < c_rnew d" using good_reqs [OF g Some] .
    have "good (set_req r (\<lambda>q. q\<lparr>req_flushreq := req_flushreq (c_heap d old)\<rparr>) d)"
    proof (cases "req_flushreq (c_heap d old)")
      case None
      then show ?thesis using g by (intro good_set_req) (auto simp: good_def links_def responded_def)
    next
      case (Some f)
      then show ?thesis using good_set_link [OF g, of f r] good_links(1) [OF g Some] by simp
    qed
    then have ge: "good ?e" using r by (intro good_set_link) simp_all
    have pe: "progress d ?e" by (simp add: progress_def)
    have "steps ?e (Respond ops old (set_req old (\<lambda>q. q\<lparr>req_status := insert reqFlush (req_status q)\<rparr>) ?e))"
      using steps_Flush [of old ?e] old unfolding Flush_def by simp
    moreover have "steps ?e (case op_Flush ops of Some f \<Rightarrow> f old ?e | None \<Rightarrow> Some ?e)"
      using old by (auto intro: flush_steps steps_Some split: option.split)
    ultimately have "steps ?e (flush_old ops r d)"
      unfolding flush_old_def Some option.case Let_def by (intro steps_if)
    then have "steps ?e (flush_old ops r d)" .
    then show ?thesis unfolding steps_def using ge progress_trans [OF pe] by simp
  qed (simp add: steps_def)
qed

lemma steps_flush:
  assumes r: "r < c_rnew c"
  shows "steps c (flush ops r c)"
proof (cases "PackRflush (req_Rc (c_heap c r))")
  case (Some p)
  let ?d = "case p of Inl _ \<Rightarrow> c | Inr rc \<Rightarrow> set_Rc r rc c"
  have "quiet c ?d" "r < c_rnew ?d" using r by (simp_all split: sum.split)
  then show ?thesis
    using steps_quiet [OF _ steps_flush_old] by (simp add: flush_def Some)
qed (simp add: flush_def)

lemma steps_walk:
  assumes r: "r < c_rnew c"
  shows "steps c (walk ops r c)"
proof (cases "FidNew (fc_Newfid (req_Tc (c_heap c r))) c")
  case (Pair x d)
  have d: "quiet c d" using quiet_FidNew [of c] Pair by (metis snd_conv)
  show ?thesis
    using r d unfolding walk_def with_fid_def Let_def Pair
    by (cases x; intro steps_pure_bind steps_if) (simp_all add: quiet_steps steps_RespondError)
qed

lemma steps_open_create:
  assumes "r < c_rnew c"
  shows "steps c (open_srv ops r c)" "steps c (create ops r c)"
  using assms unfolding open_srv_def create_def with_fid_def Let_def
  by (auto simp: quiet_steps steps_RespondError intro!: steps_pure_bind steps_if)

lemma steps_auth_read:
  assumes r: "r < c_rnew c"
  shows "steps c (auth_read ops r a c)"
proof (cases "InitRread (req_Rc (c_heap c r)) (fc_Count (req_Tc (c_heap c r)))")
  case (Some p)
  have k: "steps d (Option.bind (SetRreadCount rc n) (\<lambda>rc. Respond ops r (set_Rc r rc d)))"
    if "c_rnew d = c_rnew c" for d rc n
    using that r by (auto intro!: steps_pure_bind steps_Respond_Rc)
  show ?thesis
    using r k unfolding auth_read_def Let_def Some Option.bind.simps
    by (auto simp: quiet_steps steps_RespondError split: sum.split option.split
        intro!: quiet_res_bind [OF _ auth_read_steps])
qed (simp add: auth_read_def)

lemma steps_read_write_clunk:
  assumes "r < c_rnew c"
  shows "steps c (read ops r c)" "steps c (write_srv ops r c)" "steps c (clunk ops r c)"
proof -
  show "steps c (read ops r c)"
    using assms unfolding read_def with_fid_def Let_def
    by (auto simp: quiet_steps steps_RespondError steps_auth_read intro!: steps_pure_bind steps_if)
  show "steps c (write_srv ops r c)"
    unfolding write_srv_def with_fid_def Let_def
    by (insert assms, rule steps_pure_bind, intro steps_if steps_case_option)
       (auto simp: quiet_steps steps_RespondError steps_RespondR split: sum.split
         intro!: quiet_res_bind [OF _ auth_write_steps])
  show "steps c (clunk ops r c)"
    unfolding clunk_def with_fid_def Let_def
    by (insert assms, rule steps_pure_bind, intro steps_if steps_case_option)
       (auto simp: quiet_steps steps_RespondError steps_RespondR intro!: steps_bind auth_destroy_steps)
qed

lemma steps_dispatch:
  assumes "r < c_rnew c"
  shows "steps c (dispatch ops r c)"
  unfolding dispatch_def Let_def remove_def stat_def wstat_def
  by (intro steps_if steps_version steps_auth steps_attach steps_flush steps_walk steps_open_create
      steps_read_write_clunk steps_RespondError op_steps assms)

lemma steps_Process:
  assumes r: "r < c_rnew c"
  shows "steps c (Process ops r c)"
proof (cases "FidGet (fc_Fid (req_Tc (c_heap c r))) c")
  case (Pair x d)
  have d: "quiet c d" using quiet_FidGet [of c] Pair by (metis snd_conv)
  have "quiet c e \<Longrightarrow> steps c (dispatch ops r e)" for e
    using steps_dispatch [of r e] r by (auto simp: quiet_def intro: steps_quiet)
  then show ?thesis
    using r d unfolding Process_def Let_def Pair
    by (auto simp: quiet_steps steps_dispatch split: option.split)
qed

lemma steps_process:
  assumes r: "r < c_rnew c"
  shows "steps c (process ops r c)"
proof -
  have "steps c (if reqFlush \<in> req_status (c_heap c r) then Respond ops r c
      else Some (set_req r (\<lambda>q. q\<lparr>req_status := insert reqWork (req_status q)\<rparr>) c))"
    using r by (intro steps_if steps_Respond steps_Some quiet_status) simp_all
  moreover have "steps d (case op_ReqProcess ops of Some f \<Rightarrow> f r d | None \<Rightarrow> Process ops r d)"
    if "c_rnew d = c_rnew c" for d
    using that r by (auto intro: process_steps steps_Process split: option.split)
  moreover have "steps d (let c = set_req r (\<lambda>q. q\<lparr>req_status := req_status q - {reqWork}\<rparr>) d
      in Some (if reqResponded \<notin> req_status (c_heap c r)
           then set_req r (\<lambda>q. q\<lparr>req_status := insert reqSaved (req_status q)\<rparr>) c else c))" for d
    unfolding Let_def by (rule steps_Some) simp
  ultimately show ?thesis
    unfolding process_def Let_def by (intro steps_bind) (simp_all add: steps_Some)
qed

end

subsection \<open>The connection as a state machine\<close>

text \<open>
  The state is the connection and the requests whose response was sent, in this order.  A step is the
  arrival of a message, the start of a request that was handed to a goroutine (any of them), a response
  that the file server gives later to a request it kept, and the sending of a response.
\<close>

type_synonym ('a, 's) world = "('a, 's) Conn \<times> nat list"

inductive conn_step :: "('a, 's, 'z) Ops_scheme \<Rightarrow> ('a, 's) world \<Rightarrow> ('a, 's) world \<Rightarrow> bool"
  for ops where
  arrive: "conn_step ops (c, sent) (new_req fc c, sent)"
| run: "c_runq c = xs @ r # ys \<Longrightarrow> process ops r (c\<lparr>c_runq := xs @ ys\<rparr>) = Some c' \<Longrightarrow>
    conn_step ops (c, sent) (c', sent)"
| late: "r < c_rnew c \<Longrightarrow> Respond ops r (set_Rc r rc c) = Some c' \<Longrightarrow> conn_step ops (c, sent) (c', sent)"
| reply: "c_reqout c = r # rest \<Longrightarrow> send c = Some (b, c') \<Longrightarrow> conn_step ops (c, sent) (c', sent @ [r])"

inductive_cases conn_stepE: "conn_step ops w w'"

definition once_inv :: "('a, 's) world \<Rightarrow> bool" where
  "once_inv w \<longleftrightarrow> (case w of (c, sent) \<Rightarrow> good c \<and> distinct (sent @ c_reqout c)
     \<and> (\<forall>r\<in>set (sent @ c_reqout c). responded c r))"

lemma once_inv_progress:
  assumes "once_inv (c, sent)" "good c'" "progress c c'"
  shows "once_inv (c', sent)"
proof -
  obtain xs where xs: "c_reqout c' = c_reqout c @ xs" "distinct xs"
      "\<forall>r\<in>set xs. \<not> responded c r \<and> responded c' r" and m: "\<forall>r. responded c r \<longrightarrow> responded c' r"
    using assms(3) by (auto simp: progress_def)
  show ?thesis using assms(1,2) xs m by (auto simp: once_inv_def)
qed

lemma good_new_req:
  assumes g: "good c"
  shows "good (new_req fc c) \<and> c_reqout (new_req fc c) = c_reqout c
    \<and> (\<forall>r. responded (new_req fc c) r \<longleftrightarrow> r \<noteq> c_rnew c \<and> responded c r)"
proof -
  obtain rc d where t: "take_rc c = (rc, d)" by (cases "take_rc c")
  have "quiet c d" and h: "c_heap d = c_heap c"
    using t by (auto simp: take_rc_def split: list.splits)
  then have d: "good d" "c_rnew d = c_rnew c" "c_reqout d = c_reqout c" "\<And>r. responded d r = responded c r"
    using quiet_good [OF _ g] by (simp_all add: quiet_def)
  let ?r = "c_rnew d" and ?next = "map_of (c_reqs d) (fc_Tag fc)"
  let ?e = "d\<lparr>c_rnew := Suc ?r,
         c_heap := (c_heap d)(?r := zero_Req\<lparr>req_Tc := fc, req_Rc := rc, req_next := ?next\<rparr>),
         c_nreqs := c_nreqs d + 1, c_tsz := c_tsz d + ucast (fc_Size fc),
         c_npend := c_npend d + 1, c_maxpend := max (c_maxpend d) (c_npend d + 1),
         c_reqs := AList.update (fc_Tag fc) ?r (c_reqs d)\<rparr>"
  have n: "?next = Some q \<Longrightarrow> q < c_rnew c" for q using good_reqs [OF d(1)] d(2) by auto
  have u: "snd ` set (AList.update k v al) \<subseteq> insert v (snd ` set al)" for k :: u16 and v :: nat and al
    by (induction al) auto
  have e: "good ?e"
    unfolding good_def
  proof (intro conjI allI impI)
    fix r
    have "links (zero_Req\<lparr>req_Tc := fc, req_Rc := rc, req_next := ?next\<rparr>) \<subseteq> {..<c_rnew d}"
      using n d(2) by (cases "?next") (auto simp: links_def zero_Req_def)
    moreover have "links (c_heap d r) \<subseteq> {..<c_rnew d}" using d(1) by (simp add: good_def)
    ultimately have "links (c_heap ?e r) \<subseteq> {..<c_rnew d}" by simp
    then show "links (c_heap ?e r) \<subseteq> {..<c_rnew ?e}" by (auto simp: less_Suc_eq)
    show "r < c_rnew ?e" if "responded ?e r"
      using d(1) that by (auto simp: good_def responded_def zero_Req_def less_Suc_eq split: if_splits)
    have "insert ?r (snd ` set (c_reqs d)) \<subseteq> {..<Suc ?r}" using d(1) by (auto simp: good_def)
    then have "snd ` set (AList.update (fc_Tag fc) ?r (c_reqs d)) \<subseteq> {..<Suc ?r}"
      by (rule subset_trans [OF u])
    then show "snd ` set (c_reqs ?e) \<subseteq> {..<c_rnew ?e}" by simp
    show "set (c_runq ?e) \<subseteq> {..<c_rnew ?e}" using d(1) by (auto simp: good_def less_Suc_eq)
  qed
  have r: "responded ?e x \<longleftrightarrow> x \<noteq> c_rnew c \<and> responded c x" for x
    using d(2,4) by (auto simp: responded_def zero_Req_def)
  have N: "new_req fc c = (case ?next of Some q \<Rightarrow> set_req q (\<lambda>x. x\<lparr>req_prev := Some ?r\<rparr>) ?e
      | None \<Rightarrow> ?e\<lparr>c_runq := c_runq ?e @ [?r]\<rparr>)"
    by (simp only: new_req_def Let_def t prod.case)
  show ?thesis
  proof (cases ?next)
    case None
    then have N': "new_req fc c = ?e\<lparr>c_runq := c_runq ?e @ [?r]\<rparr>" using N by simp
    have "good (?e\<lparr>c_runq := c_runq ?e @ [?r]\<rparr>)" using e by (auto simp: good_def responded_def)
    moreover have "responded (?e\<lparr>c_runq := c_runq ?e @ [?r]\<rparr>) x = responded ?e x" for x
      by (simp add: responded_def)
    ultimately show ?thesis unfolding N' using r d(3) by simp
  next
    case (Some q)
    then have N': "new_req fc c = set_req q (\<lambda>x. x\<lparr>req_prev := Some ?r\<rparr>) ?e" using N by simp
    have "good (set_req q (\<lambda>x. x\<lparr>req_prev := Some ?r\<rparr>) ?e)" using e by (intro good_set_link) simp_all
    then show ?thesis unfolding N' using r d(3) by simp
  qed
qed

text \<open>A file server that keeps its side of the contract.\<close>

context file_server
begin

lemma once_inv_step: "conn_step ops w w' \<Longrightarrow> once_inv w \<Longrightarrow> once_inv w'"
proof (induction rule: conn_step.induct)
  case (arrive c sent fc)
  then have g: "good c" by (simp add: once_inv_def)
  have "r \<noteq> c_rnew c" if "responded c r" for r using g that by (auto simp: good_def)
  then show ?case using arrive good_new_req [OF g, of fc] by (auto simp: once_inv_def)
next
  case (run c xs r ys c' sent)
  let ?d = "c\<lparr>c_runq := xs @ ys\<rparr>"
  have g: "good c" and r: "r < c_rnew c" using run by (auto simp: once_inv_def good_def)
  have "good ?d" using g run.hyps(1) by (auto simp: good_def responded_def)
  then have "good c'" "progress ?d c'" using steps_process [of r ?d] r run.hyps(2) by (auto simp: steps_def)
  moreover have "once_inv (?d, sent)" using \<open>good ?d\<close> run.prems by (simp add: once_inv_def responded_def)
  ultimately show ?case by (blast intro: once_inv_progress)
next
  case (late r c rc c' sent)
  then have "good c'" "progress c c'"
    using steps_Respond_Rc [of r c rc] by (auto simp: steps_def once_inv_def)
  then show ?case using late.prems by (blast intro: once_inv_progress)
next
  case (reply c r rest b c' sent)
  obtain rc where c': "c' = (let d = set_Rc r rc (c\<lparr>c_reqout := rest\<rparr>);
      d = d\<lparr>c_rsz := c_rsz d + ucast (fc_Size rc), c_npend := c_npend d - 1\<rparr>
      in if length (c_rchan d) < 64 then d\<lparr>c_rchan := c_rchan d @ [rc]\<rparr> else d)"
    using reply.hyps by (auto simp: send_def Let_def split: Option.bind_splits)
  have "good c' = good c" "c_reqout c' = rest" "\<And>x. responded c' x = responded c x"
    unfolding c' by (auto simp: Let_def good_def responded_def links_def)
  then show ?case using reply by (auto simp: once_inv_def)
qed

lemma once_inv_reachable: "(conn_step ops)\<^sup>*\<^sup>* w w' \<Longrightarrow> once_inv w \<Longrightarrow> once_inv w'"
  by (induction rule: rtranclp_induct) (auto intro: once_inv_step)

end

lemma once_inv_init: "once_inv (NewConn srv fs, [])"
  by (simp add: once_inv_def good_def NewConn_def responded_def zero_Req_def links_def)

end
