(* ===== verification/Srv_File.thy ===== *)
theory Srv_File
  imports Srv_Once
begin

section \<open>File servers of synthetic files (p/srv/file.go)\<close>

text \<open>
  \<open>Fsrv\<close> is a file server implementation that keeps a tree of \<open>File\<close>s.  Files live in a heap of
  their own; a directory holds its children as a doubly linked list (\<open>cfirst\<close>, \<open>clast\<close>, \<open>next\<close>,
  \<open>prev\<close>).  The operations of a single file are user code: \<open>f_ops\<close> is the identity of the object
  that implements them, and the parameter \<open>fops\<close> gives its methods, each present only if the object
  implements that interface.  Such a method sees the \<open>FFid\<close> and may change the files and the user's
  own state.  Loops along a list of siblings have as fuel the number of files; it runs out only on a
  cyclic list, on which the code does not return.
\<close>

subsection \<open>Data\<close>

record File =
  f_Dir :: Dir
  f_removed :: bool
  f_Parent :: "nat option"
  f_next :: "nat option"
  f_prev :: "nat option"
  f_cfirst :: "nat option"
  f_clast :: "nat option"
  f_ops :: nat

record FFid =
  ff_F :: "nat option"
  ff_Fid :: nat
  ff_dirs :: "nat list"

record 'u Fs =
  fs_files :: "nat \<Rightarrow> File"
  fs_new :: nat
  fs_Root :: nat
  fs_qnext :: u64
  fs_user :: 'u

type_synonym 'u fconn = "(FFid, 'u Fs) Conn"

record 'u FileOps =
  fo_Stat :: "(FFid \<Rightarrow> 'u Fs \<Rightarrow> (go_error option \<times> 'u Fs) option) option"
  fo_Wstat :: "(FFid \<Rightarrow> Dir \<Rightarrow> 'u Fs \<Rightarrow> (go_error option \<times> 'u Fs) option) option"
  fo_Read :: "(FFid \<Rightarrow> nat \<Rightarrow> u64 \<Rightarrow> 'u Fs \<Rightarrow> ((go_error + nat \<times> bytes) \<times> 'u Fs) option) option"
  fo_Write :: "(FFid \<Rightarrow> bytes \<Rightarrow> u64 \<Rightarrow> 'u Fs \<Rightarrow> ((go_error + nat) \<times> 'u Fs) option) option"
  fo_Create :: "(FFid \<Rightarrow> string \<Rightarrow> u32 \<Rightarrow> u8 \<Rightarrow> 'u Fs \<Rightarrow> ((go_error + nat) \<times> 'u Fs) option) option"
  fo_Remove :: "(FFid \<Rightarrow> 'u Fs \<Rightarrow> (go_error option \<times> 'u Fs) option) option"
  fo_Open :: "(FFid \<Rightarrow> u8 \<Rightarrow> 'u Fs \<Rightarrow> (go_error option \<times> 'u Fs) option) option"
  fo_Clunk :: "(FFid \<Rightarrow> 'u Fs \<Rightarrow> (go_error option \<times> 'u Fs) option) option"
  fo_Destroy :: "(FFid \<Rightarrow> 'u Fs \<Rightarrow> 'u Fs option) option"

definition Eexist :: perror where "Eexist = Error ''file already exists'' EEXIST"
definition Enoent :: perror where "Enoent = Error ''file not found'' ENOENT"
definition Enotempty :: perror where "Enotempty = Error ''directory not empty'' EPERM"

definition upd_file :: "nat \<Rightarrow> (File \<Rightarrow> File) \<Rightarrow> (nat \<Rightarrow> File) \<Rightarrow> nat \<Rightarrow> File" where
  "upd_file a f h = h(a := f (h a))"

definition set_file :: "nat \<Rightarrow> (File \<Rightarrow> File) \<Rightarrow> 'u Fs \<Rightarrow> 'u Fs" where
  "set_file a f fs = fs\<lparr>fs_files := upd_file a f (fs_files fs)\<rparr>"

lemma set_file_simps [simp]:
  "fs_files (set_file a f fs) = (fs_files fs)(a := f (fs_files fs a))"
  "fs_new (set_file a f fs) = fs_new fs" "fs_Root (set_file a f fs) = fs_Root fs"
  "fs_qnext (set_file a f fs) = fs_qnext fs" "fs_user (set_file a f fs) = fs_user fs"
  by (simp_all add: set_file_def upd_file_def)

subsection \<open>The tree: Add, Remove, Rename, Find\<close>

text \<open>The first file from \<open>f\<close> on, along \<open>next\<close>, that is called \<open>name\<close>.\<close>

fun find_from :: "nat \<Rightarrow> (nat \<Rightarrow> File) \<Rightarrow> nat option \<Rightarrow> string \<Rightarrow> nat option option" where
  "find_from n h None name = Some None"
| "find_from 0 h (Some f) name = None"
| "find_from (Suc n) h (Some f) name =
     (if name = dir_Name (f_Dir (h f)) then Some (Some f) else find_from n h (f_next (h f)) name)"

definition Find :: "'u Fs \<Rightarrow> nat \<Rightarrow> string \<Rightarrow> nat option option" where
  "Find fs p name = find_from (fs_new fs) (fs_files fs) (f_cfirst (fs_files fs p)) name"

definition NewFileSrv :: "nat \<Rightarrow> 'u Fs \<Rightarrow> 'u Fs" where
  "NewFileSrv root fs = set_file root (\<lambda>f. f\<lparr>f_Parent := Some root\<rparr>) (fs\<lparr>fs_Root := root\<rparr>)"

text \<open>The fields that \<open>Add\<close> initializes; \<open>now\<close> is the clock.\<close>

definition init_Dir :: "string \<Rightarrow> User option \<Rightarrow> Group option \<Rightarrow> u32 \<Rightarrow> u64 \<Rightarrow> u32 \<Rightarrow> Dir \<Rightarrow> Dir" where
  "init_Dir name uid gid mode qpath now d = d\<lparr>
     dir_Qid := \<lparr>qid_Type = ucast (drop_bit 24 mode), qid_Version = 0, qid_Path = qpath\<rparr>,
     dir_Mode := mode, dir_Atime := now, dir_Mtime := now, dir_Length := 0, dir_Name := name,
     dir_Uid := (case uid of Some u \<Rightarrow> usr_Name u | None \<Rightarrow> ''none''),
     dir_Uidnum := (case uid of Some u \<Rightarrow> of_int (usr_Id u) | None \<Rightarrow> NOUID),
     dir_Gid := (case gid of Some g \<Rightarrow> grp_Name g | None \<Rightarrow> ''none''),
     dir_Gidnum := (case gid of Some g \<Rightarrow> of_int (grp_Id g) | None \<Rightarrow> NOUID),
     dir_Muid := '''', dir_Muidnum := NOUID, dir_Ext := ''''\<rparr>"

text \<open>Appending to the list of siblings.\<close>

definition link_last :: "nat \<Rightarrow> nat \<Rightarrow> 'u Fs \<Rightarrow> 'u Fs" where
  "link_last f dir fs = (let clast = f_clast (fs_files fs dir);
       fs = (case clast of
           Some l \<Rightarrow> set_file l (\<lambda>x. x\<lparr>f_next := Some f\<rparr>) fs
         | None \<Rightarrow> set_file dir (\<lambda>x. x\<lparr>f_cfirst := Some f\<rparr>) fs);
       fs = set_file f (\<lambda>x. x\<lparr>f_prev := clast, f_next := None\<rparr>) fs
     in set_file dir (\<lambda>x. x\<lparr>f_clast := Some f\<rparr>) fs)"

definition Add :: "nat \<Rightarrow> nat option \<Rightarrow> string \<Rightarrow> User option \<Rightarrow> Group option \<Rightarrow> u32 \<Rightarrow> nat \<Rightarrow> u32
    \<Rightarrow> 'u Fs \<Rightarrow> (perror option \<times> 'u Fs) option" where
  "Add f dir name uid gid mode ops now fs = (let qpath = fs_qnext fs;
       fs = fs\<lparr>fs_qnext := fs_qnext fs + 1\<rparr>;
       fs = set_file f (\<lambda>x. x\<lparr>f_Dir := init_Dir name uid gid mode qpath now (f_Dir x)\<rparr>) fs
     in case dir of
          None \<Rightarrow> Some (None, set_file f (\<lambda>x. x\<lparr>f_Parent := Some f, f_ops := ops\<rparr>) fs)
        | Some dir \<Rightarrow> (let fs = set_file f (\<lambda>x. x\<lparr>f_Parent := Some dir\<rparr>) fs in do {
            p \<leftarrow> Find fs dir name;
            (case p of
               Some _ \<Rightarrow> Some (Some Eexist, fs)
             | None \<Rightarrow> Some (None, set_file f (\<lambda>x. x\<lparr>f_ops := ops\<rparr>) (link_last f dir fs))) }))"

definition unlink_file :: "nat \<Rightarrow> nat \<Rightarrow> 'u Fs \<Rightarrow> 'u Fs" where
  "unlink_file f p fs = (let next = f_next (fs_files fs f); prev = f_prev (fs_files fs f);
       fs = (case next of
           Some n \<Rightarrow> set_file n (\<lambda>x. x\<lparr>f_prev := prev\<rparr>) fs
         | None \<Rightarrow> set_file p (\<lambda>x. x\<lparr>f_clast := prev\<rparr>) fs);
       fs = (case prev of
           Some q \<Rightarrow> set_file q (\<lambda>x. x\<lparr>f_next := next\<rparr>) fs
         | None \<Rightarrow> set_file p (\<lambda>x. x\<lparr>f_cfirst := next\<rparr>) fs)
     in set_file f (\<lambda>x. x\<lparr>f_next := None, f_prev := None\<rparr>) fs)"

definition Remove :: "nat \<Rightarrow> 'u Fs \<Rightarrow> 'u Fs option" where
  "Remove f fs = (if f_removed (fs_files fs f) then Some fs
     else do {
       let fs = set_file f (\<lambda>x. x\<lparr>f_removed := True\<rparr>) fs;
       p \<leftarrow> f_Parent (fs_files fs f);
       Some (unlink_file f p fs) })"

definition Rename :: "nat \<Rightarrow> string \<Rightarrow> 'u Fs \<Rightarrow> (perror option \<times> 'u Fs) option" where
  "Rename f name fs = do {
     p \<leftarrow> f_Parent (fs_files fs f);
     c \<leftarrow> Find fs p name;
     (case c of
        Some _ \<Rightarrow> Some (Some Eexist, fs)
      | None \<Rightarrow> Some (None, set_file f (\<lambda>x. x\<lparr>f_Dir := (f_Dir x)\<lparr>dir_Name := name\<rparr>\<rparr>) fs)) }"

subsection \<open>Permissions and open modes\<close>

definition grant :: "bool \<Rightarrow> u32 \<Rightarrow> u32 \<Rightarrow> u32" where
  "grant b bits fperm = (if b then fperm OR bits else fperm)"

definition in_group :: "Dir \<Rightarrow> Group list \<Rightarrow> bool" where
  "in_group d gs = list_ex (\<lambda>g. dir_Gid d = grp_Name g \<or> dir_Gidnum d = of_int (grp_Id g)) gs"

definition CheckPerm :: "Dir \<Rightarrow> User option \<Rightarrow> u32 \<Rightarrow> bool" where
  "CheckPerm d user perm = (case user of None \<Rightarrow> False
     | Some user \<Rightarrow>
         let perm = perm AND 7;
             fperm = dir_Mode d AND 7
         in if fperm AND perm = perm then True
         else let fperm = grant (dir_Uid d = usr_Name user \<or> dir_Uidnum d = of_int (usr_Id user))
                 (drop_bit 6 (dir_Mode d) AND 7) fperm
         in if fperm AND perm = perm then True
         else let fperm = grant (in_group d (usr_Groups user)) (drop_bit 3 (dir_Mode d) AND 7) fperm
         in fperm AND perm = perm)"

definition mode2Perm :: "u8 \<Rightarrow> u32" where
  "mode2Perm mode = (let m = mode AND 3;
       perm = (if m = OREAD then DMREAD else if m = OWRITE then DMWRITE
               else if m = ORDWR then DMREAD OR DMWRITE else 0)
     in if mode AND OTRUNC \<noteq> 0 then perm OR DMWRITE else perm)"

definition openmode :: "u8 \<Rightarrow> perror + u8" where
  "openmode m = (if m \<ge> OTRUNC OR OCEXEC OR ORCLOSE OR OEXEC then Inl Ebadarg
     else let m = m AND NOT (OTRUNC OR OCEXEC OR ORCLOSE)
     in if m > OEXEC then Inl Ebadarg else if m = OEXEC then Inr OREAD else Inr m)"

subsection \<open>The operations of Fsrv\<close>

text \<open>\<open>req.Fid.Aux.(*FFid)\<close> and \<open>fid.F\<close>: a nil pointer and a failed type assertion panic.\<close>

definition with_ffid :: "nat \<Rightarrow> (nat \<Rightarrow> FFid \<Rightarrow> 'u fconn \<Rightarrow> 'u fconn option) \<Rightarrow> 'u fconn \<Rightarrow> 'u fconn option" where
  "with_ffid r k c = do {
     a \<leftarrow> req_Fid (c_heap c r);
     ff \<leftarrow> fid_Aux (c_fids c a);
     k a ff c }"

definition with_file :: "nat \<Rightarrow> (nat \<Rightarrow> FFid \<Rightarrow> nat \<Rightarrow> 'u fconn \<Rightarrow> 'u fconn option) \<Rightarrow> 'u fconn \<Rightarrow> 'u fconn option" where
  "with_file r k = with_ffid r (\<lambda>a ff c. Option.bind (ff_F ff) (\<lambda>f. k a ff f c))"

abbreviation file_of :: "'u fconn \<Rightarrow> nat \<Rightarrow> File" where
  "file_of c f \<equiv> fs_files (c_fs c) f"

definition set_Aux :: "nat \<Rightarrow> FFid \<Rightarrow> 'u fconn \<Rightarrow> 'u fconn" where
  "set_Aux a ff = set_fid a (\<lambda>x. x\<lparr>fid_Aux := Some ff\<rparr>)"

text \<open>A method of a file, run on the file system.\<close>

definition run_fs :: "('u Fs \<Rightarrow> ('b \<times> 'u Fs) option) \<Rightarrow> 'u fconn \<Rightarrow> ('b \<times> 'u fconn) option" where
  "run_fs m c = do { (b, fs) \<leftarrow> m (c_fs c); Some (b, c\<lparr>c_fs := fs\<rparr>) }"

definition Fsrv_FidDestroy :: "(nat \<Rightarrow> 'u FileOps) \<Rightarrow> nat \<Rightarrow> 'u fconn \<Rightarrow> 'u fconn option" where
  "Fsrv_FidDestroy fops a c = (case fid_Aux (c_fids c a) of
     None \<Rightarrow> Some c
   | Some ff \<Rightarrow> (case ff_F ff of
       None \<Rightarrow> Some c
     | Some f \<Rightarrow> (case fo_Destroy (fops (f_ops (file_of c f))) of
         None \<Rightarrow> Some c
       | Some destroy \<Rightarrow> do { fs \<leftarrow> destroy ff (c_fs c); Some (c\<lparr>c_fs := fs\<rparr>) })))"

definition fsrv_hooks :: "(nat \<Rightarrow> 'u FileOps) \<Rightarrow> (FFid, 'u Fs) RespOps" where
  "fsrv_hooks fops = \<lparr>op_FidDestroy = Some (Fsrv_FidDestroy fops), op_ReqRespond = None\<rparr>"

definition Fsrv_Attach :: "(nat \<Rightarrow> 'u FileOps) \<Rightarrow> nat \<Rightarrow> 'u fconn \<Rightarrow> 'u fconn option" where
  "Fsrv_Attach fops r c = (let root = fs_Root (c_fs c) in do {
     a \<leftarrow> req_Fid (c_heap c r);
     RespondRattach (fsrv_hooks fops) r (dir_Qid (f_Dir (file_of c root)))
       (set_Aux a \<lparr>ff_F = Some root, ff_Fid = a, ff_dirs = []\<rparr> c) })"

text \<open>
  The loop over the names, with its index \<open>i\<close>, the qids so far and the current file \<open>f\<close>.  The
  permission check looks at the type of \<open>wqids[i]\<close>, which is set only later.
\<close>

fun walk_loop :: "'u Fs \<Rightarrow> User option \<Rightarrow> string list \<Rightarrow> nat \<Rightarrow> Qid list \<Rightarrow> nat \<Rightarrow> (nat \<times> Qid list \<times> nat) option" where
  "walk_loop fs user [] i wqids f = Some (i, wqids, f)"
| "walk_loop fs user (n # ns) i wqids f =
     (if n = ''..'' then do {
        f \<leftarrow> f_Parent (fs_files fs f);
        walk_loop fs user ns (i + 1) (wqids[i := dir_Qid (f_Dir (fs_files fs f))]) f }
      else if qid_Type (wqids ! i) AND QTDIR > 0 \<and> \<not> CheckPerm (f_Dir (fs_files fs f)) user DMEXEC then
        Some (i, wqids, f)
      else do {
        p \<leftarrow> Find fs f n;
        (case p of
           None \<Rightarrow> Some (i, wqids, f)
         | Some f \<Rightarrow> walk_loop fs user ns (i + 1) (wqids[i := dir_Qid (f_Dir (fs_files fs f))]) f) })"

definition Fsrv_Walk :: "(nat \<Rightarrow> 'u FileOps) \<Rightarrow> nat \<Rightarrow> 'u fconn \<Rightarrow> 'u fconn option" where
  "Fsrv_Walk fops r = with_ffid r (\<lambda>a ff c. let tc = req_Tc (c_heap c r) in do {
     nf \<leftarrow> req_Newfid (c_heap c r);
     let c = (if fid_Aux (c_fids c nf) = None
              then set_Aux nf \<lparr>ff_F = None, ff_Fid = nf, ff_dirs = []\<rparr> c else c);
     nff \<leftarrow> fid_Aux (c_fids c nf);
     f \<leftarrow> (if fc_Wname tc = [] then Some None else Option.bind (ff_F ff) (\<lambda>f. Some (Some f)));
     (i, wqids, g) \<leftarrow> (case f of
         None \<Rightarrow> Some (0, [], ff_F ff)
       | Some f \<Rightarrow> do {
           (i, wqids, g) \<leftarrow> walk_loop (c_fs c) (fid_User (c_fids c a)) (fc_Wname tc) 0
             (replicate (length (fc_Wname tc)) zero_Qid) f;
           Some (i, wqids, Some g) });
     if fc_Wname tc \<noteq> [] \<and> i = 0 then RespondError (fsrv_hooks fops) r (PErr Enoent) c
     else RespondRwalk (fsrv_hooks fops) r (take i wqids) (set_Aux nf (nff\<lparr>ff_F := g\<rparr>) c) })"

definition Fsrv_Open :: "(nat \<Rightarrow> 'u FileOps) \<Rightarrow> nat \<Rightarrow> 'u fconn \<Rightarrow> 'u fconn option" where
  "Fsrv_Open fops r = with_ffid r (\<lambda>a ff c. let tc = req_Tc (c_heap c r); h = fsrv_hooks fops in
     case openmode (fc_Mode tc) of
       Inl err \<Rightarrow> RespondError h r (PErr err) c
     | Inr _ \<Rightarrow> do {
         f \<leftarrow> ff_F ff;
         if \<not> CheckPerm (f_Dir (file_of c f)) (fid_User (c_fids c a)) (mode2Perm (fc_Mode tc)) then
           RespondError h r (PErr Eperm) c
         else do {
           let c = set_fid (ff_Fid ff) (\<lambda>x. x\<lparr>fid_Omode := fc_Mode tc\<rparr>) c;
           c \<leftarrow> (case fo_Open (fops (f_ops (file_of c f))) of
               None \<Rightarrow> Some c
             | Some op \<Rightarrow> do {
                 (err, c) \<leftarrow> run_fs (op ff (fc_Mode tc)) c;
                 (case err of Some e \<Rightarrow> RespondError h r e c | None \<Rightarrow> Some c) });
           RespondRopen h r (dir_Qid (f_Dir (file_of c f))) 0 c } })"

definition Fsrv_Create :: "(nat \<Rightarrow> 'u FileOps) \<Rightarrow> nat \<Rightarrow> 'u fconn \<Rightarrow> 'u fconn option" where
  "Fsrv_Create fops r = with_file r (\<lambda>a ff dir c. let tc = req_Tc (c_heap c r); h = fsrv_hooks fops in
     if \<not> CheckPerm (f_Dir (file_of c dir)) (fid_User (c_fids c a)) DMWRITE then
       RespondError h r (PErr Eperm) c
     else (case openmode (fc_Mode tc) of
         Inl err \<Rightarrow> RespondError h r (PErr err) c
       | Inr _ \<Rightarrow> (let c = set_fid (ff_Fid ff) (\<lambda>x. x\<lparr>fid_Omode := fc_Mode tc\<rparr>) c in
           (case fo_Create (fops (f_ops (file_of c dir))) of
              None \<Rightarrow> RespondError h r (PErr Eperm) c
            | Some op \<Rightarrow> do {
                (res, c) \<leftarrow> run_fs (op ff (fc_Name tc) (fc_Perm tc) (fc_Mode tc)) c;
                (case res of
                   Inl err \<Rightarrow> RespondError h r err c
                 | Inr f \<Rightarrow> RespondRcreate h r (dir_Qid (f_Dir (file_of c f))) 0
                     (set_Aux a (ff\<lparr>ff_F := Some f\<rparr>) c)) }))))"

text \<open>The children of a directory from \<open>g\<close> on.\<close>

fun children_from :: "nat \<Rightarrow> (nat \<Rightarrow> File) \<Rightarrow> nat option \<Rightarrow> nat list option" where
  "children_from n h None = Some []"
| "children_from 0 h (Some g) = None"
| "children_from (Suc n) h (Some g) = do { gs \<leftarrow> children_from n h (f_next (h g)); Some (g # gs) }"

text \<open>
  Packing entries into \<open>b\<close>: the number of bytes, the contents of \<open>b\<close> afterwards and the entries that
  are left.  Removed files are skipped, and an entry that does not fit ends the loop.
\<close>

fun pack_dirs :: "(nat \<Rightarrow> File) \<Rightarrow> bool \<Rightarrow> nat list \<Rightarrow> bytes \<Rightarrow> (nat \<times> bytes \<times> nat list) option" where
  "pack_dirs h dotu [] b = Some (0, b, [])"
| "pack_dirs h dotu (g # gs) b =
     (if f_removed (h g) then pack_dirs h dotu gs b
      else do {
        (sz, b) \<leftarrow> PackDir (f_Dir (h g)) b dotu;
        if sz = 0 then Some (0, b, g # gs)
        else do {
          (n, b', rest) \<leftarrow> pack_dirs h dotu gs (drop sz b);
          Some (sz + n, take sz b @ b', rest) } })"

definition Fsrv_Read :: "(nat \<Rightarrow> 'u FileOps) \<Rightarrow> nat \<Rightarrow> 'u fconn \<Rightarrow> 'u fconn option" where
  "Fsrv_Read fops r = with_ffid r (\<lambda>a ff c. let tc = req_Tc (c_heap c r); h = fsrv_hooks fops in do {
     p \<leftarrow> InitRread (req_Rc (c_heap c r)) (fc_Count tc);
     let c = (case p of Inl _ \<Rightarrow> c | Inr rc \<Rightarrow> set_Rc r rc c);
     if fid_Omode (c_fids c (ff_Fid ff)) AND 3 = OWRITE then RespondError h r (PErr Ebaduse) c
     else do {
       f \<leftarrow> ff_F ff;
       if dir_Mode (f_Dir (file_of c f)) AND DMDIR \<noteq> 0 then do {
         dirs \<leftarrow> (if fc_Offset tc = 0
                  then children_from (fs_new (c_fs c)) (fs_files (c_fs c)) (f_cfirst (file_of c f))
                  else Some (ff_dirs ff));
         (n, data, rest) \<leftarrow> pack_dirs (fs_files (c_fs c)) (c_Dotu c) dirs (fc_Data (req_Rc (c_heap c r)));
         let c = set_Aux a (ff\<lparr>ff_dirs := rest\<rparr>) c;
         rc \<leftarrow> SetRreadCount (copy_Data (req_Rc (c_heap c r)) data) (of_nat n);
         Respond h r (set_Rc r rc c) }
       else (case fo_Read (fops (f_ops (file_of c f))) of
           None \<Rightarrow> RespondError h r (PErr Eperm) c
         | Some op \<Rightarrow> do {
             (res, c) \<leftarrow> run_fs (op ff (length (fc_Data (req_Rc (c_heap c r)))) (fc_Offset tc)) c;
             (case res of
                Inl err \<Rightarrow> RespondError h r err c
              | Inr (n, data) \<Rightarrow> do {
                  rc \<leftarrow> SetRreadCount (copy_Data (req_Rc (c_heap c r)) data) (of_nat n);
                  Respond h r (set_Rc r rc c) }) }) } })"

definition Fsrv_Write :: "(nat \<Rightarrow> 'u FileOps) \<Rightarrow> nat \<Rightarrow> 'u fconn \<Rightarrow> 'u fconn option" where
  "Fsrv_Write fops r = with_ffid r (\<lambda>a ff c. let tc = req_Tc (c_heap c r); h = fsrv_hooks fops;
       mode = fid_Omode (c_fids c (ff_Fid ff)) AND 3 in
     if mode \<noteq> OWRITE \<and> mode \<noteq> ORDWR then RespondError h r (PErr Ebaduse) c
     else do {
       f \<leftarrow> ff_F ff;
       (case fo_Write (fops (f_ops (file_of c f))) of
          None \<Rightarrow> RespondError h r (PErr Eperm) c
        | Some op \<Rightarrow> do {
            (res, c) \<leftarrow> run_fs (op ff (fc_Data tc) (fc_Offset tc)) c;
            (case res of
               Inl err \<Rightarrow> RespondError h r err c
             | Inr n \<Rightarrow> RespondRwrite h r (of_nat n) c) }) })"

text \<open>An error of the file's own \<open>Clunk\<close> is responded, and then the success too.\<close>

definition Fsrv_Clunk :: "(nat \<Rightarrow> 'u FileOps) \<Rightarrow> nat \<Rightarrow> 'u fconn \<Rightarrow> 'u fconn option" where
  "Fsrv_Clunk fops r = with_file r (\<lambda>a ff f c. let h = fsrv_hooks fops in do {
     c \<leftarrow> (case fo_Clunk (fops (f_ops (file_of c f))) of
         None \<Rightarrow> Some c
       | Some op \<Rightarrow> do {
           (err, c) \<leftarrow> run_fs (op ff) c;
           (case err of Some e \<Rightarrow> RespondError h r e c | None \<Rightarrow> Some c) });
     RespondRclunk h r c })"

definition Fsrv_Remove :: "(nat \<Rightarrow> 'u FileOps) \<Rightarrow> nat \<Rightarrow> 'u fconn \<Rightarrow> 'u fconn option" where
  "Fsrv_Remove fops r = with_file r (\<lambda>a ff f c. let h = fsrv_hooks fops in
     if f_cfirst (file_of c f) \<noteq> None then RespondError h r (PErr Enotempty) c
     else (case fo_Remove (fops (f_ops (file_of c f))) of
         None \<Rightarrow> RespondError h r (PErr Eperm) c
       | Some op \<Rightarrow> do {
           (err, c) \<leftarrow> run_fs (op ff) c;
           (case err of
              Some e \<Rightarrow> RespondError h r e c
            | None \<Rightarrow> do {
                fs \<leftarrow> Remove f (c_fs c);
                RespondRremove h r (c\<lparr>c_fs := fs\<rparr>) }) }))"

definition Fsrv_Stat :: "(nat \<Rightarrow> 'u FileOps) \<Rightarrow> nat \<Rightarrow> 'u fconn \<Rightarrow> 'u fconn option" where
  "Fsrv_Stat fops r = with_file r (\<lambda>a ff f c. let h = fsrv_hooks fops in
     case fo_Stat (fops (f_ops (file_of c f))) of
       None \<Rightarrow> RespondRstat h r (f_Dir (file_of c f)) c
     | Some op \<Rightarrow> do {
         (err, c) \<leftarrow> run_fs (op ff) c;
         (case err of Some e \<Rightarrow> RespondError h r e c | None \<Rightarrow> RespondRstat h r (f_Dir (file_of c f)) c) })"

definition Fsrv_Wstat :: "(nat \<Rightarrow> 'u FileOps) \<Rightarrow> nat \<Rightarrow> 'u fconn \<Rightarrow> 'u fconn option" where
  "Fsrv_Wstat fops r = with_file r (\<lambda>a ff f c. let tc = req_Tc (c_heap c r); h = fsrv_hooks fops in
     case fo_Wstat (fops (f_ops (file_of c f))) of
       None \<Rightarrow> RespondError h r (PErr Eperm) c
     | Some op \<Rightarrow> do {
         (err, c) \<leftarrow> run_fs (op ff (fc_Dir tc)) c;
         (case err of Some e \<Rightarrow> RespondError h r e c | None \<Rightarrow> RespondRwstat h r c) })"

text \<open>\<open>Fsrv\<close> as the implementation that \<open>Start\<close> gets.\<close>

definition fsrv_ops :: "(nat \<Rightarrow> 'u FileOps) \<Rightarrow> (FFid, 'u Fs) Ops" where
  "fsrv_ops fops = \<lparr>op_FidDestroy = Some (Fsrv_FidDestroy fops), op_ReqRespond = None,
     op_ReqProcess = None, op_Flush = None, op_Auth = None,
     op_Attach = Fsrv_Attach fops, op_Walk = Fsrv_Walk fops, op_Open = Fsrv_Open fops,
     op_Create = Fsrv_Create fops, op_Read = Fsrv_Read fops, op_Write = Fsrv_Write fops,
     op_Clunk = Fsrv_Clunk fops, op_Remove = Fsrv_Remove fops, op_Stat = Fsrv_Stat fops,
     op_Wstat = Fsrv_Wstat fops\<rparr>"

subsection \<open>Fsrv keeps the contract of a file server\<close>

interpretation fsrv_end: responder "fsrv_hooks fops" for fops
proof
  show "steps c (f a c)" if "op_FidDestroy (fsrv_hooks fops) = Some f" for f a c
  proof -
    have "f = Fsrv_FidDestroy fops" using that by (simp add: fsrv_hooks_def)
    then show ?thesis
      by (auto simp: Fsrv_FidDestroy_def intro!: steps_Some steps_pure_bind split: option.split)
  qed
qed (simp add: fsrv_hooks_def)

lemma quiet_set_Aux [simp]: "quiet c (set_Aux a ff d) = quiet c d"
  by (simp add: set_Aux_def)

lemma rnew_set_Aux [simp]: "c_rnew (set_Aux a ff c) = c_rnew c"
  by (simp add: set_Aux_def)

lemma fsrv_responds:
  assumes q: "quiet c d" and r: "r < c_rnew c"
  shows "steps c (RespondError (fsrv_hooks fops) r e d)" "steps c (RespondRattach (fsrv_hooks fops) r q d)"
    "steps c (RespondRwalk (fsrv_hooks fops) r qs d)" "steps c (RespondRopen (fsrv_hooks fops) r q i d)"
    "steps c (RespondRcreate (fsrv_hooks fops) r q i d)" "steps c (RespondRwrite (fsrv_hooks fops) r n d)"
    "steps c (RespondRclunk (fsrv_hooks fops) r d)" "steps c (RespondRremove (fsrv_hooks fops) r d)"
    "steps c (RespondRstat (fsrv_hooks fops) r st d)" "steps c (RespondRwstat (fsrv_hooks fops) r d)"
    "steps c (Respond (fsrv_hooks fops) r d)"
proof -
  have "r < c_rnew d" using q r by (simp add: quiet_def)
  then show "steps c (RespondError (fsrv_hooks fops) r e d)" "steps c (RespondRattach (fsrv_hooks fops) r q d)"
    "steps c (RespondRwalk (fsrv_hooks fops) r qs d)" "steps c (RespondRopen (fsrv_hooks fops) r q i d)"
    "steps c (RespondRcreate (fsrv_hooks fops) r q i d)" "steps c (RespondRwrite (fsrv_hooks fops) r n d)"
    "steps c (RespondRclunk (fsrv_hooks fops) r d)" "steps c (RespondRremove (fsrv_hooks fops) r d)"
    "steps c (RespondRstat (fsrv_hooks fops) r st d)" "steps c (RespondRwstat (fsrv_hooks fops) r d)"
    "steps c (Respond (fsrv_hooks fops) r d)"
    by (auto intro!: steps_quiet [OF q] fsrv_end.steps_RespondError fsrv_end.steps_RespondR fsrv_end.steps_Respond)
qed

lemma steps_run_fs: "steps_res c (run_fs m c)"
proof -
  have q: "quiet c (c\<lparr>c_fs := fs\<rparr>)" for fs by simp
  show ?thesis
    by (auto simp: steps_res_def run_fs_def quiet_good [OF q] quiet_progress [OF q] split: Option.bind_splits)
qed

text \<open>One answer, or an error answer followed by another one.\<close>

lemma steps_run_then:
  assumes "quiet c d" "r < c_rnew c" "\<And>e. c_rnew e = c_rnew c \<Longrightarrow> steps e (k e)"
  shows "steps c (Option.bind (case op of None \<Rightarrow> Some d
      | Some op \<Rightarrow> Option.bind (run_fs (m op) d) (\<lambda>(err, c).
          case err of None \<Rightarrow> Some c | Some e \<Rightarrow> RespondError (fsrv_hooks fops) r e c)) k)"
proof -
  have d: "c_rnew d = c_rnew c" using assms(1) by (simp add: quiet_def)
  have "steps d (case op of None \<Rightarrow> Some d
      | Some op \<Rightarrow> Option.bind (run_fs (m op) d) (\<lambda>(err, c).
          case err of None \<Rightarrow> Some c | Some e \<Rightarrow> RespondError (fsrv_hooks fops) r e c))"
    using assms(2) d by (auto simp: fsrv_responds steps_Some split: option.split
        intro!: steps_res_bind [OF steps_run_fs])
  then show ?thesis using assms d by (intro steps_quiet [OF assms(1)] steps_bind) simp_all
qed

lemma fsrv_steps:
  assumes r: "r < c_rnew c"
  shows "steps c (Fsrv_Attach fops r c)" "steps c (Fsrv_Walk fops r c)" "steps c (Fsrv_Open fops r c)"
    "steps c (Fsrv_Create fops r c)" "steps c (Fsrv_Write fops r c)" "steps c (Fsrv_Clunk fops r c)"
    "steps c (Fsrv_Remove fops r c)" "steps c (Fsrv_Stat fops r c)" "steps c (Fsrv_Wstat fops r c)"
proof -
  show "steps c (Fsrv_Attach fops r c)"
    using r by (auto simp: Fsrv_Attach_def Let_def fsrv_responds intro!: steps_pure_bind)
  show "steps c (Fsrv_Walk fops r c)"
    using r unfolding Fsrv_Walk_def with_ffid_def Let_def
    by (intro steps_pure_bind) (auto simp: fsrv_responds intro!: steps_pure_bind)
  show "steps c (Fsrv_Open fops r c)"
    unfolding Fsrv_Open_def with_ffid_def Let_def
    by (insert r, intro steps_pure_bind steps_case_sum steps_if steps_run_then) (simp_all add: fsrv_responds)
  show "steps c (Fsrv_Create fops r c)"
    unfolding Fsrv_Create_def with_file_def with_ffid_def Let_def
    by (insert r, (rule steps_pure_bind)+, intro steps_case_sum steps_if)
       (auto simp: fsrv_responds split: option.split sum.split intro!: quiet_res_bind [OF _ steps_run_fs])
  show "steps c (Fsrv_Write fops r c)"
    unfolding Fsrv_Write_def with_ffid_def Let_def
    by (insert r, (rule steps_pure_bind)+, intro steps_if)
       (auto simp: fsrv_responds split: option.split sum.split
         intro!: quiet_res_bind [OF _ steps_run_fs] steps_pure_bind [where m = "ff_F ff" for ff])
  show "steps c (Fsrv_Clunk fops r c)"
    unfolding Fsrv_Clunk_def with_file_def with_ffid_def Let_def
    by (insert r, rule steps_pure_bind, rule steps_pure_bind, rule steps_pure_bind, rule steps_run_then) (simp_all add: fsrv_responds)
  show "steps c (Fsrv_Remove fops r c)"
    unfolding Fsrv_Remove_def with_file_def with_ffid_def Let_def
    by (insert r, (rule steps_pure_bind)+, intro steps_if steps_case_option)
       (auto simp: fsrv_responds split: option.split
         intro!: quiet_res_bind [OF _ steps_run_fs] steps_pure_bind [where m = "Remove f fs" for f fs])
  show "steps c (Fsrv_Stat fops r c)"
    unfolding Fsrv_Stat_def with_file_def with_ffid_def Let_def
    by (insert r, (rule steps_pure_bind)+)
       (auto simp: fsrv_responds split: option.split intro!: quiet_res_bind [OF _ steps_run_fs])
  show "steps c (Fsrv_Wstat fops r c)"
    unfolding Fsrv_Wstat_def with_file_def with_ffid_def Let_def
    by (insert r, (rule steps_pure_bind)+)
       (auto simp: fsrv_responds split: option.split intro!: quiet_res_bind [OF _ steps_run_fs])
qed

lemma steps_set_reply: "r < c_rnew c \<Longrightarrow> quiet c d \<Longrightarrow>
    steps c (Option.bind m (\<lambda>rc. Respond (fsrv_hooks fops) r (set_Rc r rc d)))"
  by (intro steps_pure_bind) (simp add: fsrv_responds)

lemma fsrv_read_steps:
  assumes r: "r < c_rnew c"
  shows "steps c (Fsrv_Read fops r c)"
proof -
  have main: "steps c (if fid_Omode (c_fids d (ff_Fid ff)) AND 3 = OWRITE
       then RespondError (fsrv_hooks fops) r (PErr Ebaduse) d
     else do {
       f \<leftarrow> ff_F ff;
       if dir_Mode (f_Dir (file_of d f)) AND DMDIR \<noteq> 0 then do {
         dirs \<leftarrow> (if fc_Offset tc = 0
                  then children_from (fs_new (c_fs d)) (fs_files (c_fs d)) (f_cfirst (file_of d f))
                  else Some (ff_dirs ff));
         (n, data, rest) \<leftarrow> pack_dirs (fs_files (c_fs d)) (c_Dotu d) dirs (fc_Data (req_Rc (c_heap d r)));
         let c = set_Aux a (ff\<lparr>ff_dirs := rest\<rparr>) d;
         rc \<leftarrow> SetRreadCount (copy_Data (req_Rc (c_heap c r)) data) (of_nat n);
         Respond (fsrv_hooks fops) r (set_Rc r rc c) }
       else (case fo_Read (fops (f_ops (file_of d f))) of
           None \<Rightarrow> RespondError (fsrv_hooks fops) r (PErr Eperm) d
         | Some op \<Rightarrow> do {
             (res, c) \<leftarrow> run_fs (op ff (length (fc_Data (req_Rc (c_heap d r)))) (fc_Offset tc)) d;
             (case res of
                Inl err \<Rightarrow> RespondError (fsrv_hooks fops) r err c
              | Inr (n, data) \<Rightarrow> do {
                  rc \<leftarrow> SetRreadCount (copy_Data (req_Rc (c_heap c r)) data) (of_nat n);
                  Respond (fsrv_hooks fops) r (set_Rc r rc c) }) }) })"
    if d: "quiet c d" for d a ff tc
  proof -
    have "steps c (Option.bind (pack_dirs h b dirs data) (\<lambda>(n, data, rest).
         let c = set_Aux a (ff\<lparr>ff_dirs := rest\<rparr>) d in Option.bind (SetRreadCount
           (copy_Data (req_Rc (c_heap c r)) data) (of_nat n)) (\<lambda>rc. Respond (fsrv_hooks fops) r (set_Rc r rc c))))"
      for h b dirs data
      using r d by (auto simp: Let_def intro!: steps_pure_bind [where m = "pack_dirs h b ds dt" for h b ds dt]
          steps_set_reply)
    moreover have "steps c (case fo_Read fo of
           None \<Rightarrow> RespondError (fsrv_hooks fops) r (PErr Eperm) d
         | Some op \<Rightarrow> Option.bind (run_fs (op ff l off) d) (\<lambda>(res, c).
             case res of
                Inl err \<Rightarrow> RespondError (fsrv_hooks fops) r err c
              | Inr (n, data) \<Rightarrow> Option.bind (SetRreadCount (copy_Data (req_Rc (c_heap c r)) data) (of_nat n))
                  (\<lambda>rc. Respond (fsrv_hooks fops) r (set_Rc r rc c))))" for fo l off
      using r d by (auto simp: fsrv_responds split: option.split sum.split
          intro!: quiet_res_bind [OF _ steps_run_fs] steps_set_reply)
    ultimately show ?thesis
      using r d unfolding Let_def
      by (intro steps_if steps_pure_bind [where m = "ff_F ff"]) (auto simp: fsrv_responds intro!: steps_pure_bind
        [where m = "children_from n h x" for n h x])
  qed
  show ?thesis
    unfolding Fsrv_Read_def with_ffid_def
    apply (rule steps_pure_bind, rule steps_pure_bind)
    unfolding Let_def
    by (rule steps_pure_bind, rule main [unfolded Let_def]) (simp split: sum.split)
qed

interpretation fsrv: file_server "fsrv_ops fops" for fops
proof
  show "steps c (f a c)" if "op_FidDestroy (fsrv_ops fops) = Some f" for f a c
    using that fsrv_end.destroy_steps [of fops f] by (simp add: fsrv_ops_def fsrv_hooks_def)
qed (simp_all add: fsrv_ops_def fsrv_steps fsrv_read_steps)

end
