(* ===== verification/Srv_Fids.thy ===== *)
theory Srv_Fids
  imports Srv_File
begin

section \<open>References to fids and the order of responses\<close>

text \<open>
  What a response does to the fids of its request, exactly, for file servers whose \<open>FidDestroy\<close> keeps
  its hands off the connection (\<open>tidy_responder\<close>), and in which order the requests that flush a
  request are answered.
\<close>

subsection \<open>References held by a request\<close>

definition slot_refs :: "Req \<Rightarrow> nat \<Rightarrow> int" where
  "slot_refs q a = of_bool (req_Fid q = Some a) + of_bool (req_Afid q = Some a) + of_bool (req_Newfid q = Some a)"

text \<open>What the post-handlers add to the references of a fid: one for a fid that the table keeps from
  now on, minus one for a fid that the table gives up.\<close>

definition post_gain :: "(nat \<Rightarrow> 'a Fid) \<Rightarrow> Req \<Rightarrow> nat \<Rightarrow> int" where
  "post_gain h q a = (let t = fc_Type (req_Tc q); rc = req_Rc q in
     of_bool (t = Tauth \<and> fc_Type rc = Rauth \<and> req_Afid q = Some a)
     + of_bool (t = Tattach \<and> fc_Type rc = Rattach \<and> req_Fid q = Some a)
     + of_bool (t = Twalk \<and> fc_Type rc = Rwalk \<and> req_Newfid q = Some a
         \<and> length (fc_Wqid rc) = length (fc_Wname (req_Tc q))
         \<and> (\<exists>b. req_Fid q = Some b \<and> fid_fid (h a) \<noteq> fid_fid (h b)))
     - of_bool (t = Tclunk \<and> fc_Type rc = Rclunk \<and> req_Fid q = Some a)
     - of_bool (t = Tremove \<and> req_Fid q = Some a))"

text \<open>The part of the connection that a \<open>FidDestroy\<close> leaves alone.\<close>

definition same_conn :: "('a, 's) Conn \<Rightarrow> ('a, 's) Conn \<Rightarrow> bool" where
  "same_conn c c' \<longleftrightarrow> c_fids c' = c_fids c \<and> c_fidpool c' = c_fidpool c \<and> c_heap c' = c_heap c
     \<and> c_reqs c' = c_reqs c \<and> c_reqout c' = c_reqout c \<and> c_runq c' = c_runq c \<and> c_rnew c' = c_rnew c
     \<and> c_Msize c' = c_Msize c \<and> c_Dotu c' = c_Dotu c \<and> c_Srv c' = c_Srv c"

text \<open>Everything but the heap of fids, the fid table and the file server's own state.\<close>

definition same_reqs :: "('a, 's) Conn \<Rightarrow> ('a, 's) Conn \<Rightarrow> bool" where
  "same_reqs c c' \<longleftrightarrow> c_heap c' = c_heap c \<and> c_reqs c' = c_reqs c \<and> c_reqout c' = c_reqout c
     \<and> c_runq c' = c_runq c \<and> c_rnew c' = c_rnew c \<and> c_Msize c' = c_Msize c \<and> c_Dotu c' = c_Dotu c
     \<and> c_Srv c' = c_Srv c \<and> (\<forall>a. fid_fid (c_fids c' a) = fid_fid (c_fids c a))"

lemma same_reqs_refl [simp]: "same_reqs c c"
  by (simp add: same_reqs_def)

lemma same_reqs_trans: "same_reqs a b \<Longrightarrow> same_reqs b c \<Longrightarrow> same_reqs a c"
  by (simp add: same_reqs_def)

locale tidy_responder = responder ops for ops :: "('a, 's, 'z) RespOps_scheme" +
  assumes destroy_tidy: "op_FidDestroy ops = Some f \<Longrightarrow> f a c = Some c' \<Longrightarrow> same_conn c c'"
    and no_hook: "op_ReqRespond ops = None"
begin

lemma DecRef_eq:
  assumes "DecRef ops a c = Some c'"
  shows "c_fids c' = (c_fids c)(a := (c_fids c a)\<lparr>fid_refcount := fid_refcount (c_fids c a) - 1\<rparr>)
    \<and> c_fidpool c' = (if fid_refcount (c_fids c a) > 1 then c_fidpool c
        else AList.delete (fid_fid (c_fids c a)) (c_fidpool c))
    \<and> same_reqs c c'"
proof -
  let ?d = "set_fid a (\<lambda>f. f\<lparr>fid_refcount := fid_refcount f - 1\<rparr>) c"
  show ?thesis
  proof (cases "fid_refcount (c_fids c a) > 1")
    case True
    then show ?thesis using assms by (auto simp: DecRef_def Let_def same_reqs_def)
  next
    case False
    let ?e = "?d\<lparr>c_fidpool := AList.delete (fid_fid (c_fids c a)) (c_fidpool c)\<rparr>"
    have "same_conn ?e c'"
      using assms False destroy_tidy by (auto simp: DecRef_def Let_def same_conn_def split: option.splits)
    then show ?thesis using False by (simp add: same_conn_def same_reqs_def)
  qed
qed

end

abbreviation refcount :: "('a, 's) Conn \<Rightarrow> nat \<Rightarrow> int" where
  "refcount c a \<equiv> fid_refcount (c_fids c a)"

text \<open>Everything but the slots of the request: what dropping them leaves.\<close>

definition same_but :: "nat \<Rightarrow> ('a, 's) Conn \<Rightarrow> ('a, 's) Conn \<Rightarrow> bool" where
  "same_but r c c' \<longleftrightarrow> same_reqs c (c'\<lparr>c_heap := c_heap c\<rparr>) \<and> (\<forall>x. x \<noteq> r \<longrightarrow> c_heap c' x = c_heap c x)"

definition no_slots :: "Req \<Rightarrow> Req" where
  "no_slots q = q\<lparr>req_Fid := None, req_Afid := None, req_Newfid := None\<rparr>"

lemma no_slots_eq: "no_slots q = q \<longleftrightarrow> req_Fid q = None \<and> req_Afid q = None \<and> req_Newfid q = None"
  by (cases q) (auto simp: no_slots_def)

text \<open>A request that is alone in its tag group, marked as responded and removed from the table.\<close>

definition answered :: "nat \<Rightarrow> ('a, 's) Conn \<Rightarrow> ('a, 's) Conn" where
  "answered r c = (let c = set_req r (\<lambda>q. q\<lparr>req_status := insert reqResponded (req_status q) - {reqWork}\<rparr>) c
     in c\<lparr>c_reqs := AList.delete (fc_Tag (req_Tc (c_heap c r))) (c_reqs c)\<rparr>)"

lemma answered_simps [simp]:
  "c_heap (answered r c) = (c_heap c)(r := (c_heap c r)\<lparr>req_status := insert reqResponded (req_status (c_heap c r)) - {reqWork}\<rparr>)"
  "c_fids (answered r c) = c_fids c" "c_fidpool (answered r c) = c_fidpool c"
  "c_reqout (answered r c) = c_reqout c" "c_runq (answered r c) = c_runq c" "c_rnew (answered r c) = c_rnew c"
  "c_Msize (answered r c) = c_Msize c" "c_Dotu (answered r c) = c_Dotu c" "c_Srv (answered r c) = c_Srv c"
  "c_fs (answered r c) = c_fs c"
  "c_reqs (answered r c) = AList.delete (fc_Tag (req_Tc (c_heap c r))) (c_reqs c)"
  by (simp_all add: answered_def Let_def)

context tidy_responder
begin

lemma DecRef_refs:
  assumes "DecRef ops a c = Some c'"
  shows "refcount c' x = refcount c x - of_bool (x = a)" "same_reqs c c'"
  using DecRef_eq [OF assms] by auto

lemma walkPost_refs:
  assumes "walkPost r c = Some c'" "fc_Type (req_Tc (c_heap c r)) = Twalk"
  shows "(\<forall>x. refcount c' x = refcount c x + post_gain (c_fids c) (c_heap c r) x) \<and> same_reqs c c'"
  using assms
  by (auto simp: walkPost_def post_gain_def Let_def same_reqs_def IncRef_def msg_type_defs
      split: if_splits option.splits Option.bind_splits)

lemma post_handler_refs:
  assumes "post_handler ops r c = Some c'"
  shows "(\<forall>x. refcount c' x = refcount c x + post_gain (c_fids c) (c_heap c r) x) \<and> same_reqs c c'"
proof -
  let ?t = "fc_Type (req_Tc (c_heap c r))"
  consider "?t = Tauth" | "?t = Tattach" | "?t = Twalk" | "?t = Topen" | "?t = Tcreate" | "?t = Tread"
    | "?t = Tclunk" | "?t = Tremove"
    | "?t \<notin> {Tauth, Tattach, Twalk, Topen, Tcreate, Tread, Tclunk, Tremove}"
    by blast
  then show ?thesis
  proof cases
    case 1
    then show ?thesis using assms
      by (auto simp: post_handler_def authPost_def post_gain_def same_reqs_def IncRef_def msg_type_defs
          split: if_splits Option.bind_splits)
  next
    case 2
    then show ?thesis using assms
      by (auto simp: post_handler_def attachPost_def post_gain_def same_reqs_def IncRef_def msg_type_defs
          split: if_splits Option.bind_splits)
  next
    case 3
    then show ?thesis using assms walkPost_refs [of r c c'] by (simp add: post_handler_def msg_type_defs)
  next
    case 4
    then show ?thesis using assms
      by (auto simp: post_handler_def openPost_def post_gain_def same_reqs_def msg_type_defs split: option.splits)
  next
    case 5
    then show ?thesis using assms
      by (auto simp: post_handler_def createPost_def post_gain_def same_reqs_def msg_type_defs Let_def
          split: option.splits if_splits)
  next
    case 6
    then show ?thesis using assms
      by (auto simp: post_handler_def readPost_def post_gain_def same_reqs_def msg_type_defs Let_def
          split: Option.bind_splits if_splits)
  next
    case 7
    then show ?thesis using assms DecRef_refs
      by (cases "req_Fid (c_heap c r)")
         (auto simp: post_handler_def clunkPost_def post_gain_def msg_type_defs split: if_splits)
  next
    case 8
    then show ?thesis using assms DecRef_refs
      by (cases "req_Fid (c_heap c r)") (auto simp: post_handler_def removePost_def post_gain_def msg_type_defs)
  next
    case 9
    then have "c' = c" using assms by (simp add: post_handler_def Let_def)
    moreover have "post_gain (c_fids c) (c_heap c r) x = 0" for x
      using 9 by (simp add: post_gain_def Let_def)
    ultimately show ?thesis by simp
  qed
qed

lemma drop_slot_refs:
  assumes d: "drop_slot ops slot upd r c = Some c'"
    and none: "\<And>q. slot q = None \<Longrightarrow> upd (\<lambda>_. None) q = q"
  shows "(\<forall>x. refcount c' x = refcount c x - of_bool (slot (c_heap c r) = Some x))
    \<and> c_heap c' = (c_heap c)(r := upd (\<lambda>_. None) (c_heap c r)) \<and> same_but r c c'"
proof (cases "slot (c_heap c r)")
  case None
  then show ?thesis using d none by (simp add: drop_slot_def same_but_def)
next
  case (Some a)
  then obtain e where e: "DecRef ops a c = Some e" "c' = set_req r (upd (\<lambda>_. None)) e"
    using d by (auto simp: drop_slot_def split: Option.bind_splits)
  then show ?thesis
    using DecRef_refs [OF e(1)] Some by (simp add: same_but_def same_reqs_def)
qed

lemma PostProcess_refs:
  assumes "PostProcess ops r c = Some c'"
  shows "refcount c' x = refcount c x + post_gain (c_fids c) (c_heap c r) x - slot_refs (c_heap c r) x"
    and "c_heap c' = (c_heap c)(r := no_slots (c_heap c r))"
    and "c_reqs c' = c_reqs c" "c_reqout c' = c_reqout c" "c_runq c' = c_runq c" "c_rnew c' = c_rnew c"
      "c_Msize c' = c_Msize c" "c_Dotu c' = c_Dotu c" "c_Srv c' = c_Srv c"
      "fid_fid (c_fids c' x) = fid_fid (c_fids c x)"
proof -
  obtain d e f where d: "post_handler ops r c = Some d" "drop_slot ops req_Fid req_Fid_update r d = Some e"
      "drop_slot ops req_Afid req_Afid_update r e = Some f" "drop_slot ops req_Newfid req_Newfid_update r f = Some c'"
    using assms by (auto simp: PostProcess_def split: Option.bind_splits)
  note 1 = post_handler_refs [OF d(1)]
  note 2 = drop_slot_refs [OF d(2)] and 3 = drop_slot_refs [OF d(3)] and 4 = drop_slot_refs [OF d(4)]
  show "refcount c' x = refcount c x + post_gain (c_fids c) (c_heap c r) x - slot_refs (c_heap c r) x"
    using 1 2 3 4 by (simp add: slot_refs_def same_reqs_def)
  show "c_heap c' = (c_heap c)(r := no_slots (c_heap c r))"
    using 1 2 3 4 by (simp add: no_slots_def same_reqs_def)
  show "c_reqs c' = c_reqs c" "c_reqout c' = c_reqout c" "c_runq c' = c_runq c" "c_rnew c' = c_rnew c"
      "c_Msize c' = c_Msize c" "c_Dotu c' = c_Dotu c" "c_Srv c' = c_Srv c"
      "fid_fid (c_fids c' x) = fid_fid (c_fids c x)"
    using 1 2 3 4 by (simp_all add: same_reqs_def same_but_def)
qed

lemma respond_head_alone:
  assumes "\<not> responded c r" "req_prev (c_heap c r) = None"
  shows "respond_head ops r c = Option.bind (PostProcess ops r (answered r c))
    (\<lambda>d. Some (if reqFlush \<in> req_status (c_heap c r) then d else d\<lparr>c_reqout := c_reqout d @ [r]\<rparr>,
       req_flushreq (c_heap c r)))"
  using assms no_hook
  by (cases "PostProcess ops r (answered r c)")
     (simp_all add: respond_head_def responded_def unlink_req_def answered_def Let_def)

lemma Respond_alone:
  assumes "\<not> responded c r" "req_prev (c_heap c r) = None" "req_flushreq (c_heap c r) = None"
  shows "Respond ops r c = Option.bind (PostProcess ops r (answered r c))
    (\<lambda>d. Some (if reqFlush \<in> req_status (c_heap c r) then d else d\<lparr>c_reqout := c_reqout d @ [r]\<rparr>))"
  by (cases "PostProcess ops r (answered r c)")
     (simp_all add: Respond_def respond_head_alone [OF assms(1,2)] assms(3))

lemma Respond_again:
  assumes "responded c r"
  shows "Respond ops r c = Some (set_req r (\<lambda>q. q\<lparr>req_status := insert reqResponded (req_status q) - {reqWork}\<rparr>) c)"
  using assms by (simp add: Respond_def respond_head_def responded_def Let_def)

end

subsection \<open>The requests that flush a request\<close>

text \<open>The list of requests behind a \<open>flushreq\<close> pointer.\<close>

abbreviation chain :: "(nat \<Rightarrow> Req) \<Rightarrow> nat option \<Rightarrow> nat list \<Rightarrow> bool" where
  "chain h p fs \<equiv> path (\<lambda>f. req_flushreq (h f)) p fs"

lemma chain_cong: "(\<And>x. req_flushreq (h x) = req_flushreq (h' x)) \<Longrightarrow> chain h p fs = chain h' p fs"
  by (rule path_cong) simp_all

text \<open>A \<open>Tflush\<close> request that has not been answered, alone in its tag group.\<close>

definition flush_ready :: "('a, 's) Conn \<Rightarrow> nat \<Rightarrow> bool" where
  "flush_ready c f \<longleftrightarrow> fc_Type (req_Tc (c_heap c f)) = Tflush \<and> no_slots (c_heap c f) = c_heap c f
     \<and> req_prev (c_heap c f) = None \<and> req_status (c_heap c f) \<inter> {reqResponded, reqFlush} = {}"

definition flush_done :: "nat \<Rightarrow> ('a, 's) Conn \<Rightarrow> ('a, 's) Conn" where
  "flush_done f c = (answered f c)\<lparr>c_reqout := c_reqout c @ [f]\<rparr>"

lemma heap_fold_flush_done: "distinct fs \<Longrightarrow> c_heap (fold flush_done fs c) x =
    (if x \<in> set fs then (c_heap c x)\<lparr>req_status := insert reqResponded (req_status (c_heap c x)) - {reqWork}\<rparr>
     else c_heap c x)"
  by (induction fs arbitrary: c) (auto simp: flush_done_def)

lemma reqout_fold_flush_done: "c_reqout (fold flush_done fs c) = c_reqout c @ fs"
  by (induction fs arbitrary: c) (simp_all add: flush_done_def)

lemma flushreq_fold_flush_done:
  "distinct fs \<Longrightarrow> req_flushreq (c_heap (fold flush_done fs c) x) = req_flushreq (c_heap c x)"
  by (simp add: heap_fold_flush_done)

context tidy_responder
begin

lemma PostProcess_flush:
  assumes "flush_ready c f"
  shows "PostProcess ops f (answered f c) = Some (answered f c)"
proof -
  show ?thesis
    using assms by (simp add: no_slots_eq PostProcess_def post_handler_def drop_slot_def flush_ready_def msg_type_defs)
qed

lemma respond_head_flush: "flush_ready c f \<Longrightarrow>
    respond_head ops f c = Some (flush_done f c, req_flushreq (c_heap c f))"
  by (subst respond_head_alone) (auto simp: PostProcess_flush flush_ready_def responded_def flush_done_def)

lemma respond_flushes_again:
  "chain (c_heap c) p fs \<Longrightarrow> \<forall>f\<in>set fs. reqResponded \<in> req_status (c_heap c f) \<and> reqWork \<notin> req_status (c_heap c f) \<Longrightarrow>
   length fs < n \<Longrightarrow> respond_flushes n ops p c = Some c"
proof (induction fs arbitrary: p n)
  case (Cons f fs)
  then obtain m where n: "n = Suc (Suc m)" "length fs < Suc m"
    by (metis Suc_less_eq length_Cons less_imp_Suc_add Suc_lessE)
  have "set_req f (\<lambda>q. q\<lparr>req_status := insert reqResponded (req_status q) - {reqWork}\<rparr>) c = c"
    using Cons.prems(2) by (simp add: set_req_def insert_absorb)
  then have "respond_head ops f c = Some (c, None)"
    using Cons.prems(2) by (simp add: respond_head_def Let_def)
  then show ?case using Cons.prems Cons.IH [of _ "Suc m"] n by simp
qed simp

lemma respond_flushes_chain:
  "chain (c_heap c) p fs \<Longrightarrow> distinct fs \<Longrightarrow> \<forall>f\<in>set fs. flush_ready c f \<Longrightarrow> 2 * length fs \<le> n \<Longrightarrow>
   respond_flushes n ops p c = Some (fold flush_done fs c)"
proof (induction fs arbitrary: c p n)
  case (Cons f fs)
  then obtain m where n: "n = Suc (Suc m)" "2 * length fs \<le> m"
    by (cases n) (auto simp: numeral_2_eq_2 intro: that dest!: Suc_le_D)
  let ?d = "flush_done f c"
  let ?e = "fold flush_done fs ?d"
  have f: "flush_ready c f" "p = Some f" and c: "chain (c_heap c) (req_flushreq (c_heap c f)) fs"
    using Cons.prems by simp_all
  have h: "c_heap ?d = (c_heap c)(f := (c_heap c f)\<lparr>req_status := insert reqResponded (req_status (c_heap c f)) - {reqWork}\<rparr>)"
    by (simp add: flush_done_def)
  have "chain (c_heap ?d) (req_flushreq (c_heap c f)) fs"
    using c by (subst chain_cong [where h' = "c_heap c"]) (simp_all add: h)
  moreover have "\<forall>x\<in>set fs. flush_ready ?d x"
    using Cons.prems(2,3) by (auto simp: flush_ready_def h)
  ultimately have 1: "respond_flushes m ops (req_flushreq (c_heap c f)) ?d = Some ?e"
    using Cons.IH Cons.prems(2) n(2) by simp
  have 2: "req_flushreq (c_heap ?e f) = req_flushreq (c_heap c f)"
    using Cons.prems(2) by (simp add: flushreq_fold_flush_done h)
  have "chain (c_heap ?e) (req_flushreq (c_heap c f)) fs"
    using c Cons.prems(2) by (subst chain_cong [where h' = "c_heap c"])
      (simp_all add: flushreq_fold_flush_done h)
  moreover have "\<forall>x\<in>set fs. reqResponded \<in> req_status (c_heap ?e x) \<and> reqWork \<notin> req_status (c_heap ?e x)"
    using Cons.prems(2) by (simp add: heap_fold_flush_done)
  ultimately have 3: "respond_flushes (Suc m) ops (req_flushreq (c_heap c f)) ?e = Some ?e"
    using n(2) by (intro respond_flushes_again [where fs = fs]) auto
  show ?case
    using f(2) 1 2 3 by (simp add: n(1) respond_head_flush [OF f(1)])
qed simp

lemma Respond_chain:
  assumes r: "\<not> responded c r" "req_prev (c_heap c r) = None"
    and fs: "chain (c_heap c) (req_flushreq (c_heap c r)) fs" "distinct (r # fs)"
      "\<forall>f\<in>set fs. f < c_rnew c \<and> flush_ready c f"
    and d: "PostProcess ops r (answered r c) = Some d"
  shows "Respond ops r c = Some (fold flush_done fs
    (if reqFlush \<in> req_status (c_heap c r) then d else d\<lparr>c_reqout := c_reqout d @ [r]\<rparr>))"
proof -
  define e where "e = (if reqFlush \<in> req_status (c_heap c r) then d else d\<lparr>c_reqout := c_reqout d @ [r]\<rparr>)"
  have h: "c_heap d = (c_heap (answered r c))(r := no_slots (c_heap (answered r c) r))"
    by (rule PostProcess_refs [OF d])
  have "chain (c_heap e) (req_flushreq (c_heap c r)) fs"
    using fs(1) by (subst chain_cong [where h' = "c_heap c"]) (simp_all add: e_def h no_slots_def)
  moreover have "\<forall>f\<in>set fs. flush_ready e f"
    using fs(2,3) by (auto simp: flush_ready_def e_def h)
  moreover have "2 * length fs \<le> 2 * c_rnew c + 1"
  proof -
    have "card (set fs) \<le> card {..<c_rnew c}" using fs(3) by (intro card_mono) auto
    then show ?thesis using fs(2) by (simp add: distinct_card)
  qed
  ultimately have "respond_flushes (2 * c_rnew c + 1) ops (req_flushreq (c_heap c r)) e
      = Some (fold flush_done fs e)"
    using fs(2) by (intro respond_flushes_chain) auto
  then show ?thesis
    using d by (simp add: Respond_def respond_head_alone [OF r] e_def)
qed

end

interpretation fsrv_tidy: tidy_responder "fsrv_hooks fops" for fops
proof
  show "same_conn c c'" if "op_FidDestroy (fsrv_hooks fops) = Some f" "f a c = Some c'" for f a c c'
  proof -
    have "f = Fsrv_FidDestroy fops" using that(1) by (simp add: fsrv_hooks_def)
    then show ?thesis
      using that(2) by (auto simp: Fsrv_FidDestroy_def same_conn_def split: option.splits Option.bind_splits)
  qed
qed (simp add: fsrv_hooks_def)

interpretation fsrv_full: tidy_responder "fsrv_ops fops" for fops
proof
  show "same_conn c c'" if "op_FidDestroy (fsrv_ops fops) = Some f" "f a c = Some c'" for f a c c'
    using that fsrv_tidy.destroy_tidy [of fops f] by (simp add: fsrv_ops_def fsrv_hooks_def)
qed (simp add: fsrv_ops_def)

end
