(* ===== verification/Srv_Recv.thy ===== *)
theory Srv_Recv
  imports Srv_Reply P9_Wire
begin

section \<open>Messages and the chunks they arrive in (Conn.recv)\<close>

text \<open>
  \<open>recv\<close> works on a buffer with stale bytes behind the received ones, is given the stream in chunks
  of any size and enlarges the buffer when it is short.  \<open>cut_msgs\<close> is what it should do: cut the messages
  off the bytes received so far and make requests of them, in order.
\<close>

subsection \<open>The reference: cutting messages off a byte string\<close>

text \<open>\<open>None\<close> for the rest when the connection is closed.\<close>

function cut_msgs :: "bytes \<Rightarrow> ('a, 's) Conn \<Rightarrow> (bytes option \<times> ('a, 's) Conn) option" where
  "cut_msgs b c = (if length b \<le> 4 then Some (Some b, c)
     else do {
       (sz, _) \<leftarrow> gint32 b;
       if sz > c_Msize c then Some (None, c)
       else if length b < unat sz then Some (Some b, c)
       else do {
         u \<leftarrow> Unpack b (c_Dotu c);
         (case u of
            Inl _ \<Rightarrow> Some (None, c)
          | Inr (fc, n) \<Rightarrow> if n = 0 then None else cut_msgs (drop n b) (new_req fc c)) } })"
  by pat_completeness auto
termination by (relation "measure (\<lambda>(b, c). length b)") auto

declare cut_msgs.simps [simp del] recv_loop.simps [simp del]

lemma gint32_take: "4 \<le> n \<Longrightarrow> 4 \<le> length b \<Longrightarrow>
    map_option fst (gint32 (take n b)) = map_option fst (gint32 b)"
proof -
  assume a: "4 \<le> n" "4 \<le> length b"
  obtain b0 b1 b2 b3 r where "b = b0 # b1 # b2 # b3 # r"
    using a(2) by (auto simp: numeral_eq_Suc Suc_le_length_iff)
  then show ?thesis using a(1) by (simp add: gint32_def take_Cons')
qed

lemma gint32_append:
  assumes "4 < length a"
  obtains sz p where "gint32 a = Some (sz, p)" "gint32 (a @ b) = Some (sz, p @ b)"
proof -
  have "4 \<le> length a" using assms by simp
  then obtain b0 b1 b2 b3 r where "a = b0 # b1 # b2 # b3 # r"
    by (auto simp: numeral_eq_Suc Suc_le_length_iff)
  then show ?thesis by (intro that) (simp_all add: gint32_def)
qed

text \<open>\<open>Unpack\<close> looks at the announced bytes only; of an error only that it is one matters here.\<close>

definition no_text :: "(perror + Fcall \<times> nat) option \<Rightarrow> (unit + Fcall \<times> nat) option" where
  "no_text = map_option (map_sum (\<lambda>_. ()) id)"

lemma Unpack_take:
  assumes "4 < n" "n \<le> length b" "gint32 b = Some (sz, p)" "unat sz \<le> n"
  shows "no_text (Unpack (take n b) dotu) = no_text (Unpack b dotu)"
proof (cases "7 \<le> n")
  case True
  then obtain sz' t tag q where q: "gint32 b = Some (sz', t # q)" "gint16 q = Some (tag, drop 7 b)"
      "\<And>r. gint32 (take 7 b @ r) = Some (sz', t # take 2 q @ r)" "\<And>r. gint16 (take 2 q @ r) = Some (tag, r)"
    using Unpack_prefix [of b] assms(2) by auto
  have sz: "sz' = sz" "t # q = p" using q(1) assms(3) by auto
  have tk: "take n b = take 7 b @ take (n - 7) (drop 7 b)"
    using True by (metis le_add_diff_inverse take_add)
  have q': "gint32 b = Some (sz, t # q)" "gint32 (take n b) = Some (sz, t # take 2 q @ take (n - 7) (drop 7 b))"
    using q(1,3) sz tk by simp_all
  have n: "n - 7 \<le> length b - 7" "\<not> length b < 7" "\<not> n < 7" "length (take n b) = n" using assms(2) True by simp_all
  show ?thesis
  proof (cases "sz < 7")
    case True
    then show ?thesis using q' q(2,4) n by (simp add: Unpack_def no_text_def del: length_take)
  next
    case False
    then have "unat (sz - 7) = unat sz - 7" by (simp add: unat_sub linorder_not_less)
    moreover have "\<not> unat sz > n" "\<not> unat sz > length b" using assms(2,4) by simp_all
    moreover have "go_slice (take (n - 7) (drop 7 b)) 0 (unat sz - 7) = go_slice (drop 7 b) 0 (unat sz - 7)"
      using n assms(2,4) by (auto simp: go_slice_def min_def)
    moreover have "take (unat sz) (take n b) = take (unat sz) b" using assms(4) by (simp add: min_def)
    ultimately have "Unpack (take n b) dotu = Unpack b dotu"
      using q' q(2,4) n False by (simp add: Unpack_def Let_def del: length_take take_take)
    then show ?thesis by simp
  qed
next
  case False
  then have "sz < 7" using assms(4) by (simp add: word_less_nat_alt)
  moreover have "length b < 7 \<or> (\<exists>t tag q. gint32 b = Some (sz, t # q) \<and> gint16 q = Some (tag, drop 7 b))"
    using Unpack_prefix [of b] assms(3) by fastforce
  ultimately show ?thesis using False by (auto simp: Unpack_def no_text_def)
qed

lemma no_text_simps [simp]:
  "no_text u = None \<longleftrightarrow> u = None" "no_text u = Some (Inl ()) \<longleftrightarrow> (\<exists>e. u = Some (Inl e))"
  "no_text u = Some (Inr x) \<longleftrightarrow> u = Some (Inr x)"
  unfolding no_text_def by (cases u; cases "the u"; auto)+

lemma no_text_eqD:
  assumes "no_text u = no_text v"
  shows "(u = None \<longleftrightarrow> v = None) \<and> (\<forall>x. u = Some (Inr x) \<longleftrightarrow> v = Some (Inr x))
    \<and> ((\<exists>e. u = Some (Inl e)) \<longleftrightarrow> (\<exists>e. v = Some (Inl e)))"
  using assms by (metis no_text_simps)

lemma new_req_simps [simp]:
  "c_Msize (new_req fc c) = c_Msize c" "c_Dotu (new_req fc c) = c_Dotu c"
  by (simp_all add: new_req_def take_rc_def Let_def split: option.split list.split)

subsection \<open>The receive loop cuts\<close>

definition pending :: "recv_result \<times> ('a, 's) Conn \<Rightarrow> bytes option \<times> ('a, 's) Conn" where
  "pending x = (case x of (Again buf pos, c) \<Rightarrow> (Some (take pos buf), c) | (Closed, c) \<Rightarrow> (None, c))"

lemma pending_simps [simp]:
  "pending (Again buf pos, c) = (Some (take pos buf), c)" "pending (Closed, c) = (None, c)"
  by (simp_all add: pending_def)

definition in_buf :: "recv_result \<Rightarrow> bool" where
  "in_buf x = (case x of Again buf pos \<Rightarrow> pos \<le> length buf | Closed \<Rightarrow> True)"

lemma in_buf_simps [simp]: "in_buf (Again buf pos) = (pos \<le> length buf)" "in_buf Closed"
  by (simp_all add: in_buf_def)

text \<open>\<open>make([]byte, conn.Msize*8)\<close> does not overflow.\<close>

definition msize_ok :: "('a, 's) Conn \<Rightarrow> bool" where
  "msize_ok c \<longleftrightarrow> 8 * unat (c_Msize c) < 2 ^ 32"

lemma msize_ok_new_req [simp]: "msize_ok (new_req fc c) = msize_ok c"
  by (simp add: msize_ok_def)

lemma length_regrow: "msize_ok c \<Longrightarrow> length (regrow (c_Msize c) buf pos) = 8 * unat (c_Msize c)"
  by (simp add: regrow_def msize_ok_def unat_word_ariths mult.commute)

lemma regrow_keeps:
  assumes "msize_ok c" "pos \<le> length buf" "length buf \<le> unat (c_Msize c)"
  shows "pos \<le> length (regrow (c_Msize c) buf pos)" "take pos (regrow (c_Msize c) buf pos) = take pos buf"
proof -
  have "length (take pos buf) \<le> unat (c_Msize c * 8)"
    using assms by (simp add: msize_ok_def unat_word_ariths mult.commute)
  then show "take pos (regrow (c_Msize c) buf pos) = take pos buf"
    using take_go_copy [of "take pos buf" "replicate (unat (c_Msize c * 8)) 0"] assms(2)
    by (simp add: regrow_def min_absorb2)
  show "pos \<le> length (regrow (c_Msize c) buf pos)" using assms by (simp add: length_regrow)
qed

lemma recv_loop_cut:
  "pos \<le> length buf \<Longrightarrow> msize_ok c \<Longrightarrow>
   map_option pending (recv_loop buf pos c) = cut_msgs (take pos buf) c
   \<and> (\<forall>x d. recv_loop buf pos c = Some (x, d) \<longrightarrow> in_buf x \<and> c_Msize d = c_Msize c)"
proof (induction buf pos c rule: recv_loop.induct)
  case (1 buf pos c)
  show ?case
  proof (cases "pos \<le> 4")
    case True
    then show ?thesis using "1.prems" by (simp add: recv_loop.simps [of buf pos c] cut_msgs.simps [of "take pos buf" c])
  next
    case False
    then obtain sz p where g: "gint32 buf = Some (sz, p)"
      using "1.prems"(1) gint32_append [of buf "[]"] by (metis less_le_trans linorder_not_le)
    then obtain p' where g': "gint32 (take pos buf) = Some (sz, p')"
      using gint32_take [of pos buf] False "1.prems"(1) by auto
    have ln: "length (take pos buf) = pos" using "1.prems"(1) by simp
    show ?thesis
    proof (cases "sz > c_Msize c \<or> pos < unat sz")
      case True
      then show ?thesis
        using False g g' ln "1.prems" regrow_keeps [of c pos buf]
        by (auto simp: recv_loop.simps [of buf pos c] cut_msgs.simps [of "take pos buf" c] Gint32_def word_less_nat_alt)
    next
      case sz: False
      then have u: "no_text (Unpack (take pos buf) (c_Dotu c)) = no_text (Unpack buf (c_Dotu c))"
        using False "1.prems"(1) g by (intro Unpack_take) auto
      note e = no_text_eqD [OF u]
      show ?thesis
      proof (cases "Unpack buf (c_Dotu c)")
        case None
        then show ?thesis
          using False g g' ln sz e by (simp add: recv_loop.simps [of buf pos c] cut_msgs.simps [of "take pos buf" c] Gint32_def)
      next
        case (Some v)
        show ?thesis
        proof (cases v)
          case (Inl err)
          then obtain err' where "Unpack (take pos buf) (c_Dotu c) = Some (Inl err')" using Some e by blast
          then show ?thesis
            using False g g' ln sz Some Inl by (simp add: recv_loop.simps [of buf pos c] cut_msgs.simps [of "take pos buf" c] Gint32_def)
        next
          case (Inr w)
          obtain fc n where w: "w = (fc, n)" by (cases w)
          have U: "Unpack buf (c_Dotu c) = Some (Inr (fc, n))" using Some Inr w by simp
          then have U': "Unpack (take pos buf) (c_Dotu c) = Some (Inr (fc, n))" using e by blast
          have n: "7 \<le> n" "n \<le> pos" using Unpack_success [OF U'] ln by auto
          then have IH: "map_option pending (recv_loop (drop n buf) (pos - n) (new_req fc c))
                = cut_msgs (take (pos - n) (drop n buf)) (new_req fc c)
             \<and> (\<forall>x d. recv_loop (drop n buf) (pos - n) (new_req fc c) = Some (x, d) \<longrightarrow>
                  in_buf x \<and> c_Msize d = c_Msize (new_req fc c))"
            using "1.IH" [of "(sz, p)" sz p "Inr (fc, n)" "(fc, n)" fc n] False g sz U "1.prems"
            by (simp add: Gint32_def)
          then show ?thesis
            using False g g' ln sz U U' n
            by (simp add: recv_loop.simps [of buf pos c] cut_msgs.simps [of "take pos buf" c] Gint32_def drop_take)
        qed
      qed
    qed
  qed
qed

lemma cut_append:
  "cut_msgs (a @ b) c = Option.bind (cut_msgs a c)
    (\<lambda>(x, d). case x of Some r \<Rightarrow> cut_msgs (r @ b) d | None \<Rightarrow> Some (None, d))"
proof (induction a c rule: cut_msgs.induct)
  case (1 a c)
  note eqs = cut_msgs.simps [of a c] cut_msgs.simps [of "a @ b" c]
  show ?case
  proof (cases "length a \<le> 4")
    case True
    then show ?thesis by (simp add: cut_msgs.simps [of a c])
  next
    case False
    then obtain sz p where g: "gint32 a = Some (sz, p)" "gint32 (a @ b) = Some (sz, p @ b)"
      using gint32_append [of a b] by (auto simp: not_le)
    show ?thesis
    proof (cases "sz > c_Msize c")
      case True
      then show ?thesis using False g by (simp add: eqs)
    next
      case sz: False
      show ?thesis
      proof (cases "length a < unat sz")
        case True
        then show ?thesis using False g sz by (simp add: cut_msgs.simps [of a c])
      next
        case l: False
        then have u: "no_text (Unpack a (c_Dotu c)) = no_text (Unpack (a @ b) (c_Dotu c))"
          using False g Unpack_take [of "length a" "a @ b" sz "p @ b" "c_Dotu c"] by simp
        note e = no_text_eqD [OF u]
        consider "Unpack a (c_Dotu c) = None" | err where "Unpack a (c_Dotu c) = Some (Inl err)"
          | fc n where "Unpack a (c_Dotu c) = Some (Inr (fc, n))"
          by (metis (no_types) not_None_eq old.sum.exhaust surj_pair)
        then show ?thesis
        proof cases
          case 1
          then show ?thesis using False g sz l e by (simp add: eqs)
        next
          case (2 err)
          then obtain err' where "Unpack (a @ b) (c_Dotu c) = Some (Inl err')" using e by blast
          then show ?thesis using False g sz l 2 by (simp add: eqs)
        next
          case U: (3 fc n)
          then have U': "Unpack (a @ b) (c_Dotu c) = Some (Inr (fc, n))" using e by blast
          have n: "7 \<le> n" "n \<le> length a" using Unpack_success [OF U] by auto
          have "cut_msgs (drop n a @ b) (new_req fc c) = Option.bind (cut_msgs (drop n a) (new_req fc c))
              (\<lambda>(x, d). case x of Some r \<Rightarrow> cut_msgs (r @ b) d | None \<Rightarrow> Some (None, d))"
            using "1.IH" [of "(sz, p)" sz p "Inr (fc, n)" "(fc, n)" fc n] False g sz l U n by simp
          then show ?thesis using False g sz l U U' n by (simp add: eqs)
        qed
      qed
    qed
  qed
qed

lemma cut_settled: "cut_msgs a c = Some (Some r, d) \<Longrightarrow> cut_msgs r d = Some (Some r, d)"
  using cut_append [of a "[]" c] by simp

subsection \<open>Rounds\<close>

text \<open>The outer loop of \<open>recv\<close>, given the chunks that \<open>Read\<close> returns.\<close>

fun recv_rounds :: "bytes list \<Rightarrow> bytes \<Rightarrow> nat \<Rightarrow> ('a, 's) Conn \<Rightarrow> (recv_result \<times> ('a, 's) Conn) option" where
  "recv_rounds [] buf pos c = Some (Again buf pos, c)"
| "recv_rounds (chunk # chunks) buf pos c = do {
     (x, c) \<leftarrow> recv_read chunk buf pos c;
     (case x of Again buf pos \<Rightarrow> recv_rounds chunks buf pos c | Closed \<Rightarrow> Some (Closed, c)) }"

text \<open>\<open>Read\<close> stores at least one byte and at most as many as there is room for.\<close>

definition chunk_ok :: "bytes \<Rightarrow> bytes \<Rightarrow> nat \<Rightarrow> ('a, 's) Conn \<Rightarrow> bool" where
  "chunk_ok chunk buf pos c \<longleftrightarrow> chunk \<noteq> []
     \<and> pos + length chunk \<le> (if length buf < unat (c_Msize c) then 8 * unat (c_Msize c) else length buf)"

fun chunks_ok :: "bytes list \<Rightarrow> bytes \<Rightarrow> nat \<Rightarrow> ('a, 's) Conn \<Rightarrow> bool" where
  "chunks_ok [] buf pos c = True"
| "chunks_ok (chunk # chunks) buf pos c = (chunk_ok chunk buf pos c
     \<and> (case recv_read chunk buf pos c of Some (Again buf pos, c) \<Rightarrow> chunks_ok chunks buf pos c | _ \<Rightarrow> True))"

lemma recv_read_cut:
  assumes "pos \<le> length buf" "msize_ok c" "chunk_ok chunk buf pos c"
  shows "map_option pending (recv_read chunk buf pos c) = cut_msgs (take pos buf @ chunk) c
   \<and> (\<forall>x d. recv_read chunk buf pos c = Some (x, d) \<longrightarrow> in_buf x \<and> c_Msize d = c_Msize c)"
proof -
  define b where "b = (if length buf < unat (c_Msize c) then regrow (c_Msize c) buf pos else buf)"
  have b: "pos \<le> length b" "take pos b = take pos buf" "pos + length chunk \<le> length b" "chunk \<noteq> []"
    using assms regrow_keeps [of c pos buf] by (auto simp: b_def chunk_ok_def length_regrow)
  then have r: "recv_read chunk buf pos c
      = recv_loop (take pos b @ chunk @ drop (pos + length chunk) b) (pos + length chunk) c"
    by (simp add: recv_read_def b_def Let_def)
  show ?thesis
    unfolding r using recv_loop_cut [of "pos + length chunk" "take pos b @ chunk @ drop (pos + length chunk) b" c] b assms(1,2)
    by (simp add: min_absorb2)
qed

lemma recv_rounds_cut:
  "pos \<le> length buf \<Longrightarrow> msize_ok c \<Longrightarrow> chunks_ok chunks buf pos c \<Longrightarrow>
   cut_msgs (take pos buf) c = Some (Some (take pos buf), c) \<Longrightarrow>
   map_option pending (recv_rounds chunks buf pos c) = cut_msgs (take pos buf @ concat chunks) c"
proof (induction chunks arbitrary: buf pos c)
  case (Cons chunk chunks)
  have step: "map_option pending (recv_read chunk buf pos c) = cut_msgs (take pos buf @ chunk) c"
      "\<And>x d. recv_read chunk buf pos c = Some (x, d) \<Longrightarrow> in_buf x \<and> c_Msize d = c_Msize c"
    using recv_read_cut [of pos buf c chunk] Cons.prems by auto
  note app = cut_append [of "take pos buf @ chunk" "concat chunks" c]
  show ?case
  proof (cases "recv_read chunk buf pos c")
    case None
    then show ?thesis using step(1) app by simp
  next
    case (Some y)
    obtain x d where y: "y = (x, d)" by (cases y)
    show ?thesis
    proof (cases x)
      case (Again b p)
      then have cut: "cut_msgs (take pos buf @ chunk) c = Some (Some (take p b), d)" "p \<le> length b" "msize_ok d"
        using step Some y Cons.prems(2) by (force simp: msize_ok_def)+
      then have "map_option pending (recv_rounds chunks b p d) = cut_msgs (take p b @ concat chunks) d"
        using Cons.prems(3) Some y Again by (intro Cons.IH) (auto intro: cut_settled)
      then show ?thesis using Some y Again cut(1) app by simp
    next
      case Closed
      then have "cut_msgs (take pos buf @ chunk) c = Some (None, d)" using step(1) Some y by simp
      then show ?thesis using Some y Closed app by simp
    qed
  qed
qed simp

lemma recv_rounds_in_buf:
  "pos \<le> length buf \<Longrightarrow> msize_ok c \<Longrightarrow> chunks_ok chunks buf pos c \<Longrightarrow>
   recv_rounds chunks buf pos c = Some (x, d) \<Longrightarrow> in_buf x"
proof (induction chunks arbitrary: buf pos c)
  case (Cons chunk chunks)
  then obtain y e where y: "recv_read chunk buf pos c = Some (y, e)" by (auto split: Option.bind_splits)
  then have "in_buf y" "msize_ok e"
    using recv_read_cut [of pos buf c chunk] Cons.prems by (auto simp: msize_ok_def)
  then show ?case using Cons y by (cases y) auto
qed auto

text \<open>C19: However the bytes of the client are split into chunks, and whatever stale bytes the receive
  buffer holds, \<open>recv\<close> makes the same requests of them in the same order, closes the connection on the
  same inputs, panics on the same inputs and keeps the same incomplete rest: those of \<open>cut_msgs\<close> on
  the whole byte string.\<close>

theorem recv_any_chunks:
  assumes "msize_ok c" "pos \<le> length buf" "pos \<le> 4" "chunks_ok chunks buf pos c"
  shows "map_option pending (recv_rounds chunks buf pos c) = cut_msgs (take pos buf @ concat chunks) c"
  using assms by (intro recv_rounds_cut) (simp_all add: cut_msgs.simps [of "take pos buf" c])

text \<open>A \<open>Tclunk\<close> with tag 5 in two pieces.\<close>

definition clunk_bytes :: bytes where
  "clunk_bytes = [11, 0, 0, 0, 120, 5, 0, 1, 0, 0, 0]"

lemma cut_clunk_head: "cut_msgs [11, 0, 0] (NewConn bare_srv no_files :: unit fconn)
    = Some (Some [11, 0, 0], NewConn bare_srv no_files)"
  by (simp add: cut_msgs.simps)

lemma recv_any_chunks_witness:
  "map_option pending (recv_rounds [[11, 0, 0], [0, 120, 5, 0, 1, 0, 0, 0]] (replicate 65536 9) 0 
      (NewConn bare_srv no_files :: unit fconn))
    = cut_msgs clunk_bytes (NewConn bare_srv no_files)"
proof -
  let ?c = "NewConn bare_srv no_files :: unit fconn"
  have m: "c_Msize ?c = 8192" by (simp add: NewConn_def bare_srv_def)
  have r: "recv_read [11, 0, 0] (replicate 65536 9) 0 ?c = Some (Again ([11, 0, 0] @ replicate 65533 9) 3, ?c)"
    by (simp add: recv_read_def m recv_loop.simps Let_def)
  have "chunks_ok [[11, 0, 0], [0, 120, 5, 0, 1, 0, 0, 0]] (replicate 65536 9) 0 ?c"
    by (simp add: r m chunk_ok_def split: option.split recv_result.split prod.split)
  then show ?thesis
    using recv_any_chunks [of ?c 0 "replicate 65536 9" "[[11, 0, 0], [0, 120, 5, 0, 1, 0, 0, 0]]"]
    by (simp add: msize_ok_def m clunk_bytes_def del: recv_rounds.simps)
qed

subsection \<open>Delivery\<close>

definition frames :: "bool \<Rightarrow> (msg \<times> u16) list \<Rightarrow> bytes" where
  "frames dotu ms = concat (map (\<lambda>(m, tag). frame m dotu tag) ms)"

definition sendable :: "('a, 's) Conn \<Rightarrow> msg \<times> u16 \<Rightarrow> bool" where
  "sendable c = (\<lambda>(m, tag). msg_ok m (c_Dotu c) \<and> (m = MRwstat \<longrightarrow> c_Dotu c)
     \<and> length (frame m (c_Dotu c) tag) \<le> unat (c_Msize c))"

text \<open>What is expected of the request made of a message.\<close>

definition carries :: "bool \<Rightarrow> Fcall \<Rightarrow> msg \<times> u16 \<Rightarrow> bool" where
  "carries dotu fc = (\<lambda>(m, tag). read_msg fc = Some (wire_msg m dotu) \<and> fc_Tag fc = tag)"

lemma cut_frames:
  "list_all (sendable c) ms \<Longrightarrow> \<exists>fcs. list_all2 (carries (c_Dotu c)) fcs ms
    \<and> cut_msgs (frames (c_Dotu c) ms @ rest) c = cut_msgs rest (fold new_req fcs c)"
proof (induction ms arbitrary: c)
  case (Cons x ms)
  obtain m tag where x: "x = (m, tag)" by (cases x)
  let ?f = "frame m (c_Dotu c) tag" and ?r = "frames (c_Dotu c) ms @ rest"
  have ok: "msg_ok m (c_Dotu c)" "m = MRwstat \<Longrightarrow> c_Dotu c" "length ?f \<le> unat (c_Msize c)"
    using Cons.prems x by (auto simp: sendable_def)
  obtain fc where fc: "Unpack (?f @ ?r) (c_Dotu c) = Some (Inr (fc, length ?f))"
      "read_msg fc = Some (wire_msg m (c_Dotu c))" "fc_Tag fc = tag"
    using Unpack_msg [OF ok(1,2), of tag ?r] by auto
  obtain sz p where g: "gint32 (?f @ ?r) = Some (sz, p)" "unat sz = length ?f" "7 \<le> length ?f"
    using Unpack_success [OF fc(1)] by auto
  have "\<not> sz > c_Msize c" using ok(3) g(2) by (simp add: word_less_nat_alt)
  then have "cut_msgs (?f @ ?r) c = cut_msgs ?r (new_req fc c)"
    using g fc(1) by (subst cut_msgs.simps) auto
  moreover obtain fcs where "list_all2 (carries (c_Dotu c)) fcs ms"
      "cut_msgs ?r (new_req fc c) = cut_msgs rest (fold new_req fcs (new_req fc c))"
    using Cons.IH [of "new_req fc c"] Cons.prems by (auto simp: sendable_def)
  moreover have carries: "carries (c_Dotu c) fc (m, tag)" using fc by (simp add: carries_def)
  ultimately show ?case
    using fc x carries by (intro exI [of _ "fc # fcs"]) (simp add: frames_def)
qed (auto simp: frames_def)

text \<open>C18: A client that sends well-formed messages, none longer than the message size, gets one request
  for each of them, in the order they were sent, with the message and the tag that were sent; nothing
  is left in the buffer and the connection stays open, however the network splits the bytes.\<close>

theorem recv_delivers:
  assumes "msize_ok c" "list_all (sendable c) ms" "concat chunks = frames (c_Dotu c) ms"
    and "chunks_ok chunks (replicate n 0) 0 c"
  shows "\<exists>fcs buf. list_all2 (carries (c_Dotu c)) fcs ms
    \<and> recv_rounds chunks (replicate n 0) 0 c = Some (Again buf 0, fold new_req fcs c)"
proof -
  obtain fcs where fcs: "list_all2 (carries (c_Dotu c)) fcs ms"
      "cut_msgs (frames (c_Dotu c) ms @ []) c = cut_msgs [] (fold new_req fcs c)"
    using cut_frames [OF assms(2), of "[]"] by auto
  have "map_option pending (recv_rounds chunks (replicate n 0) 0 c) = Some (Some [], fold new_req fcs c)"
    using recv_rounds_cut [of 0 "replicate n 0" c chunks] assms fcs(2) by (simp add: cut_msgs.simps [of "[]"])
  then obtain x where x: "recv_rounds chunks (replicate n 0) 0 c = Some (x, fold new_req fcs c)"
      "pending (x, fold new_req fcs c) = (Some [], fold new_req fcs c)"
    by (cases "recv_rounds chunks (replicate n 0) 0 c") (auto simp: pending_def split: prod.splits recv_result.splits)
  moreover have "in_buf x" using recv_rounds_in_buf assms(1,4) x(1) by (metis le0)
  ultimately have "\<exists>buf. x = Again buf 0" by (cases x) auto
  then show ?thesis using x(1) fcs(1) by blast
qed

lemma recv_delivers_witness:
  "\<exists>fcs buf. list_all2 (carries True) fcs [(MTclunk 1, 5)]
    \<and> recv_rounds [[11, 0, 0], [0, 120, 5, 0, 1, 0, 0, 0]] (replicate 65536 0) 0
        (NewConn bare_srv no_files :: unit fconn) = Some (Again buf 0, fold new_req fcs (NewConn bare_srv no_files))"
proof -
  let ?c = "NewConn bare_srv no_files :: unit fconn"
  have m: "c_Msize ?c = 8192" "c_Dotu ?c" by (simp_all add: NewConn_def bare_srv_def)
  have r: "recv_read [11, 0, 0] (replicate 65536 0) 0 ?c = Some (Again ([11, 0, 0] @ replicate 65533 0) 3, ?c)"
    by (simp add: recv_read_def m recv_loop.simps Let_def)
  have "chunks_ok [[11, 0, 0], [0, 120, 5, 0, 1, 0, 0, 0]] (replicate 65536 0) 0 ?c"
    by (simp add: r m chunk_ok_def split: option.split recv_result.split prod.split)
  moreover have f: "frame (MTclunk 1) True 5 = clunk_bytes" unfolding clunk_bytes_def by code_simp
  moreover have "list_all (sendable ?c) [(MTclunk 1, 5)]"
    using f by (simp add: sendable_def m msg_ok_def clunk_bytes_def)
  ultimately show ?thesis
    using recv_delivers [of ?c "[(MTclunk 1, 5)]" "[[11, 0, 0], [0, 120, 5, 0, 1, 0, 0, 0]]" 65536]
    by (simp add: msize_ok_def m frames_def clunk_bytes_def del: recv_rounds.simps)
qed

end
