(* ===== verification/Srv_Faults.thy ===== *)
theory Srv_Faults
  imports Srv_Reply P9_Limits
begin

section \<open>Where the server goes wrong\<close>

text \<open>
  Inputs on which the code of \<open>srv\<close> panics, never answers, or answers what it did not do.  All are
  messages that any client can send.
\<close>

text \<open>A response buffer in which every error message of the package fits.\<close>

definition room :: "('a, 's) Conn \<Rightarrow> nat \<Rightarrow> bool" where
  "room c r \<longleftrightarrow> 64 \<le> length (fc_Buf (req_Rc (c_heap c r)))"

lemma reject_eq:
  assumes "room c r" "length (Error_Error (Some e)) \<le> 40"
  obtains rc where "fc_Type rc = Rerror" "length (fc_Buf rc) = length (fc_Buf (req_Rc (c_heap c r)))"
    "RespondError ops r (PErr e) c = Respond ops r (set_Rc r rc c)"
proof -
  have "str_ok (Error_Error (Some e))" using assms(2) by (simp add: str_ok_def)
  then obtain rc where rc: "PackRerror (req_Rc (c_heap c r)) (Error_Error (Some e)) (err_Errornum e) (c_Dotu c)
      = Some (Inr rc)" "is_packed (req_Rc (c_heap c r)) Rerror
        (body (MRerror (Error_Error (Some e)) (err_Errornum e)) (c_Dotu c)) rc"
    using packs_PackRerror [of "Error_Error (Some e)" "req_Rc (c_heap c r)" "err_Errornum e" "c_Dotu c"] assms
    by (auto simp: packs_def room_def split: if_splits)
  show ?thesis
    by (rule that [of rc]) (use rc assms in \<open>auto simp: RespondError_def is_packed_def room_def\<close>)
qed

lemma error_texts:
  "length (Error_Error (Some Eunknownfid)) \<le> 40" "length (Error_Error (Some Eopen)) \<le> 40"
  by code_simp+

subsection \<open>Panics\<close>

text \<open>C14: Response buffers are used again with the type of their last reply still in them.  If a \<open>Tread\<close>
  that no goroutine has taken up got the buffer of an earlier \<open>Rread\<close>, a flush of it makes the server
  panic: \<open>readPost\<close> finds an \<open>Rread\<close> and uses \<open>req.Fid\<close>, which is nil.\<close>

theorem flush_recycled_panics:
  assumes "map_of (c_reqs c) (fc_Oldtag (req_Tc (c_heap c r))) = Some old" "r \<noteq> old"
    and "req_status (c_heap c old) = {}" "req_prev (c_heap c old) = None" "req_Fid (c_heap c old) = None"
    and "fc_Type (req_Tc (c_heap c old)) = Tread" "fc_Type (req_Rc (c_heap c old)) = Rread"
  shows "flush (fsrv_ops fops) r c = None"
proof (cases "PackRflush (req_Rc (c_heap c r))")
  case (Some p)
  define e where "e = set_req old (\<lambda>q. q\<lparr>req_status := insert reqFlush (req_status q)\<rparr>)
    (set_req old (\<lambda>q. q\<lparr>req_flushreq := Some r\<rparr>)
    (set_req r (\<lambda>q. q\<lparr>req_flushreq := req_flushreq (c_heap c old)\<rparr>)
      (case p of Inl _ \<Rightarrow> c | Inr rc \<Rightarrow> set_Rc r rc c)))"
  have h: "c_heap e old = (c_heap c old)\<lparr>req_flushreq := Some r, req_status := {reqFlush}\<rparr>"
    using assms(2,3) by (simp add: e_def split: sum.split)
  have "PostProcess (fsrv_ops fops) old (answered old e) = None"
    using assms(5-7) by (simp add: PostProcess_def post_handler_def readPost_def h msg_type_defs)
  then have "respond_head (fsrv_ops fops) old e = None"
    using assms(4) by (subst fsrv_full.respond_head_alone) (simp_all add: responded_def h)
  then have "Respond (fsrv_ops fops) old e = None"
    by (simp add: Respond_def)
  moreover have "flush (fsrv_ops fops) r c = Respond (fsrv_ops fops) old e"
    using Some assms(1-3) by (simp add: flush_def flush_old_def e_def split: sum.split)
  ultimately show ?thesis by simp
qed (simp add: flush_def)

definition recycled_read :: "Req list" where
  "recycled_read = [zero_Req\<lparr>req_Tc := zero_Fcall\<lparr>fc_Type := Tread, fc_Tag := 5\<rparr>,
       req_Rc := zero_Fcall\<lparr>fc_Type := Rread\<rparr>\<rparr>,
     zero_Req\<lparr>req_Tc := zero_Fcall\<lparr>fc_Type := Tflush, fc_Tag := 6, fc_Oldtag := 5\<rparr>, req_Rc := NewFcall 32,
       req_status := {reqWork}\<rparr>]"

lemma flush_recycled_panics_witness:
  "flush (fsrv_ops no_methods) 1 (conn_with recycled_read [(6, 1), (5, 0)]) = None"
  by (rule flush_recycled_panics [of _ _ 0]) (simp_all add: recycled_read_def)

text \<open>C15: A \<open>Tattach\<close> with an \<open>afid\<close> that is not in the table makes the server panic for every known
  user: the error response drops \<open>req.Fid\<close>, the handler goes on and stores the user in it.\<close>

theorem attach_unknown_afid_panics:
  assumes "req_status (c_heap c r) = {reqWork}" "req_prev (c_heap c r) = None" "req_flushreq (c_heap c r) = None"
    and "fc_Fid (req_Tc (c_heap c r)) \<noteq> NOFID" "map_of (c_fidpool c) (fc_Fid (req_Tc (c_heap c r))) = None"
    and "fc_Afid (req_Tc (c_heap c r)) \<noteq> NOFID" "fc_Afid (req_Tc (c_heap c r)) \<noteq> fc_Fid (req_Tc (c_heap c r))"
    and "map_of (c_fidpool c) (fc_Afid (req_Tc (c_heap c r))) = None"
    and "find_user (req_Tc (c_heap c r)) c = Some user" "room c r"
  shows "attach (fsrv_ops fops) r c = None"
proof -
  let ?tc = "req_Tc (c_heap c r)"
  obtain a c1 where new: "FidNew (fc_Fid ?tc) c = (Some a, c1)" and c1: "c_heap c1 = c_heap c"
      "c_fidpool c1 = AList.update (fc_Fid ?tc) a (c_fidpool c)" "c_Dotu c1 = c_Dotu c" "c_Srv c1 = c_Srv c"
    using assms(5) by (auto simp: FidNew_def Let_def)
  define c2 where "c2 = set_req r (\<lambda>q. q\<lparr>req_Afid := None\<rparr>) (set_req r (\<lambda>q. q\<lparr>req_Fid := Some a\<rparr>) c1)"
  have get: "FidGet (fc_Afid ?tc) (set_req r (\<lambda>q. q\<lparr>req_Fid := Some a\<rparr>) c1)
      = (None, set_req r (\<lambda>q. q\<lparr>req_Fid := Some a\<rparr>) c1)"
    using assms(7,8) by (simp add: FidGet_def c1 update_conv')
  have eq: "attach (fsrv_ops fops) r c =
      Option.bind (reject (fsrv_ops fops) r Eunknownfid c2) (attach_user (fsrv_ops fops) r)"
    using assms(4,6) by (simp add: attach_def new get Let_def c2_def)
  have "room c2 r" using assms(10) by (simp add: room_def c2_def c1)
  then obtain rc where rj: "reject (fsrv_ops fops) r Eunknownfid c2 = Respond (fsrv_ops fops) r (set_Rc r rc c2)"
    using reject_eq error_texts(1) by metis
  show ?thesis
  proof (cases "Respond (fsrv_ops fops) r (set_Rc r rc c2)")
    case (Some d)
    have "\<not> responded (set_Rc r rc c2) r" "req_prev (c_heap (set_Rc r rc c2) r) = None"
        "req_flushreq (c_heap (set_Rc r rc c2) r) = None"
      using assms(1-3) by (simp_all add: c2_def c1 responded_def)
    from fsrv_full.Respond_alone [OF this, of fops] Some
    obtain e where e: "PostProcess (fsrv_ops fops) r (answered r (set_Rc r rc c2)) = Some e"
        "c_heap d = c_heap e" "c_Dotu d = c_Dotu e" "c_Srv d = c_Srv e"
      by (auto split: Option.bind_splits if_splits)
    note pp = fsrv_full.PostProcess_refs [OF e(1)]
    have "c_heap d r = no_slots (c_heap (answered r (set_Rc r rc c2)) r)" by (simp add: e(2) pp(2))
    then have "req_Fid (c_heap d r) = None" "req_Tc (c_heap d r) = ?tc" by (simp_all add: no_slots_def c2_def c1)
    moreover have "find_user ?tc d = Some user"
      using assms(9) by (simp add: find_user_def e(3,4) pp(8,9) c2_def c1)
    ultimately show ?thesis by (simp add: eq rj Some attach_user_def)
  qed (simp add: eq rj)
qed

definition some_user :: User where
  "some_user = \<lparr>usr_Name = ''glenda'', usr_Id = 0, usr_Groups = []\<rparr>"

definition attach_afid :: "unit fconn" where
  "attach_afid = (conn_with [zero_Req\<lparr>req_Tc := zero_Fcall\<lparr>fc_Type := Tattach, fc_Fid := 1, fc_Afid := 2\<rparr>,
       req_Rc := NewFcall 64, req_status := {reqWork}\<rparr>] [(0, 0)])
     \<lparr>c_Srv := bare_srv\<lparr>srv_Upool := \<lparr>up_Uid2User = (\<lambda>_. Some some_user), up_Uname2User = (\<lambda>_. None),
       up_Gid2Group = (\<lambda>_. None), up_Gname2Group = (\<lambda>_. None)\<rparr>\<rparr>\<rparr>"

lemma attach_unknown_afid_panics_witness: "attach (fsrv_ops no_methods) 0 attach_afid = None"
  by (rule attach_unknown_afid_panics [where user = some_user])
     (simp_all add: attach_afid_def find_user_def room_def NewFcall_def NOFID_def)

text \<open>C16: The size check of a \<open>Tread\<close> adds \<open>IOHDRSZ\<close> to the count in 32 bits.  For the four largest
  counts the sum wraps, the check passes, and the server panics in \<open>InitRread\<close>.\<close>

theorem read_count_wraps:
  assumes "req_Fid (c_heap c r) = Some a" "fid_Type (c_fids c a) AND QTDIR = 0"
    and "2 ^ 32 - 4 \<le> unat (fc_Count (req_Tc (c_heap c r)))"
    and "24 \<le> unat (c_Msize c)" "10 \<le> length (fc_Buf (req_Rc (c_heap c r)))"
  shows "read (fsrv_ops fops) r c = None"
proof -
  let ?n = "fc_Count (req_Tc (c_heap c r))"
  have n: "InitRread (req_Rc (c_heap c r)) ?n = None" using assms(3,5) by (rule InitRread_None)
  have "unat ?n < 2 ^ 32" using unsigned_less [of ?n, where ?'a = nat] by simp
  moreover have "unat (?n + IOHDRSZ) = (unat ?n + 24) mod 2 ^ 32" by (simp add: unat_word_ariths IOHDRSZ_def)
  moreover have "(unat ?n + 24) mod 2 ^ 32 = (unat ?n + 24 - 2 ^ 32) mod 2 ^ 32"
    using assms(3) by (intro le_mod_geq) simp
  moreover have "(unat ?n + 24 - 2 ^ 32) mod 2 ^ 32 \<le> unat ?n + 24 - 2 ^ 32" by (rule mod_less_eq_dividend)
  ultimately have "unat (?n + IOHDRSZ) \<le> 23" by linarith
  then have "\<not> ?n + IOHDRSZ > c_Msize c" using assms(4) by (simp add: word_less_nat_alt)
  moreover have "Fsrv_Read fops r c = None"
    using assms(1) n by (cases "fid_Aux (c_fids c a)") (simp_all add: Fsrv_Read_def with_ffid_def Let_def)
  moreover have "auth_read (fsrv_ops fops) r a c = None" using n by (simp add: auth_read_def Let_def)
  moreover have "op_Read (fsrv_ops fops) = Fsrv_Read fops" by (simp add: fsrv_ops_def)
  ultimately show ?thesis
    using assms(1,2) by (simp add: read_def with_fid_def Let_def)
qed

definition read_most :: "unit fconn" where
  "read_most = conn_with [zero_Req\<lparr>req_Tc := zero_Fcall\<lparr>fc_Type := Tread, fc_Count := 0xFFFFFFFF\<rparr>,
     req_Rc := NewFcall 64, req_Fid := Some 0\<rparr>] []"

lemma read_count_wraps_witness: "read (fsrv_ops no_methods) 0 read_most = None"
  by (rule read_count_wraps [where a = 0]) (simp_all add: read_most_def NewFcall_def)

subsection \<open>Requests without an answer\<close>

text \<open>A \<open>Tflush\<close> whose \<open>oldtag\<close> is its own tag is never answered: it waits for itself, in a list of
  flush requests that is a cycle.\<close>

lemma self_flush_unanswered:
  assumes "map_of (c_reqs c) (fc_Oldtag (req_Tc (c_heap c r))) = Some r" "reqWork \<in> req_status (c_heap c r)"
    and "PackRflush (req_Rc (c_heap c r)) \<noteq> None"
  shows "\<exists>d. flush (fsrv_ops fops) r c = Some d \<and> c_reqout d = c_reqout c
    \<and> req_status (c_heap d r) = req_status (c_heap c r) \<and> req_flushreq (c_heap d r) = Some r"
  using assms by (auto simp: flush_def flush_old_def fsrv_ops_def split: sum.split)

lemma self_flush_unanswered_witness:
  "let c = conn_with [zero_Req\<lparr>req_Tc := zero_Fcall\<lparr>fc_Type := Tflush\<rparr>, req_Rc := NewFcall 32,
       req_status := {reqWork}\<rparr>] [(0, 0)] in
   \<exists>d. flush (fsrv_ops no_methods) 0 c = Some d \<and> c_reqout d = c_reqout c
    \<and> req_status (c_heap d 0) = req_status (c_heap c 0) \<and> req_flushreq (c_heap d 0) = Some 0"
  unfolding Let_def
  by (rule self_flush_unanswered) (use PackRflush_fits in \<open>simp_all split: option.splits\<close>)

subsection \<open>Answers that are wrong\<close>

text \<open>The end of a request that holds one fid, has a reply in \<open>Rc\<close> and nothing else going on.\<close>

definition lone :: "('a, 's) Conn \<Rightarrow> nat \<Rightarrow> nat \<Rightarrow> bool" where
  "lone c r a \<longleftrightarrow> req_status (c_heap c r) = {reqWork} \<and> req_prev (c_heap c r) = None
     \<and> req_flushreq (c_heap c r) = None \<and> req_Fid (c_heap c r) = Some a \<and> req_Afid (c_heap c r) = None
     \<and> req_Newfid (c_heap c r) = None \<and> 1 < fid_refcount (c_fids c a)"

definition drop_fid :: "nat \<Rightarrow> nat \<Rightarrow> ('a, 's) Conn \<Rightarrow> ('a, 's) Conn" where
  "drop_fid r a c = set_req r (\<lambda>q. q\<lparr>req_Fid := None\<rparr>)
     (set_fid a (\<lambda>f. f\<lparr>fid_refcount := fid_refcount f - 1\<rparr>) c)"

lemma Respond_lone:
  assumes "lone c r a" "post_handler ops r (answered r c) = Some (set_fid a f (answered r c))"
    "\<And>x. fid_refcount (f x) = fid_refcount x" "op_ReqRespond ops = None"
  shows "Respond ops r c = Some (let d = drop_fid r a (set_fid a f (answered r c)) in d\<lparr>c_reqout := c_reqout d @ [r]\<rparr>)"
proof -
  have "PostProcess ops r (answered r c) = Some (drop_fid r a (set_fid a f (answered r c)))"
    using assms by (simp add: PostProcess_def drop_slot_def DecRef_def lone_def drop_fid_def Let_def)
  then show ?thesis
    using assms(1,4) by (simp add: Respond_def respond_head_def unlink_req_def lone_def answered_def Let_def)
qed

text \<open>A second \<open>Topen\<close> of an open fid is answered with an error, as it should, and closes the fid:
  \<open>openPost\<close> sets \<open>opened\<close> from the reply, whatever it was before.  Later writes to it are refused.\<close>

lemma reopen_closes:
  assumes "lone c r a" "fid_opened (c_fids c a)" "fc_Type (req_Tc (c_heap c r)) = Topen" "room c r"
  shows "\<exists>d. open_srv (fsrv_ops fops) r c = Some d \<and> c_reqout d = c_reqout c @ [r]
    \<and> fc_Type (req_Rc (c_heap d r)) = Rerror \<and> \<not> fid_opened (c_fids d a)"
proof -
  obtain rc where rc: "fc_Type rc = Rerror"
      "reject (fsrv_ops fops) r Eopen c = Respond (fsrv_ops fops) r (set_Rc r rc c)"
    using reject_eq [OF assms(4) error_texts(2)] by metis
  have "open_srv (fsrv_ops fops) r c = Respond (fsrv_ops fops) r (set_Rc r rc c)"
    using assms(1,2) rc(2) by (simp add: open_srv_def with_fid_def lone_def)
  also have "\<dots> = Some (let d = drop_fid r a (set_fid a (\<lambda>f. f\<lparr>fid_opened := False\<rparr>) (answered r (set_Rc r rc c)))
      in d\<lparr>c_reqout := c_reqout d @ [r]\<rparr>)"
    using assms(1,3) rc(1)
    by (intro Respond_lone) (simp_all add: lone_def post_handler_def openPost_def msg_type_defs fsrv_ops_def)
  finally show ?thesis using rc(1) by (simp add: drop_fid_def Let_def)
qed

definition reopen :: "unit fconn" where
  "reopen = (conn_with [zero_Req\<lparr>req_Tc := zero_Fcall\<lparr>fc_Type := Topen\<rparr>, req_Rc := NewFcall 64,
       req_Fid := Some 0, req_status := {reqWork}\<rparr>] [(0, 0)])
     \<lparr>c_fids := (\<lambda>_. zero_Fid\<lparr>fid_refcount := 2, fid_opened := True\<rparr>)\<rparr>"

lemma reopen_closes_witness:
  "\<exists>d. open_srv (fsrv_ops no_methods) 0 reopen = Some d \<and> c_reqout d = c_reqout reopen @ [0]
    \<and> fc_Type (req_Rc (c_heap d 0)) = Rerror \<and> \<not> fid_opened (c_fids d 0)"
  by (rule reopen_closes) (simp_all add: reopen_def lone_def room_def NewFcall_def)

text \<open>When the \<open>Open\<close> operation of a file fails, \<open>Fsrv.Open\<close> responds with the error and then
  overwrites the reply, which has not been sent yet, with \<open>Ropen\<close>.  The client is told that the open
  succeeded, and the fid is not open.\<close>

lemma open_error_lost:
  assumes "lone c r a" "fc_Type (req_Tc (c_heap c r)) = Topen" "room c r"
    and "fid_Aux (c_fids c a) = Some ff" "ff_Fid ff = a" "ff_F ff = Some f"
    and "openmode (fc_Mode (req_Tc (c_heap c r))) = Inr m"
    and "CheckPerm (f_Dir (file_of c f)) (fid_User (c_fids c a)) (mode2Perm (fc_Mode (req_Tc (c_heap c r))))"
    and "fo_Open (fops (f_ops (file_of c f))) = Some op"
    and "op ff (fc_Mode (req_Tc (c_heap c r))) (c_fs c) = Some (Some (PErr err), fs)"
    and "length (Error_Error (Some err)) \<le> 40"
  shows "\<exists>d. Fsrv_Open fops r c = Some d \<and> c_reqout d = c_reqout c @ [r]
    \<and> fc_Type (req_Rc (c_heap d r)) = Ropen \<and> \<not> fid_opened (c_fids d a)"
proof -
  let ?h = "fsrv_hooks fops"
  define e where "e = set_fid a (\<lambda>x. x\<lparr>fid_Omode := fc_Mode (req_Tc (c_heap c r))\<rparr>) c\<lparr>c_fs := fs\<rparr>"
  have heap: "c_heap e = c_heap c" "c_reqout e = c_reqout c" by (simp_all add: e_def)
  have "room e r" using assms(3) by (simp add: room_def heap)
  then obtain rc where rc: "fc_Type rc = Rerror" "length (fc_Buf rc) = length (fc_Buf (req_Rc (c_heap e r)))"
      "RespondError ?h r (PErr err) e = Respond ?h r (set_Rc r rc e)"
    using reject_eq [OF _ assms(11)] by metis
  have open1: "Fsrv_Open fops r c = Option.bind (RespondError ?h r (PErr err) e)
      (\<lambda>c. RespondRopen ?h r (dir_Qid (f_Dir (file_of c f))) 0 c)"
    using assms(1,4-10) by (simp add: Fsrv_Open_def with_ffid_def lone_def run_fs_def e_def Let_def)
  have "lone (set_Rc r rc e) r a" using assms(1) by (simp add: lone_def e_def)
  then have resp: "Respond ?h r (set_Rc r rc e) = Some (let d = drop_fid r a
        (set_fid a (\<lambda>f. f\<lparr>fid_opened := False\<rparr>) (answered r (set_Rc r rc e))) in d\<lparr>c_reqout := c_reqout d @ [r]\<rparr>)"
    using rc(1) assms(1,2)
    by (intro Respond_lone) (simp_all add: lone_def post_handler_def openPost_def msg_type_defs fsrv_hooks_def heap)
  define d where "d = (let d = drop_fid r a
        (set_fid a (\<lambda>f. f\<lparr>fid_opened := False\<rparr>) (answered r (set_Rc r rc e))) in d\<lparr>c_reqout := c_reqout d @ [r]\<rparr>)"
  have d: "responded d r" "c_reqout d = c_reqout c @ [r]" "\<not> fid_opened (c_fids d a)" "req_Rc (c_heap d r) = rc"
    by (simp_all add: d_def drop_fid_def Let_def responded_def heap)
  obtain rc' where rc': "PackRopen rc (dir_Qid (f_Dir (file_of d f))) 0 = Some (Inr rc')" "fc_Type rc' = Ropen"
    using packs_R_small(3) [of rc "dir_Qid (f_Dir (file_of d f))" 0] rc(2) assms(3)
    by (auto simp: packs_def is_packed_def room_def heap split: if_splits)
  have "Fsrv_Open fops r c = Respond ?h r (set_Rc r rc' d)"
    using open1 rc(3) resp rc'(1) d(4) by (simp add: d_def [symmetric] RespondRopen_def respond_with_def)
  also have "\<dots> = Some (set_req r (\<lambda>q. q\<lparr>req_status := insert reqResponded (req_status q) - {reqWork}\<rparr>) (set_Rc r rc' d))"
    using d(1) by (intro fsrv_tidy.Respond_again) (simp add: responded_def)
  finally show ?thesis using d rc'(2) by simp
qed

definition refusing :: "nat \<Rightarrow> unit FileOps" where
  "refusing n = (no_methods n)\<lparr>fo_Open := Some (\<lambda>_ _ fs. Some (Some (PErr Eunknownfid), fs))\<rparr>"

definition open_refused :: "unit fconn" where
  "open_refused = (conn_with [zero_Req\<lparr>req_Tc := zero_Fcall\<lparr>fc_Type := Topen\<rparr>, req_Rc := NewFcall 64,
       req_Fid := Some 0, req_status := {reqWork}\<rparr>] [(0, 0)])
     \<lparr>c_fids := (\<lambda>_. zero_Fid\<lparr>fid_refcount := 2, fid_User := Some some_user,
        fid_Aux := Some \<lparr>ff_F = Some 0, ff_Fid = 0, ff_dirs = []\<rparr>\<rparr>),
      c_fs := no_files\<lparr>fs_files := (\<lambda>n. (fs_files no_files n)\<lparr>f_Dir := zero_Dir\<lparr>dir_Mode := 7\<rparr>\<rparr>)\<rparr>\<rparr>"

lemma open_error_lost_witness:
  "\<exists>d. Fsrv_Open refusing 0 open_refused = Some d \<and> c_reqout d = c_reqout open_refused @ [0]
    \<and> fc_Type (req_Rc (c_heap d 0)) = Ropen \<and> \<not> fid_opened (c_fids d 0)"
proof (rule open_error_lost [where ff = "\<lparr>ff_F = Some 0, ff_Fid = 0, ff_dirs = []\<rparr>" and f = 0])
  show "lone open_refused 0 0" by (simp add: open_refused_def lone_def)
  show "room open_refused 0" by (simp add: open_refused_def room_def NewFcall_def)
  show "openmode (fc_Mode (req_Tc (c_heap open_refused 0))) = Inr 0"
    by (simp add: open_refused_def openmode_def OTRUNC_def OCEXEC_def ORCLOSE_def OEXEC_def)
  show "CheckPerm (f_Dir (file_of open_refused 0)) (fid_User (c_fids open_refused 0))
      (mode2Perm (fc_Mode (req_Tc (c_heap open_refused 0))))"
    by (simp add: open_refused_def CheckPerm_def mode2Perm_def OREAD_def OTRUNC_def DMREAD_def Let_def)
  show "length (Error_Error (Some Eunknownfid)) \<le> 40" by (rule error_texts)
qed (simp_all add: open_refused_def refusing_def)

subsection \<open>Flushed requests run all the same\<close>

text \<open>C17: A request that was flushed before its goroutine started is processed like any other when it
  starts.  Its second response ends early, so what it took is not given back: a flushed \<open>Tclunk\<close>
  leaves its fid in the table with one reference more, for good.\<close>

theorem flushed_clunk_leaks:
  assumes "{reqFlush, reqResponded} \<subseteq> req_status (c_heap c r)" "fc_Type (req_Tc (c_heap c r)) = Tclunk"
    and "fc_Fid (req_Tc (c_heap c r)) \<noteq> NOFID" "map_of (c_fidpool c) (fc_Fid (req_Tc (c_heap c r))) = Some a"
    and "fid_Type (c_fids c a) AND QTAUTH = 0" "fid_Aux (c_fids c a) = Some ff" "ff_F ff = Some f"
    and "fo_Clunk (fops (f_ops (file_of c f))) = None" "PackRclunk (req_Rc (c_heap c r)) = Some (Inr rc)"
  shows "\<exists>d. process (fsrv_ops fops) r c = Some d \<and> c_fidpool d = c_fidpool c
    \<and> refcount d a = refcount c a + 1 \<and> c_reqout d = c_reqout c"
proof -
  have again: "Respond (fsrv_ops fops) r c
      = Some (set_req r (\<lambda>q. q\<lparr>req_status := insert reqResponded (req_status q) - {reqWork}\<rparr>) c)"
    using assms(1) by (intro fsrv_full.Respond_again) (simp add: responded_def)
  define e where "e = set_Rc r rc (set_req r (\<lambda>q. q\<lparr>req_Fid := Some a\<rparr>) (IncRef a
      (set_req r (\<lambda>q. q\<lparr>req_status := insert reqResponded (req_status q) - {reqWork}\<rparr>) c)))"
  have "responded e r" by (simp add: e_def responded_def IncRef_def)
  then have again2: "Respond (fsrv_hooks fops) r e
      = Some (set_req r (\<lambda>q. q\<lparr>req_status := insert reqResponded (req_status q) - {reqWork}\<rparr>) e)"
    by (intro fsrv_tidy.Respond_again)
  have "Process (fsrv_ops fops) r (set_req r (\<lambda>q. q\<lparr>req_status := insert reqResponded (req_status q) - {reqWork}\<rparr>) c)
      = Fsrv_Clunk fops r (set_req r (\<lambda>q. q\<lparr>req_Fid := Some a\<rparr>) (IncRef a
      (set_req r (\<lambda>q. q\<lparr>req_status := insert reqResponded (req_status q) - {reqWork}\<rparr>) c)))"
    using assms(2-5)
    by (simp add: Process_def FidGet_def dispatch_def msg_type_defs clunk_def with_fid_def fsrv_ops_def IncRef_def Let_def)
  also have "\<dots> = Respond (fsrv_hooks fops) r e"
    using assms(6-9) by (simp add: Fsrv_Clunk_def with_file_def with_ffid_def IncRef_def RespondRclunk_def
      respond_with_def e_def Let_def)
  finally have p: "Process (fsrv_ops fops) r (set_req r (\<lambda>q. q\<lparr>req_status := insert reqResponded (req_status q) - {reqWork}\<rparr>) c)
      = Some (set_req r (\<lambda>q. q\<lparr>req_status := insert reqResponded (req_status q) - {reqWork}\<rparr>) e)"
    using again2 by simp
  have "op_ReqProcess (fsrv_ops fops) = None" by (simp add: fsrv_ops_def)
  then show ?thesis
    using assms(1) by (simp add: process_def again p Let_def) (simp add: e_def IncRef_def)
qed

definition flushed_clunk :: "unit fconn" where
  "flushed_clunk = (conn_with [zero_Req\<lparr>req_Tc := zero_Fcall\<lparr>fc_Type := Tclunk\<rparr>, req_Rc := NewFcall 32,
       req_status := {reqFlush, reqResponded}\<rparr>] [])
     \<lparr>c_fids := (\<lambda>_. zero_Fid\<lparr>fid_refcount := 1, fid_Aux := Some \<lparr>ff_F = Some 0, ff_Fid = 0, ff_dirs = []\<rparr>\<rparr>),
      c_fidpool := [(0, 0)]\<rparr>"

lemma flushed_clunk_leaks_witness:
  "\<exists>d. process (fsrv_ops no_methods) 0 flushed_clunk = Some d \<and> c_fidpool d = c_fidpool flushed_clunk
    \<and> refcount d 0 = refcount flushed_clunk 0 + 1 \<and> c_reqout d = c_reqout flushed_clunk"
proof -
  have "case PackRclunk (NewFcall 32) of Some (Inr _) \<Rightarrow> True | _ \<Rightarrow> False" by code_simp
  then obtain rc where "PackRclunk (NewFcall 32) = Some (Inr rc)" by (simp split: option.splits sum.splits)
  then show ?thesis
    by (intro flushed_clunk_leaks [where ff = "\<lparr>ff_F = Some 0, ff_Fid = 0, ff_dirs = []\<rparr>" and f = 0])
       (simp_all add: flushed_clunk_def NOFID_def no_methods_def)
qed

end
