(* ===== verification/Srv_Session.thy ===== *)
theory Srv_Session
  imports Srv_Faults
begin

section \<open>Version negotiation and the guards of the handlers\<close>

text \<open>
  What \<open>Tversion\<close> does to the connection and to the requests that are outstanding, and which requests
  the handlers let through to the file server.
\<close>

subsection \<open>Marking the outstanding requests\<close>

definition marked :: "nat set \<Rightarrow> ('a, 's) Conn \<Rightarrow> ('a, 's) Conn" where
  "marked rs c = c\<lparr>c_heap := (\<lambda>x. if x \<in> rs then (c_heap c x)\<lparr>req_status := insert reqFlush (req_status (c_heap c x))\<rparr>
     else c_heap c x)\<rparr>"

lemma marked_simps [simp]:
  "req_next (c_heap (marked rs c) x) = req_next (c_heap c x)" "c_rnew (marked rs c) = c_rnew c"
  "x \<notin> rs \<Longrightarrow> c_heap (marked rs c) x = c_heap c x" "c_reqout (marked rs c) = c_reqout c"
  "c_Msize (marked rs c) = c_Msize c" "c_Dotu (marked rs c) = c_Dotu c"
  "reqFlush \<in> req_status (c_heap (marked rs c) x) \<longleftrightarrow> x \<in> rs \<or> reqFlush \<in> req_status (c_heap c x)"
  "c_fidpool (marked rs c) = c_fidpool c" "c_reqs (marked rs c) = c_reqs c"
  by (auto simp: marked_def)

lemma marked_empty [simp]: "marked {} c = c"
  by (simp add: marked_def)

lemma marked_marked: "marked rs (marked qs c) = marked (rs \<union> qs) c"
  by (auto simp: marked_def fun_eq_iff)

text \<open>The requests of a tag group, newest first.\<close>

abbreviation tag_group :: "(nat \<Rightarrow> Req) \<Rightarrow> nat option \<Rightarrow> nat list \<Rightarrow> bool" where
  "tag_group h p qs \<equiv> path (\<lambda>q. req_next (h q)) p qs"

lemma mark_group_marks:
  "tag_group (c_heap c) p qs \<Longrightarrow> length qs \<le> n \<Longrightarrow> mark_group n p c = Some (marked (set qs) c)"
proof (induction qs arbitrary: n p c)
  case (Cons q qs)
  then obtain m where n: "n = Suc m" "length qs \<le> m" by (cases n) auto
  let ?d = "set_req q (\<lambda>q. q\<lparr>req_status := insert reqFlush (req_status q)\<rparr>) c"
  have d: "?d = marked {q} c" by (simp add: set_req_def marked_def fun_upd_def cong: if_cong)
  have "tag_group (c_heap ?d) (req_next (c_heap c q)) qs"
    using Cons.prems(1) by (simp add: d)
  then have "mark_group m (req_next (c_heap c q)) ?d = Some (marked (set qs) ?d)"
    using Cons.IH n(2) by blast
  then show ?case using Cons.prems(1) n(1) by (simp add: d marked_marked)
qed simp

definition outstanding :: "(nat \<Rightarrow> nat list) \<Rightarrow> (u16 \<times> nat) list \<Rightarrow> nat set" where
  "outstanding grp rs = (\<Union>(tag, q) \<in> set rs. if tag = NOTAG then {} else set (grp q))"

definition groups_ok :: "(nat \<Rightarrow> nat list) \<Rightarrow> (u16 \<times> nat) list \<Rightarrow> ('a, 's) Conn \<Rightarrow> bool" where
  "groups_ok grp rs c \<longleftrightarrow> (\<forall>(tag, q) \<in> set rs. tag \<noteq> NOTAG \<longrightarrow>
     tag_group (c_heap c) (Some q) (grp q) \<and> set (grp q) \<subseteq> {..<c_rnew c})"

lemma mark_all_marks: "groups_ok grp rs c \<Longrightarrow> mark_all rs c = Some (marked (outstanding grp rs) c)"
proof (induction rs arbitrary: c)
  case (Cons x rs)
  obtain tag q where x: "x = (tag, q)" by (cases x)
  show ?case
  proof (cases "tag = NOTAG")
    case True
    then show ?thesis using Cons x by (simp add: groups_ok_def outstanding_def)
  next
    case False
    let ?d = "marked (set (grp q)) c"
    have g: "tag_group (c_heap c) (Some q) (grp q)" "set (grp q) \<subseteq> {..<c_rnew c}"
      using Cons.prems False x by (auto simp: groups_ok_def)
    have "mark_group (c_rnew c) (Some q) c = Some ?d"
      using g path_length by (intro mark_group_marks) blast+
    moreover have "mark_all rs ?d = Some (marked (outstanding grp rs) ?d)"
      using Cons.prems by (intro Cons.IH) (auto simp: groups_ok_def)
    ultimately show ?thesis
      using False x by (simp add: marked_marked outstanding_def Un_commute)
  qed
qed (simp add: outstanding_def)

subsection \<open>Tversion\<close>

text \<open>A request that has no fids, no flushes and no later request with its tag.\<close>

definition plain_req :: "('a, 's) Conn \<Rightarrow> nat \<Rightarrow> bool" where
  "plain_req c r \<longleftrightarrow> req_status (c_heap c r) = {reqWork} \<and> req_prev (c_heap c r) = None
     \<and> req_flushreq (c_heap c r) = None \<and> no_slots (c_heap c r) = c_heap c r"

lemma Respond_plain_version:
  assumes "plain_req c r" "fc_Type (req_Tc (c_heap c r)) = Tversion"
  shows "Respond (fsrv_ops fops) r c = Some (answered r c\<lparr>c_reqout := c_reqout c @ [r]\<rparr>)"
proof -
  have "PostProcess (fsrv_ops fops) r (answered r c) = Some (answered r c)"
    using assms by (simp add: plain_req_def no_slots_eq PostProcess_def post_handler_def drop_slot_def msg_type_defs)
  then show ?thesis
    using assms by (subst fsrv_full.Respond_alone) (simp_all add: plain_req_def responded_def)
qed

text \<open>C20: \<open>Tversion\<close> sets the message size of the connection to the smaller of the two sizes and the
  dialect to 9P2000.u only if both sides speak it, replies with exactly these values, and marks every
  request that is outstanding under another tag than \<open>NOTAG\<close> as flushed, older requests with the same
  tag included, so that none of them is answered later.\<close>

theorem version_negotiates:
  assumes "fc_Type (req_Tc (c_heap c r)) = Tversion" "IOHDRSZ \<le> fc_Msize (req_Tc (c_heap c r))"
    and "plain_req c r" "room c r" "groups_ok grp (c_reqs c) c" "r \<notin> outstanding grp (c_reqs c)"
  shows "\<exists>d. version (fsrv_ops fops) r c = Some d
    \<and> c_Msize d = min (c_Msize c) (fc_Msize (req_Tc (c_heap c r)))
    \<and> c_Dotu d = (fc_Version (req_Tc (c_heap c r)) = ''9P2000.u'' \<and> srv_Dotu (c_Srv c))
    \<and> c_reqout d = c_reqout c @ [r]
    \<and> fc_Pkt (req_Rc (c_heap d r))
        = frame (MRversion (c_Msize d) (if c_Dotu d then ''9P2000.u'' else ''9P2000'')) (c_Dotu d) NOTAG
    \<and> outstanding grp (c_reqs c) \<subseteq> {q. reqFlush \<in> req_status (c_heap d q)}"
proof -
  let ?tc = "req_Tc (c_heap c r)" and ?o = "outstanding grp (c_reqs c)"
  define m where "m = min (c_Msize c) (fc_Msize ?tc)"
  define u where "u = (fc_Version ?tc = ''9P2000.u'' \<and> srv_Dotu (c_Srv c))"
  define ver where "ver = (if u then ''9P2000.u'' else ''9P2000'')"
  define c1 where "c1 = c\<lparr>c_Msize := m, c_Dotu := u\<rparr>"
  have c1: "c_heap c1 = c_heap c" "c_reqs c1 = c_reqs c" "c_rnew c1 = c_rnew c" "c_reqout c1 = c_reqout c"
    "c_Msize c1 = m" "c_Dotu c1 = u"
    by (simp_all add: c1_def)
  have "groups_ok grp (c_reqs c) c1" using assms(5) by (simp add: groups_ok_def c1)
  then have mk: "mark_all (c_reqs c) c1 = Some (marked ?o c1)" by (rule mark_all_marks)
  have "str_ok ver" by (simp add: ver_def str_ok_def)
  moreover have "length ver \<le> 8" by (simp add: ver_def)
  ultimately obtain rc where rc: "PackRversion (req_Rc (c_heap c r)) m ver = Some (Inr rc)"
      "fc_Pkt rc = frame (MRversion m ver) u NOTAG"
    using packs_PackRversion [of ver "req_Rc (c_heap c r)" m u] assms(4)
    by (auto simp: packs_def room_def is_packed_def frame_def split: if_splits)
  let ?e = "set_Rc r rc (marked ?o c1)"
  have ver: "PackRversion (req_Rc (c_heap c r)) m (if u then ''9P2000.u'' else ''9P2000'') = Some (Inr rc)"
    using rc(1) by (simp add: ver_def)
  have "c_heap (marked ?o c1) r = c_heap c r" using assms(6) by (simp add: c1)
  then have h: "c_heap ?e r = (c_heap c r)\<lparr>req_Rc := rc\<rparr>" by simp
  have e: "Respond (fsrv_ops fops) r ?e = Some (answered r ?e\<lparr>c_reqout := c_reqout ?e @ [r]\<rparr>)"
    using assms(1,3) by (intro Respond_plain_version) (simp_all add: plain_req_def no_slots_eq h del: set_Rc_simps(1))
  have "version (fsrv_ops fops) r c = Respond (fsrv_ops fops) r ?e"
  proof -
    have "(if fc_Msize ?tc < c_Msize c then c\<lparr>c_Msize := fc_Msize ?tc\<rparr> else c)
        \<lparr>c_Dotu := fc_Version ?tc = ''9P2000.u'' \<and> srv_Dotu
          (c_Srv (if fc_Msize ?tc < c_Msize c then c\<lparr>c_Msize := fc_Msize ?tc\<rparr> else c))\<rparr> = c1"
      by (simp add: c1_def m_def u_def min_def not_less)
    moreover have "\<not> fc_Msize ?tc < IOHDRSZ" using assms(2) by simp
    ultimately show ?thesis
      using \<open>c_heap (marked ?o c1) r = c_heap c r\<close>
      using ver [unfolded u_def]
      by (auto simp: version_def Let_def c1 mk RespondRversion_def respond_with_def split: if_splits)
  qed
  then show ?thesis
    using e assms(6) rc(2)
    by (auto simp: c1 m_def [symmetric] u_def [symmetric] ver_def [symmetric])
qed

definition version_req :: "Req list" where
  "version_req = [zero_Req\<lparr>req_Tc := zero_Fcall\<lparr>fc_Type := Tversion, fc_Tag := NOTAG, fc_Msize := 4096,
       fc_Version := ''9P2000''\<rparr>, req_Rc := NewFcall 64, req_status := {reqWork}\<rparr>,
     zero_Req\<lparr>req_Tc := zero_Fcall\<lparr>fc_Type := Tread, fc_Tag := 5\<rparr>\<rparr>]"

lemma version_negotiates_witness:
  "\<exists>d. version (fsrv_ops no_methods) 0 (conn_with version_req [(NOTAG, 0), (5, 1)]) = Some d
    \<and> c_Msize d = 4096 \<and> \<not> c_Dotu d \<and> c_reqout d = [0] \<and> reqFlush \<in> req_status (c_heap d 1)"
proof -
  let ?c = "conn_with version_req [(NOTAG, 0), (5, 1)]"
  have h: "c_heap ?c 0 = version_req ! 0" "c_heap ?c 1 = version_req ! 1" "c_rnew ?c = 2"
    by (simp_all add: version_req_def)
  have o: "outstanding (\<lambda>q. [q]) (c_reqs ?c) = {1}" by (simp add: outstanding_def NOTAG_def)
  have "groups_ok (\<lambda>q. [q]) (c_reqs ?c) ?c"
    by (simp add: groups_ok_def NOTAG_def version_req_def)
  moreover have "plain_req ?c 0" "room ?c 0" "fc_Type (req_Tc (c_heap ?c 0)) = Tversion"
      "IOHDRSZ \<le> fc_Msize (req_Tc (c_heap ?c 0))"
    unfolding plain_req_def no_slots_eq room_def h
    by (simp_all add: version_req_def NewFcall_def IOHDRSZ_def)
  ultimately have "\<exists>d. version (fsrv_ops no_methods) 0 ?c = Some d
    \<and> c_Msize d = min (c_Msize ?c) (fc_Msize (req_Tc (c_heap ?c 0)))
    \<and> c_Dotu d = (fc_Version (req_Tc (c_heap ?c 0)) = ''9P2000.u'' \<and> srv_Dotu (c_Srv ?c))
    \<and> c_reqout d = c_reqout ?c @ [0] \<and> {1} \<subseteq> {q. reqFlush \<in> req_status (c_heap d q)}"
    using version_negotiates [of ?c 0 "\<lambda>q. [q]" no_methods] o by auto
  then show ?thesis unfolding h by (simp add: version_req_def min_def)
qed

end
