(* ===== verification/Srv_Tree.thy ===== *)
theory Srv_Tree
  imports Srv_File P9_Dir
begin

section \<open>The file tree of Fsrv\<close>

text \<open>
  The children of a directory as a list, and what the operations on the doubly linked list of siblings
  do to it; walking as the resolution of a path; the permission check and the open modes as tables;
  directory reads as a prefix of the entries.
\<close>

subsection \<open>The children of a directory\<close>

definition kids :: "(nat \<Rightarrow> File) \<Rightarrow> nat \<Rightarrow> nat list \<Rightarrow> bool" where
  "kids h d xs \<longleftrightarrow> path (\<lambda>x. f_next (h x)) (f_cfirst (h d)) xs
     \<and> path (\<lambda>x. f_prev (h x)) (f_clast (h d)) (rev xs)"

lemma kids_distinct: "kids h d xs \<Longrightarrow> distinct xs"
  by (auto simp: kids_def dest: path_distinct)

lemma kids_ends:
  assumes "kids h d xs"
  shows "f_cfirst (h d) = (if xs = [] then None else Some (hd xs))"
    "f_clast (h d) = (if xs = [] then None else Some (last xs))"
  using assms by (cases xs; auto simp: kids_def) (cases xs rule: rev_cases; use assms in \<open>auto simp: kids_def\<close>)

text \<open>The children depend on their own links and on the two ends only.\<close>

lemma kids_cong:
  assumes "f_cfirst (h' d) = f_cfirst (h d)" "f_clast (h' d) = f_clast (h d)"
    and "\<And>x. x \<in> set xs \<Longrightarrow> f_next (h' x) = f_next (h x) \<and> f_prev (h' x) = f_prev (h x)"
  shows "kids h' d xs = kids h d xs"
  unfolding kids_def using assms
  by (metis (no_types, lifting) path_cong set_rev)

lemma find_from_path:
  "path (\<lambda>x. f_next (h x)) p xs \<Longrightarrow> length xs \<le> n \<Longrightarrow>
   find_from n h p name = Some (find (\<lambda>x. name = dir_Name (f_Dir (h x))) xs)"
proof (induction xs arbitrary: p n)
  case (Cons x xs)
  then obtain m where "n = Suc m" "length xs \<le> m" by (cases n) auto
  then show ?case using Cons by simp
qed simp

lemma children_from_path:
  "path (\<lambda>x. f_next (h x)) p xs \<Longrightarrow> length xs \<le> n \<Longrightarrow> children_from n h p = Some xs"
proof (induction xs arbitrary: p n)
  case (Cons x xs)
  then obtain m where "n = Suc m" "length xs \<le> m" by (cases n) auto
  then show ?case using Cons by simp
qed simp

definition named :: "(nat \<Rightarrow> File) \<Rightarrow> string \<Rightarrow> nat \<Rightarrow> bool" where
  "named h name x \<longleftrightarrow> name = dir_Name (f_Dir (h x))"

definition in_use :: "'u Fs \<Rightarrow> nat list \<Rightarrow> bool" where
  "in_use fs xs \<longleftrightarrow> set xs \<subseteq> {..<fs_new fs}"

lemma Find_kids:
  assumes "kids (fs_files fs) d xs" "in_use fs xs"
  shows "Find fs d name = Some (find (named (fs_files fs) name) xs)"
  using assms path_length [of _ _ xs "fs_new fs"] unfolding kids_def in_use_def
  by (auto simp: Find_def named_def [abs_def] intro!: find_from_path)

lemma link_last_kids:
  assumes k: "kids (fs_files fs) d xs" and f: "f \<notin> set xs" "f \<noteq> d" "d \<notin> set xs"
  shows "kids (fs_files (link_last f d fs)) d (xs @ [f])"
proof (cases xs rule: rev_cases)
  case Nil
  then show ?thesis using k f by (simp add: kids_def link_last_def Let_def)
next
  case (snoc ys l)
  let ?h = "fs_files fs" and ?h' = "fs_files (link_last f d fs)"
  have l: "f_clast (?h d) = Some l" "l \<noteq> f" "l \<noteq> d" using kids_ends [OF k] snoc f by auto
  have nx: "(\<lambda>x. f_next (?h' x)) = (\<lambda>x. f_next (?h x))(l := Some f, f := None)"
    using l f by (auto simp: link_last_def Let_def fun_eq_iff)
  have pv: "(\<lambda>x. f_prev (?h' x)) = (\<lambda>x. f_prev (?h x))(f := Some l)"
    using l f by (auto simp: link_last_def Let_def fun_eq_iff)
  have ends: "f_cfirst (?h' d) = f_cfirst (?h d)" "f_clast (?h' d) = Some f"
    using l f by (auto simp: link_last_def Let_def)
  have "path (\<lambda>x. f_next (?h' x)) (f_cfirst (?h' d)) (xs @ [f])"
    using k f path_snoc [of "\<lambda>x. f_next (?h x)" "f_cfirst (?h d)" ys l f]
    by (simp add: kids_def nx ends snoc)
  moreover have "path (\<lambda>x. f_prev (?h' x)) (f_clast (?h' d)) (rev (xs @ [f]))"
    using k f by (simp add: kids_def pv ends snoc l)
  ultimately show ?thesis by (simp add: kids_def)
qed

text \<open>Other directories keep their children.\<close>

lemma link_last_other:
  assumes "kids (fs_files fs) d' ys" "d' \<noteq> d" "f \<notin> set ys" "\<forall>l. f_clast (fs_files fs d) = Some l \<longrightarrow> l \<notin> set ys"
  shows "kids (fs_files (link_last f d fs)) d' ys"
  using assms
  by (subst kids_cong [where h = "fs_files fs"]) (auto simp: link_last_def Let_def split: option.split)

lemma unlink_kids:
  assumes k: "kids (fs_files fs) p (xs @ f # ys)" and p: "p \<notin> set (xs @ f # ys)"
  shows "kids (fs_files (unlink_file f p fs)) p (xs @ ys)"
proof -
  let ?h = "fs_files fs" and ?h' = "fs_files (unlink_file f p fs)"
  have d: "distinct (xs @ f # ys)" by (rule kids_distinct [OF k])
  have n: "f_next (?h f) = (if ys = [] then None else Some (hd ys))"
    using k path_last [of "\<lambda>x. f_next (?h x)" "f_cfirst (?h p)" xs f]
      path_next [of "\<lambda>x. f_next (?h x)" "f_cfirst (?h p)" xs f "hd ys" "tl ys"]
    by (cases ys) (auto simp: kids_def)
  have v: "f_prev (?h f) = (if xs = [] then None else Some (last xs))"
    using k path_last [of "\<lambda>x. f_prev (?h x)" "f_clast (?h p)" "rev ys" f]
      path_next [of "\<lambda>x. f_prev (?h x)" "f_clast (?h p)" "rev ys" f "last xs" "rev (butlast xs)"]
    by (cases xs rule: rev_cases) (auto simp: kids_def)
  have nx: "f_next (?h' x) = (if xs \<noteq> [] \<and> x = last xs then f_next (?h f) else f_next (?h x))"
    if "x \<in> set (xs @ ys)" for x
    using that d p n v by (auto simp: unlink_file_def Let_def split: option.split)
  have pv: "f_prev (?h' x) = (if ys \<noteq> [] \<and> x = hd ys then f_prev (?h f) else f_prev (?h x))"
    if "x \<in> set (xs @ ys)" for x
    using that d p n v by (auto simp: unlink_file_def Let_def split: option.split)
  have ends: "f_cfirst (?h' p) = (if xs = [] then f_next (?h f) else f_cfirst (?h p))"
    "f_clast (?h' p) = (if ys = [] then f_prev (?h f) else f_clast (?h p))"
    using p n v by (auto simp: unlink_file_def Let_def split: option.split)
  have "path (\<lambda>x. f_next (?h' x)) (f_cfirst (?h' p)) (xs @ ys)"
    using k nx ends(1) by (intro path_remove [of "\<lambda>x. f_next (?h x)" "f_cfirst (?h p)" xs f ys]) (auto simp: kids_def)
  moreover have "path (\<lambda>x. f_prev (?h' x)) (f_clast (?h' p)) (rev ys @ rev xs)"
    using k pv ends(2)
    by (intro path_remove [of "\<lambda>x. f_prev (?h x)" "f_clast (?h p)" "rev ys" f "rev xs"]) (auto simp: kids_def last_rev)
  ultimately show ?thesis by (simp add: kids_def)
qed

subsection \<open>Add and Remove as operations on the list of children\<close>

abbreviation file_name :: "'u Fs \<Rightarrow> nat \<Rightarrow> string" where
  "file_name fs x \<equiv> dir_Name (f_Dir (fs_files fs x))"

definition dir_ok :: "'u Fs \<Rightarrow> nat \<Rightarrow> nat list \<Rightarrow> bool" where
  "dir_ok fs d xs \<longleftrightarrow> kids (fs_files fs) d xs \<and> in_use fs xs \<and> d \<notin> set xs
     \<and> distinct (map (file_name fs) xs)"

lemma Find_dir_ok: "dir_ok fs d xs \<Longrightarrow> Find fs d name = Some (find (\<lambda>x. file_name fs x = name) xs)"
  using Find_kids [of fs d xs name] by (simp add: dir_ok_def named_def [abs_def] eq_commute)

lemma find_append: "find P (xs @ ys) = (case find P xs of None \<Rightarrow> find P ys | Some x \<Rightarrow> Some x)"
  by (induction xs) auto

lemma find_cong: "(\<And>x. x \<in> set xs \<Longrightarrow> P x = Q x) \<Longrightarrow> find P xs = find Q xs"
  by (induction xs) auto

lemma find_None_names: "find (\<lambda>x. h x = n) xs = None \<longleftrightarrow> n \<notin> h ` set xs"
  by (auto simp: find_None_iff)

lemma link_last_names [simp]: "file_name (link_last f d fs) x = file_name fs x"
  by (simp add: link_last_def Let_def split: option.split)

lemma link_last_fields [simp]:
  "fs_new (link_last f d fs) = fs_new fs" "f_Dir (fs_files (link_last f d fs) x) = f_Dir (fs_files fs x)"
  "f_Parent (fs_files (link_last f d fs) x) = f_Parent (fs_files fs x)"
  by (simp_all add: link_last_def Let_def split: option.split)

lemma unlink_file_fields [simp]:
  "fs_new (unlink_file f p fs) = fs_new fs" "f_Dir (fs_files (unlink_file f p fs) x) = f_Dir (fs_files fs x)"
  "f_removed (fs_files (unlink_file f p fs) x) = f_removed (fs_files fs x)"
  by (simp_all add: unlink_file_def Let_def split: option.split)

lemma dir_ok_set_file:
  assumes "\<And>x. f_next (g x) = f_next x \<and> f_prev (g x) = f_prev x \<and> f_cfirst (g x) = f_cfirst x
      \<and> f_clast (g x) = f_clast x" "\<And>x. dir_Name (f_Dir (g x)) = dir_Name (f_Dir x) \<or> a \<notin> set xs"
  shows "dir_ok (set_file a g fs) d xs = dir_ok fs d xs"
proof -
  have "map (file_name (set_file a g fs)) xs = map (file_name fs) xs" using assms(2) by auto
  moreover have "kids (fs_files (set_file a g fs)) d xs = kids (fs_files fs) d xs"
    using assms(1) by (intro kids_cong) auto
  ultimately show ?thesis by (simp only: dir_ok_def in_use_def set_file_simps(2))
qed

text \<open>C21: Adding a file to a directory refines appending to its list of children.  A name that is taken
  is refused with \<open>Eexist\<close> and the list stays; otherwise the file is the last child afterwards, under
  the new name, with the directory as its parent and the next qid path, \<open>Find\<close> finds it and still
  finds every other name, and names stay unique.\<close>

theorem Add_refines_append:
  assumes "dir_ok fs d xs" "f < fs_new fs" "f \<notin> set xs" "f \<noteq> d"
  shows "\<exists>fs'. Add f (Some d) name uid gid mode ops now fs
      = Some (if name \<in> file_name fs ` set xs then Some Eexist else None, fs')
    \<and> dir_ok fs' d (if name \<in> file_name fs ` set xs then xs else xs @ [f])
    \<and> (\<forall>n. Find fs' d n = (if n = name \<and> name \<notin> file_name fs ` set xs then Some (Some f) else Find fs d n))
    \<and> file_name fs' f = name \<and> f_Parent (fs_files fs' f) = Some d
    \<and> qid_Path (dir_Qid (f_Dir (fs_files fs' f))) = fs_qnext fs"
proof -
  define e where "e = set_file f (\<lambda>x. x\<lparr>f_Parent := Some d\<rparr>)
    (set_file f (\<lambda>x. x\<lparr>f_Dir := init_Dir name uid gid mode (fs_qnext fs) now (f_Dir x)\<rparr>) (fs\<lparr>fs_qnext := fs_qnext fs + 1\<rparr>))"
  have e: "f_Dir (fs_files e f) = init_Dir name uid gid mode (fs_qnext fs) now (f_Dir (fs_files fs f))"
      "f_Parent (fs_files e f) = Some d" "fs_new e = fs_new fs"
    by (simp_all add: e_def)
  have nm: "file_name e x = (if x = f then name else file_name fs x)" for x by (simp add: e_def init_Dir_def)
  have "dir_ok (fs\<lparr>fs_qnext := fs_qnext fs + 1\<rparr>) d xs" using assms(1) by (simp add: dir_ok_def in_use_def)
  then have ok: "dir_ok e d xs"
    using assms(3) unfolding e_def by (subst dir_ok_set_file, simp, simp)+
  have find: "find (\<lambda>x. file_name e x = n) xs = find (\<lambda>x. file_name fs x = n) xs" for n
    using assms(3) by (intro find_cong) (auto simp: nm)
  have add: "Add f (Some d) name uid gid mode ops now fs = (if name \<in> file_name fs ` set xs then Some (Some Eexist, e)
      else Some (None, set_file f (\<lambda>x. x\<lparr>f_ops := ops\<rparr>) (link_last f d e)))"
    using Find_dir_ok [OF ok, of name] find [of name] find_None_names [of "file_name fs" name xs]
    by (auto simp: Add_def Let_def e_def [symmetric] split: option.split)
  show ?thesis
  proof (cases "name \<in> file_name fs ` set xs")
    case True
    then show ?thesis
      using add ok e by (simp add: Find_dir_ok [OF ok] Find_dir_ok [OF assms(1)] find) (simp add: init_Dir_def)
  next
    case False
    let ?l = "link_last f d e"
    have "kids (fs_files ?l) d (xs @ [f])"
      using ok assms by (intro link_last_kids) (auto simp: dir_ok_def)
    moreover have "map (file_name ?l) (xs @ [f]) = map (file_name fs) xs @ [name]"
      using assms(3) by (simp add: nm)
    ultimately have l: "dir_ok ?l d (xs @ [f])"
      using assms ok False by (simp add: dir_ok_def in_use_def e del: map_append map_map)
    then have l': "dir_ok (set_file f (\<lambda>x. x\<lparr>f_ops := ops\<rparr>) ?l) d (xs @ [f])"
      by (subst dir_ok_set_file) simp_all
    have "Find (set_file f (\<lambda>x. x\<lparr>f_ops := ops\<rparr>) ?l) d n = (if n = name then Some (Some f) else Find fs d n)" for n
    proof -
      have "find (\<lambda>x. file_name (set_file f (\<lambda>x. x\<lparr>f_ops := ops\<rparr>) ?l) x = n) xs = find (\<lambda>x. file_name fs x = n) xs"
        using assms(3) by (intro find_cong) (auto simp: nm)
      then show ?thesis
        using False find_None_names [of "file_name fs" n xs]
        by (auto simp: Find_dir_ok [OF l'] Find_dir_ok [OF assms(1)] find_append nm split: option.split)
    qed
    then show ?thesis using add False l' e nm by (simp add: init_Dir_def)
  qed
qed

text \<open>A root with one file \<open>a\<close>, and room for another.\<close>

definition blank_file :: File where
  "blank_file = \<lparr>f_Dir = zero_Dir, f_removed = False, f_Parent = Some 0, f_next = None, f_prev = None,
     f_cfirst = None, f_clast = None, f_ops = 0\<rparr>"

definition small_tree :: "unit Fs" where
  "small_tree = \<lparr>fs_files = (\<lambda>n. if n = 0 then blank_file\<lparr>f_cfirst := Some 1, f_clast := Some 1\<rparr>
        else if n = 1 then blank_file\<lparr>f_Dir := zero_Dir\<lparr>dir_Name := ''a''\<rparr>\<rparr> else blank_file),
     fs_new = 3, fs_Root = 0, fs_qnext = 7, fs_user = ()\<rparr>"

lemma small_tree_ok: "dir_ok small_tree 0 [1]" "fs_new small_tree = 3" "file_name small_tree 1 = ''a''"
    "f_Parent (fs_files small_tree x) = Some 0" "\<not> f_removed (fs_files small_tree x)"
  by (simp_all add: dir_ok_def kids_def in_use_def small_tree_def blank_file_def)

lemma Add_refines_append_witness:
  "\<exists>fs'. Add 2 (Some 0) ''b'' None None 420 0 0 small_tree = Some (None, fs') \<and> dir_ok fs' 0 [1, 2]
    \<and> Find fs' 0 ''b'' = Some (Some 2) \<and> Find fs' 0 ''a'' = Find small_tree 0 ''a''"
  using Add_refines_append [OF small_tree_ok(1), of 2 "''b''" None None 420 0 0] small_tree_ok
  by (auto simp del: One_nat_def)

text \<open>C22: Removing a file refines deleting it from its directory's list of children: the others stay in
  their order, \<open>Find\<close> no longer finds the name and finds every other one as before, the file is marked
  as removed, and removing it again changes nothing.\<close>

theorem Remove_refines_delete:
  assumes "dir_ok fs d (xs @ f # ys)" "f_Parent (fs_files fs f) = Some d" "\<not> f_removed (fs_files fs f)"
  shows "\<exists>fs'. Remove f fs = Some fs' \<and> dir_ok fs' d (xs @ ys) \<and> f_removed (fs_files fs' f)
    \<and> (\<forall>n. Find fs' d n = (if n = file_name fs f then Some None else Find fs d n))
    \<and> Remove f fs' = Some fs'"
proof -
  define e where "e = set_file f (\<lambda>x. x\<lparr>f_removed := True\<rparr>) fs"
  let ?u = "unlink_file f d e"
  have r: "Remove f fs = Some ?u"
    using assms(2,3) by (simp add: Remove_def e_def)
  have e: "dir_ok e d (xs @ f # ys)" "file_name e = file_name fs"
    using assms(1) dir_ok_set_file [of "\<lambda>x. x\<lparr>f_removed := True\<rparr>" f "xs @ f # ys" fs d]
    by (auto simp: e_def fun_eq_iff)
  then have "kids (fs_files ?u) d (xs @ ys)"
    by (intro unlink_kids) (auto simp: dir_ok_def)
  then have ok: "dir_ok ?u d (xs @ ys)"
    using e by (auto simp: dir_ok_def in_use_def)
  have d: "file_name fs f \<notin> file_name fs ` set (xs @ ys)" using assms(1) by (auto simp: dir_ok_def)
  have nm: "file_name e x = file_name fs x" for x using e(2) by (rule fun_cong)
  have "Find ?u d n = (if n = file_name fs f then Some None else Find fs d n)" for n
    using d find_None_names [of "file_name fs" "file_name fs f" "xs @ ys"]
    by (auto simp: Find_dir_ok [OF ok] Find_dir_ok [OF assms(1)] nm find_append split: option.split)
  moreover have "f_removed (fs_files ?u f)" by (simp add: e_def)
  ultimately show ?thesis using r ok by (simp add: Remove_def)
qed

lemma Remove_refines_delete_witness:
  "\<exists>fs'. Remove 1 small_tree = Some fs' \<and> dir_ok fs' 0 [] \<and> Find fs' 0 ''a'' = Some None"
  using Remove_refines_delete [of small_tree 0 "[]" 1 "[]"] small_tree_ok
  by (auto simp del: One_nat_def)

subsection \<open>Walking\<close>

text \<open>The files that a path passes, as far as it exists.\<close>

fun resolve :: "(nat \<Rightarrow> File) \<Rightarrow> (nat \<Rightarrow> nat list) \<Rightarrow> string list \<Rightarrow> nat \<Rightarrow> nat list" where
  "resolve h ch [] f = []"
| "resolve h ch (n # ns) f = (case (if n = ''..'' then f_Parent (h f) else find (\<lambda>x. dir_Name (f_Dir (h x)) = n) (ch f)) of
     None \<Rightarrow> [] | Some g \<Rightarrow> g # resolve h ch ns g)"

definition tree_ok :: "'u Fs \<Rightarrow> (nat \<Rightarrow> nat list) \<Rightarrow> bool" where
  "tree_ok fs ch \<longleftrightarrow> (\<forall>f < fs_new fs. (\<exists>p < fs_new fs. f_Parent (fs_files fs f) = Some p) \<and> dir_ok fs f (ch f))"

lemma walk_loop_resolve:
  assumes t: "tree_ok fs ch"
  shows "f < fs_new fs \<Longrightarrow> walk_loop fs user ns (length qs) (qs @ replicate (length ns) zero_Qid) f =
   (let gs = resolve (fs_files fs) ch ns f in
    Some (length qs + length gs, qs @ map (\<lambda>g. dir_Qid (f_Dir (fs_files fs g))) gs
      @ replicate (length ns - length gs) zero_Qid, last (f # gs)))"
proof (induction ns arbitrary: qs f)
  case (Cons n ns)
  obtain p where p: "f_Parent (fs_files fs f) = Some p" "p < fs_new fs" and f: "dir_ok fs f (ch f)"
    using t Cons.prems by (auto simp: tree_ok_def)
  have F: "Find fs f n = Some (find (\<lambda>x. file_name fs x = n) (ch f))"
    using f by (rule Find_dir_ok)
  have child: "g < fs_new fs" if "find (\<lambda>x. file_name fs x = n) (ch f) = Some g" for g
    using f that by (auto simp: dir_ok_def in_use_def find_Some_iff dest: nth_mem)
  have q: "(qs @ replicate (length (n # ns)) zero_Qid) ! length qs = zero_Qid"
    by (simp add: nth_append)
  have step: "walk_loop fs user ns (Suc (length qs))
      ((qs @ replicate (length (n # ns)) zero_Qid)[length qs := dir_Qid (f_Dir (fs_files fs g))]) g
    = (let gs = g # resolve (fs_files fs) ch ns g in
    Some (length qs + length gs, qs @ map (\<lambda>g. dir_Qid (f_Dir (fs_files fs g))) gs
      @ replicate (length (n # ns) - length gs) zero_Qid, last gs))" if "g < fs_new fs" for g
    using that Cons.IH [of g "qs @ [dir_Qid (f_Dir (fs_files fs g))]"]
    by (simp add: Let_def list_update_append)
  show ?case
  proof (cases "n = ''..''")
    case True
    then show ?thesis using p step [OF p(2)] by (simp add: Let_def)
  next
    case False
    then show ?thesis using F q step child
      by (cases "find (\<lambda>x. file_name fs x = n) (ch f)") (simp_all add: Let_def zero_Qid_def)
  qed
qed simp

text \<open>C23: The walk of \<open>Fsrv\<close> resolves the path name by name, \<open>..\<close> to the parent and any other name to
  the child with that name, ends at the last file that exists, and returns the qids of the files it
  passed.  It does so for every user: no permission is ever checked on the way.\<close>

theorem walk_resolves_path:
  assumes "tree_ok fs ch" "f < fs_new fs"
  shows "walk_loop fs user ns 0 (replicate (length ns) zero_Qid) f =
   (let gs = resolve (fs_files fs) ch ns f in
    Some (length gs, map (\<lambda>g. dir_Qid (f_Dir (fs_files fs g))) gs
      @ replicate (length ns - length gs) zero_Qid, last (f # gs)))"
  using walk_loop_resolve [OF assms(1), where qs = "[]"] assms(2) by simp

lemma small_tree_tree: "tree_ok small_tree (\<lambda>f. if f = 0 then [1] else [])"
  by (auto simp: tree_ok_def dir_ok_def kids_def in_use_def small_tree_def blank_file_def)

lemma walk_resolves_path_witness:
  "walk_loop small_tree None [''a'', ''..'', ''b''] 0 (replicate (length [''a'', ''..'', ''b'']) zero_Qid) 0
    = Some (2, [zero_Qid, zero_Qid, zero_Qid], 0)"
  using walk_resolves_path [OF small_tree_tree, of 0 None "[''a'', ''..'', ''b'']"]
  by (simp add: Let_def small_tree_def blank_file_def zero_Dir_def)

subsection \<open>Reading directories\<close>

definition live :: "(nat \<Rightarrow> File) \<Rightarrow> nat list \<Rightarrow> nat list" where
  "live h gs = filter (\<lambda>g. \<not> f_removed (h g)) gs"

definition entries :: "(nat \<Rightarrow> File) \<Rightarrow> bool \<Rightarrow> nat list \<Rightarrow> bytes" where
  "entries h dotu gs = concat (map (\<lambda>g. enc_dir (f_Dir (h g)) dotu) gs)"

lemma pack_dirs_entries:
  "\<forall>g\<in>set gs. dir_strs_ok (f_Dir (h g)) dotu \<Longrightarrow>
   \<exists>ds rest b'. pack_dirs h dotu gs b = Some (length (entries h dotu ds), entries h dotu ds @ b', rest)
     \<and> live h gs = ds @ live h rest \<and> length (entries h dotu ds) + length b' = length b
     \<and> (rest \<noteq> [] \<longrightarrow> live h rest \<noteq> [] \<and> length b' < statsz (f_Dir (h (hd (live h rest)))) dotu)"
proof (induction gs arbitrary: b)
  case Nil
  have "pack_dirs h dotu [] b = Some (length (entries h dotu []), entries h dotu [] @ b, [])"
    by (simp add: entries_def)
  then show ?case by (force simp: live_def entries_def)
next
  case (Cons g gs)
  let ?n = "statsz (f_Dir (h g)) dotu"
  show ?case
  proof (cases "f_removed (h g)")
    case True
    then show ?thesis using Cons.IH [of b] Cons.prems by (simp add: live_def)
  next
    case live: False
    have ok: "dir_strs_ok (f_Dir (h g)) dotu" using Cons.prems by simp
    show ?thesis
    proof (cases "?n \<le> length b")
      case False
      then have "PackDir (f_Dir (h g)) b dotu = Some (0, b)" by (simp add: PackDir_def Let_def)
      then have "pack_dirs h dotu (g # gs) b = Some (length (entries h dotu []), entries h dotu [] @ b, g # gs)"
        using live by (simp add: entries_def)
      then show ?thesis using live False by (force simp: live_def entries_def)
    next
      case True
      have e: "length (enc_dir (f_Dir (h g)) dotu) = ?n" "?n > 0" by (simp_all add: statsz_def)
      obtain ds rest b' where r: "pack_dirs h dotu gs (drop ?n b) = Some (length (entries h dotu ds), entries h dotu ds @ b', rest)"
          "live h gs = ds @ live h rest" "length (entries h dotu ds) + length b' = length (drop ?n b)"
          "rest \<noteq> [] \<longrightarrow> live h rest \<noteq> [] \<and> length b' < statsz (f_Dir (h (hd (live h rest)))) dotu"
        using Cons.IH [of "drop ?n b"] Cons.prems by auto
      have "pack_dirs h dotu (g # gs) b = Some (length (entries h dotu (g # ds)), entries h dotu (g # ds) @ b', rest)"
        using live True r(1) e by (simp add: PackDir_enc [OF ok True] entries_def)
      moreover have "live h (g # gs) = (g # ds) @ live h rest" using live r(2) by (simp add: live_def)
      moreover have "length (entries h dotu (g # ds)) + length b' = length b" using r(3) e True by (simp add: entries_def)
      ultimately show ?thesis using r(4) by blast
    qed
  qed
qed

end
