(* ===== verification/Srv_Readdir.thy ===== *)
theory Srv_Readdir
  imports Srv_Tree Srv_Faults
begin

section \<open>Reading a directory, and checking permissions\<close>

text \<open>
  \<open>Fsrv.Read\<close> of a directory as a whole, from the request to the reply that is queued, and
  \<open>CheckPerm\<close> against the permission bits of the three classes.
\<close>

lemma SetRreadCount_type: "SetRreadCount fc n = Some fc' \<Longrightarrow> fc_Type fc' = fc_Type fc"
  by (auto simp: SetRreadCount_def Let_def split: Option.bind_splits)

lemma copy_Data_type [simp]: "fc_Type (copy_Data fc b) = fc_Type fc"
  by (simp add: copy_Data_def Let_def)

text \<open>C24: A \<open>Tread\<close> at offset 0 of a directory is answered with whole entries only: those of the
  children that were not removed, in the order of the directory, as many as fit into the count; the
  rest is kept for the next read, and its first entry is the one that did not fit.\<close>

theorem read_directory:
  assumes "lone c r a" "fc_Type (req_Tc (c_heap c r)) = Tread" "fc_Offset (req_Tc (c_heap c r)) = 0"
    and "fid_Aux (c_fids c a) = Some ff" "ff_Fid ff = a" "ff_F ff = Some f"
    and "fid_Omode (c_fids c a) AND 3 \<noteq> OWRITE" "dir_Mode (f_Dir (file_of c f)) AND DMDIR \<noteq> 0"
    and "kids (fs_files (c_fs c)) f xs" "in_use (c_fs c) xs"
    and "\<forall>g\<in>set xs. dir_strs_ok (f_Dir (file_of c g)) (c_Dotu c)"
    and "11 + unat (fc_Count (req_Tc (c_heap c r))) \<le> length (fc_Buf (req_Rc (c_heap c r)))"
    and "11 + unat (fc_Count (req_Tc (c_heap c r))) < 2 ^ 32"
  shows "\<exists>d ds rest. Fsrv_Read fops r c = Some d \<and> c_reqout d = c_reqout c @ [r]
    \<and> fc_Data (req_Rc (c_heap d r)) = entries (fs_files (c_fs c)) (c_Dotu c) ds
    \<and> live (fs_files (c_fs c)) xs = ds @ live (fs_files (c_fs c)) rest
    \<and> fid_Aux (c_fids d a) = Some (ff\<lparr>ff_dirs := rest\<rparr>)
    \<and> (rest = [] \<or> (\<exists>g gs. live (fs_files (c_fs c)) rest = g # gs
        \<and> unat (fc_Count (req_Tc (c_heap c r))) < length (entries (fs_files (c_fs c)) (c_Dotu c) (ds @ [g]))))"
proof -
  let ?tc = "req_Tc (c_heap c r)" and ?rc = "req_Rc (c_heap c r)" and ?h = "fs_files (c_fs c)" and ?u = "c_Dotu c"
  let ?n = "unat (fc_Count ?tc)"
  define fc1 where "fc1 = rread_fcall ?rc (fc_Count ?tc)"
  have i: "InitRread ?rc (fc_Count ?tc) = Some (Inr fc1)"
    using InitRread_eq [of "fc_Count ?tc" ?rc] assms(12,13) by (simp add: fc1_def)
  have b: "length (fc_Data fc1) = ?n" using assms(12) by (simp add: fc1_def rread_fcall_def Let_def)
  have ch: "children_from (fs_new (c_fs c)) ?h (f_cfirst (?h f)) = Some xs"
    using assms(9,10) path_length [of _ _ xs "fs_new (c_fs c)"]
    by (auto simp: kids_def in_use_def intro!: children_from_path)
  obtain ds rest b' where pk: "pack_dirs ?h ?u xs (fc_Data fc1) = Some (length (entries ?h ?u ds), entries ?h ?u ds @ b', rest)"
      "live ?h xs = ds @ live ?h rest" "length (entries ?h ?u ds) + length b' = ?n"
      "rest \<noteq> [] \<longrightarrow> live ?h rest \<noteq> [] \<and> length b' < statsz (f_Dir (?h (hd (live ?h rest)))) ?u"
    using pack_dirs_entries [OF assms(11), of "fc_Data fc1"] b by auto
  define m where "m = length (entries ?h ?u ds)"
  have m: "unat (of_nat m :: u32) = m" "m \<le> ?n"
    using pk(3) assms(13) by (simp_all add: m_def unat_of_nat take_bit_nat_eq_self)
  obtain fc2 where fc2: "SetRreadCount (copy_Data fc1 (entries ?h ?u ds @ b')) (of_nat m) = Some fc2"
      "fc_Data fc2 = entries ?h ?u ds"
    using SetRreadCount_filled [of "fc_Count ?tc" ?rc "of_nat m" "entries ?h ?u ds @ b'"] assms(12,13) i m pk(3)
    by (auto simp: m_def)
  then have ty: "fc_Type fc2 = Rread"
    using SetRreadCount_type [OF fc2(1)] by (simp add: fc1_def rread_fcall_def Let_def)
  define e where "e = set_Rc r fc2 (set_Aux a (ff\<lparr>ff_dirs := rest\<rparr>) (set_Rc r fc1 c))"
  have fa: "req_Fid (c_heap c r) = Some a" using assms(1) by (simp add: lone_def)
  have "Fsrv_Read fops r c = Respond (fsrv_hooks fops) r e"
    using assms(3-8) fa i ch pk(1) fc2(1)
    by (simp add: Fsrv_Read_def with_ffid_def Let_def set_Aux_def e_def m_def)
  also have "\<dots> = Some (let d = drop_fid r a (set_fid a (\<lambda>x. if fid_Type x AND QTDIR \<noteq> 0
        then x\<lparr>fid_Diroffset := fid_Diroffset x + ucast (fc_Count fc2)\<rparr> else x) (answered r e)) in d\<lparr>c_reqout := c_reqout d @ [r]\<rparr>)"
  proof (rule Respond_lone)
    show "lone e r a" using assms(1) by (simp add: lone_def e_def set_Aux_def)
    show "post_handler (fsrv_hooks fops) r (answered r e) = Some (set_fid a (\<lambda>x. if fid_Type x AND QTDIR \<noteq> 0
        then x\<lparr>fid_Diroffset := fid_Diroffset x + ucast (fc_Count fc2)\<rparr> else x) (answered r e))"
      using assms(2) fa ty
      by (simp add: post_handler_def readPost_def e_def set_Aux_def msg_type_defs) (simp add: set_fid_def)
  qed (simp_all add: fsrv_hooks_def)
  finally obtain d where d: "Fsrv_Read fops r c = Some d" "c_reqout d = c_reqout c @ [r]"
      "fc_Data (req_Rc (c_heap d r)) = entries ?h ?u ds" "fid_Aux (c_fids d a) = Some (ff\<lparr>ff_dirs := rest\<rparr>)"
    using fc2(2) by (simp add: Let_def drop_fid_def e_def set_Aux_def)
  have "unat (fc_Count ?tc) < length (entries ?h ?u (ds @ [g]))" if "live ?h rest = g # gs" "rest \<noteq> []" for g gs
    using pk(3,4) that by (simp add: entries_def)
  moreover have "rest = [] \<or> (\<exists>g gs. live ?h rest = g # gs)" using pk(4) by (cases "live ?h rest") auto
  ultimately have "rest = [] \<or> (\<exists>g gs. live ?h rest = g # gs \<and> ?n < length (entries ?h ?u (ds @ [g])))"
    by blast
  then show ?thesis using d pk(2) by blast
qed

definition read_root :: "unit fconn" where
  "read_root = (conn_with [zero_Req\<lparr>req_Tc := zero_Fcall\<lparr>fc_Type := Tread, fc_Count := 100\<rparr>,
       req_Rc := NewFcall 128, req_Fid := Some 0, req_status := {reqWork}\<rparr>] [(0, 0)])
     \<lparr>c_fids := (\<lambda>_. zero_Fid\<lparr>fid_refcount := 2, fid_Type := QTDIR,
        fid_Aux := Some \<lparr>ff_F = Some 0, ff_Fid = 0, ff_dirs = []\<rparr>\<rparr>),
      c_fs := set_file 0 (\<lambda>f. f\<lparr>f_Dir := zero_Dir\<lparr>dir_Mode := DMDIR\<rparr>\<rparr>) small_tree\<rparr>"

lemma read_directory_witness:
  "\<exists>d ds rest. Fsrv_Read no_methods 0 read_root = Some d \<and> c_reqout d = [0]
    \<and> fc_Data (req_Rc (c_heap d 0)) = entries (fs_files (c_fs read_root)) True ds \<and> [1] = ds @ live (fs_files (c_fs read_root)) rest"
proof -
  let ?c = read_root and ?ff = "\<lparr>ff_F = Some 0, ff_Fid = 0, ff_dirs = []\<rparr>"
  have h: "c_heap ?c 0 = zero_Req\<lparr>req_Tc := zero_Fcall\<lparr>fc_Type := Tread, fc_Count := 100\<rparr>,
       req_Rc := NewFcall 128, req_Fid := Some 0, req_status := {reqWork}\<rparr>"
    "c_fids ?c 0 = zero_Fid\<lparr>fid_refcount := 2, fid_Type := QTDIR, fid_Aux := Some ?ff\<rparr>" "c_Dotu ?c"
    "c_reqout ?c = []"
    by (simp_all add: read_root_def)
  have k: "kids (fs_files (c_fs ?c)) 0 [1]" "in_use (c_fs ?c) [1]" "live (fs_files (c_fs ?c)) [1] = [1]"
    "dir_strs_ok (f_Dir (file_of ?c 1)) True"
    by (simp_all add: read_root_def small_tree_def blank_file_def kids_def in_use_def live_def dir_strs_ok_def
        str_ok_def zero_Dir_def)
  have "dir_Mode (f_Dir (file_of ?c 0)) AND DMDIR \<noteq> 0" by (simp add: read_root_def DMDIR_def)
  moreover have "fid_Omode (c_fids ?c 0) AND 3 \<noteq> OWRITE" by (simp add: h OWRITE_def)
  moreover have "lone ?c 0 0" by (simp add: lone_def h)
  ultimately show ?thesis
    using read_directory [of ?c 0 0 ?ff 0 "[1]" no_methods] h k by (auto simp: NewFcall_def)
qed

subsection \<open>Permissions\<close>

text \<open>The permission bits a user has: those of others, and of the owner and the group as they apply.\<close>

definition granted :: "Dir \<Rightarrow> User \<Rightarrow> u32" where
  "granted d u = (dir_Mode d
     OR (if dir_Uid d = usr_Name u \<or> dir_Uidnum d = of_int (usr_Id u) then drop_bit 6 (dir_Mode d) else 0)
     OR (if \<exists>g\<in>set (usr_Groups u). dir_Gid d = grp_Name g \<or> dir_Gidnum d = of_int (grp_Id g)
         then drop_bit 3 (dir_Mode d) else 0)) AND 7"

lemma and_sub: "(a AND p = p) \<longleftrightarrow> (\<forall>n. bit p n \<longrightarrow> bit a n)" for a p :: u32
proof
  show "\<forall>n. bit p n \<longrightarrow> bit a n" if "a AND p = p" by (metis bit_and_iff that)
  show "a AND p = p" if "\<forall>n. bit p n \<longrightarrow> bit a n" by (rule bit_eqI) (use that in \<open>auto simp: bit_and_iff\<close>)
qed

text \<open>C25: \<open>CheckPerm\<close>, which tries the three classes one after the other and stops early, grants exactly
  the accesses whose bits are all among those the user has by being anyone, the owner or a member of
  the group; bits above the lowest three are ignored, and a nil user has no access.\<close>

theorem CheckPerm_grants:
  "CheckPerm d user perm = (case user of None \<Rightarrow> False | Some u \<Rightarrow> granted d u AND (perm AND 7) = perm AND 7)"
proof (cases user)
  case (Some u)
  have g: "in_group d (usr_Groups u) = (\<exists>g\<in>set (usr_Groups u). dir_Gid d = grp_Name g \<or> dir_Gidnum d = of_int (grp_Id g))"
    by (simp add: in_group_def list_ex_iff)
  show ?thesis
    by (auto simp: Some CheckPerm_def granted_def grant_def g Let_def and_sub bit_simps)
qed (simp add: CheckPerm_def)

end
