(* ===== verification/Chan_Elem.thy ===== *)
theory Chan_Elem
  imports Go_Prelude P9_Types
begin

section \<open>Path names (p/chan9/nselem.go)\<close>

text \<open>
  A name is split at its slashes into a list of elements, while \<open>.\<close> is dropped and \<open>..\<close> takes away
  the element before it; \<open>PathJoin\<close> puts such a list behind a path that is already resolved.  The Go
  code ranges over the runes of the name: since it compares them with ASCII characters only, and the
  bytes of a longer rune are never ASCII, the loop is written over the bytes.
\<close>

record FileID =
  fi_Type :: u16
  fi_Dev :: u32
  fi_Qid :: Qid

record Elemlist =
  Elems :: "string list"
  Ref :: char
  Mustbedir :: bool

definition PathJoin :: "string list \<Rightarrow> string list \<Rightarrow> FileID list \<Rightarrow> FileID list \<Rightarrow> string list \<times> FileID list" where
  "PathJoin from add pfrom padd = (
     let ndotdot = length (takeWhile (\<lambda>s. s = ''..'') add);
         nkeep = length from - ndotdot;
         out = take nkeep from @ drop ndotdot add;
         ndotdot = min ndotdot (length padd);
         pkeep = length pfrom - ndotdot
     in (out, take pkeep pfrom @ drop ndotdot padd))"

definition addelem :: "string \<Rightarrow> Elemlist \<Rightarrow> Elemlist" where
  "addelem s e = (
     if s = ''..'' \<and> Elems e \<noteq> [] \<and> last (Elems e) \<noteq> ''..'' then e\<lparr>Elems := butlast (Elems e)\<rparr>
     else if s = ''..'' \<and> Elems e = [] \<and> Ref e = CHR ''/'' then e
     else e\<lparr>Elems := Elems e @ [s]\<rparr>)"

text \<open>The loop over the name: the index, the rest of the name, the elements so far and the start of the current one.\<close>

definition sub :: "string \<Rightarrow> nat \<Rightarrow> nat \<Rightarrow> string" where
  "sub nm lo hi = take (hi - lo) (drop lo nm)"

fun parse_loop :: "string \<Rightarrow> nat \<Rightarrow> string \<Rightarrow> Elemlist \<Rightarrow> nat \<Rightarrow> Elemlist \<times> nat" where
  "parse_loop nm i [] e n = (e, n)"
| "parse_loop nm i (c # cs) e n =
    (if Mustbedir e then
       if c \<noteq> CHR ''/'' \<and> (c \<noteq> CHR ''.'' \<or> (length nm > i + 1 \<and> nm ! (i + 1) \<noteq> CHR ''/''))
       then parse_loop nm (i + 1) cs (e\<lparr>Mustbedir := False\<rparr>) i
       else parse_loop nm (i + 1) cs e n
     else if c = CHR ''/'' then parse_loop nm (i + 1) cs (addelem (sub nm n i) (e\<lparr>Mustbedir := True\<rparr>)) n
     else parse_loop nm (i + 1) cs e n)"

definition ParseName :: "string \<Rightarrow> Elemlist" where
  "ParseName name = (
     let (ref, name) = (case name of
           c # cs \<Rightarrow> if c = CHR ''/'' then (CHR ''/'', cs) else if c = CHR ''#'' then (CHR ''#'', cs)
                    else (CHR ''.'', name)
         | [] \<Rightarrow> (CHR ''.'', name));
       (e, n) = parse_loop name 0 name \<lparr>Elems = [], Ref = ref, Mustbedir = True\<rparr> 0;
       i = length name
     in if \<not> Mustbedir e \<and> i > 0
        then addelem (sub name n i) (if sub name n i = ''..'' then e\<lparr>Mustbedir := True\<rparr> else e)
        else e)"

fun join_slash :: "string list \<Rightarrow> string" where
  "join_slash [] = []"
| "join_slash [s] = s"
| "join_slash (s # t # ts) = s @ ''/'' @ join_slash (t # ts)"

definition Elemlist_String :: "Elemlist \<Rightarrow> string" where
  "Elemlist_String e = (
     let hd = (if Ref e = CHR ''/'' then ''/'' else if Ref e = CHR ''#'' then ''#'' else '''');
         tl = (if Mustbedir e then ''/'' else '''')
     in hd @ join_slash (Elems e) @ tl)"

lemma parse_examples:
  "ParseName ''/a//./b/../c'' = \<lparr>Elems = [''a'', ''c''], Ref = CHR ''/'', Mustbedir = False\<rparr>"
  "ParseName ''../../x/..'' = \<lparr>Elems = [''..'', ''..''], Ref = CHR ''.'', Mustbedir = True\<rparr>"
  "ParseName ''/../.hid/.'' = \<lparr>Elems = [''.hid''], Ref = CHR ''/'', Mustbedir = True\<rparr>"
  "ParseName '''' = \<lparr>Elems = [], Ref = CHR ''.'', Mustbedir = True\<rparr>"
  by code_simp+

subsection \<open>Splitting at the slashes\<close>

fun split_slash :: "string \<Rightarrow> string list" where
  "split_slash [] = [[]]"
| "split_slash (c # cs) = (if c = CHR ''/'' then [] # split_slash cs
     else (c # hd (split_slash cs)) # tl (split_slash cs))"

definition proper :: "string \<Rightarrow> bool" where
  "proper s \<longleftrightarrow> s \<noteq> [] \<and> s \<noteq> ''.''"

definition dir_end :: "string list \<Rightarrow> bool" where
  "dir_end ss \<longleftrightarrow> \<not> proper (last ss) \<or> last ss = ''..''"

text \<open>What a name means: its proper elements, one after the other.\<close>

definition name_elems :: "string \<Rightarrow> string \<Rightarrow> Elemlist \<Rightarrow> Elemlist" where
  "name_elems pre cs e = (let ss = (pre @ hd (split_slash cs)) # tl (split_slash cs)
     in (fold addelem (filter proper ss) e)\<lparr>Mustbedir := dir_end ss\<rparr>)"

lemma split_slash_neq: "split_slash cs \<noteq> []"
  by (cases cs) auto

lemma addelem_Ref [simp]: "Ref (addelem s e) = Ref e"
  by (simp add: addelem_def)

lemma addelem_Mustbedir [simp]: "Mustbedir (addelem s e) = Mustbedir e"
  "addelem s (e\<lparr>Mustbedir := b\<rparr>) = (addelem s e)\<lparr>Mustbedir := b\<rparr>"
  by (simp_all add: addelem_def)

lemma fold_addelem_Mustbedir: "fold addelem ss (e\<lparr>Mustbedir := b\<rparr>) = (fold addelem ss e)\<lparr>Mustbedir := b\<rparr>"
  by (induction ss arbitrary: e) simp_all

definition finish :: "string \<Rightarrow> Elemlist \<times> nat \<Rightarrow> Elemlist" where
  "finish nm en = (case en of (e, n) \<Rightarrow>
     if \<not> Mustbedir e then addelem (sub nm n (length nm)) (if sub nm n (length nm) = ''..'' then e\<lparr>Mustbedir := True\<rparr> else e)
     else e)"

lemma sub_self: "sub (pre @ cs) n (length pre) = drop n pre"
  by (simp add: sub_def)

lemma name_elems_Mustbedir [simp]: "name_elems pre cs (e\<lparr>Mustbedir := b\<rparr>) = name_elems pre cs e"
  by (simp add: name_elems_def Let_def fold_addelem_Mustbedir)

lemma name_elems_slash: "name_elems pre (CHR ''/'' # cs) e = name_elems [] cs (if proper pre then addelem pre e else e)"
  using split_slash_neq [of cs] by (simp add: name_elems_def Let_def dir_end_def)

lemma name_elems_char: "c \<noteq> CHR ''/'' \<Longrightarrow> name_elems pre (c # cs) e = name_elems (pre @ [c]) cs e"
  by (simp add: name_elems_def Let_def)

lemma name_elems_dot: "cs = [] \<or> hd cs = CHR ''/'' \<Longrightarrow> name_elems ''.'' cs e = name_elems [] cs e"
  by (cases cs) (auto simp: name_elems_slash proper_def, simp add: name_elems_def Let_def proper_def dir_end_def)

text \<open>
  The loop, between elements and inside one.  An element that has begun is proper as a whole.
\<close>

lemma parse_loop_spec:
  assumes "nm = pre @ cs" "i = length pre" "\<not> Mustbedir e \<longrightarrow> n < i \<and> proper (drop n pre @ hd (split_slash cs))"
  shows "finish nm (parse_loop nm i cs e n) =
    (if Mustbedir e then name_elems [] cs e else name_elems (drop n pre) cs e)"
  using assms
proof (induction cs arbitrary: pre i e n)
  case Nil
  then show ?case
    by (auto simp: finish_def name_elems_def dir_end_def sub_def proper_def)
next
  case (Cons c cs)
  have nm: "nm = (pre @ [c]) @ cs" using Cons.prems(1) by simp
  have i: "i + 1 = length (pre @ [c])" using Cons.prems(2) by simp
  have next': "length nm > i + 1 \<and> nm ! (i + 1) \<noteq> CHR ''/'' \<longleftrightarrow> \<not> (cs = [] \<or> hd cs = CHR ''/'')"
    using Cons.prems(1,2) by (cases cs) (auto simp: nth_append)
  note IH = Cons.IH [OF nm i]
  consider (slash) "c = CHR ''/''"
    | (dot) "Mustbedir e" "c = CHR ''.''" "cs = [] \<or> hd cs = CHR ''/''"
    | (start) "Mustbedir e" "c \<noteq> CHR ''/''" "c \<noteq> CHR ''.'' \<or> \<not> (cs = [] \<or> hd cs = CHR ''/'')"
    | (inside) "\<not> Mustbedir e" "c \<noteq> CHR ''/''"
    by blast
  then show ?case
  proof cases
    case slash
    then show ?thesis
      using Cons.prems IH [of "addelem (drop n pre) (e\<lparr>Mustbedir := True\<rparr>)" n] IH [of e n]
      by (auto simp: name_elems_slash sub_self proper_def)
  next
    case dot
    then show ?thesis
      using IH [of e n] next' name_elems_char [of c "[]" cs e] name_elems_dot [of cs e] by auto
  next
    case start
    have "proper (drop i (pre @ [c]) @ hd (split_slash cs))"
      using start Cons.prems(2) by (cases cs) (auto simp: proper_def)
    then show ?thesis
      using IH [of "e\<lparr>Mustbedir := False\<rparr>" i] next' start Cons.prems(2) name_elems_char [of c "[]" cs e]
      by simp
  next
    case inside
    then show ?thesis
      using IH [of e n] Cons.prems by (simp add: name_elems_char)
  qed
qed

lemma finish_ParseName: "ParseName nm = (let (ref, name) = (case nm of
           c # cs \<Rightarrow> if c = CHR ''/'' then (CHR ''/'', cs) else if c = CHR ''#'' then (CHR ''#'', cs)
                    else (CHR ''.'', nm)
         | [] \<Rightarrow> (CHR ''.'', nm)) in finish name (parse_loop name 0 name \<lparr>Elems = [], Ref = ref, Mustbedir = True\<rparr> 0))"
  by (auto simp: ParseName_def finish_def Let_def split: prod.splits list.splits)

subsection \<open>The meaning of a name\<close>

definition name_ref :: "string \<Rightarrow> char" where
  "name_ref nm = (if nm \<noteq> [] \<and> (hd nm = CHR ''/'' \<or> hd nm = CHR ''#'') then hd nm else CHR ''.'')"

definition name_body :: "string \<Rightarrow> string" where
  "name_body nm = (if name_ref nm = CHR ''.'' then nm else tl nm)"

lemma ParseName_fold: "ParseName nm = (fold addelem (filter proper (split_slash (name_body nm)))
    \<lparr>Elems = [], Ref = name_ref nm, Mustbedir = True\<rparr>)\<lparr>Mustbedir := dir_end (split_slash (name_body nm))\<rparr>"
proof -
  have "ParseName nm = finish (name_body nm)
      (parse_loop (name_body nm) 0 (name_body nm) \<lparr>Elems = [], Ref = name_ref nm, Mustbedir = True\<rparr> 0)"
    by (auto simp: finish_ParseName name_ref_def name_body_def split: list.splits)
  also have "\<dots> = name_elems [] (name_body nm) \<lparr>Elems = [], Ref = name_ref nm, Mustbedir = True\<rparr>"
    by (subst parse_loop_spec [where pre = "[]"]) simp_all
  finally show ?thesis
    using split_slash_neq [of "name_body nm"] by (simp add: name_elems_def Let_def)
qed

text \<open>One element at a time: \<open>..\<close> goes up, and stays at the root.\<close>

definition pop_elem :: "string list \<Rightarrow> string \<Rightarrow> string list" where
  "pop_elem path s = (if s = ''..'' then butlast path else path @ [s])"

text \<open>The elements of a parsed name: only names behind the leading \<open>..\<close>, and no \<open>..\<close> at the root.\<close>

definition canon :: "Elemlist \<Rightarrow> bool" where
  "canon e \<longleftrightarrow> (\<exists>k ss. Elems e = replicate k ''..'' @ ss \<and> ''..'' \<notin> set ss \<and> (Ref e = CHR ''/'' \<longrightarrow> k = 0))"

lemma canonI: "Elems e = replicate k ''..'' @ ss \<Longrightarrow> ''..'' \<notin> set ss \<Longrightarrow> (Ref e = CHR ''/'' \<Longrightarrow> k = 0) \<Longrightarrow> canon e"
  by (auto simp: canon_def)

lemma canon_Mustbedir [simp]: "canon (e\<lparr>Mustbedir := b\<rparr>) = canon e"
  by (simp add: canon_def)

lemma PathJoin_canon:
  assumes "add = replicate k ''..'' @ ss" "''..'' \<notin> set ss"
  shows "fst (PathJoin from add pf pa) = take (length from - k) from @ ss"
proof -
  have "takeWhile (\<lambda>s. s = ''..'') add = replicate k ''..''"
    using assms by (cases ss) (auto simp: takeWhile_append)
  then show ?thesis using assms(1) by (simp add: PathJoin_def Let_def)
qed

lemma addelem_canon:
  assumes "canon e" "Ref e = CHR ''/'' \<longrightarrow> cwd = []"
  shows "canon (addelem s e) \<and>
    fst (PathJoin cwd (Elems (addelem s e)) pf pa) = pop_elem (fst (PathJoin cwd (Elems e) pf pa)) s"
proof -
  obtain k ss where e: "Elems e = replicate k ''..'' @ ss" "''..'' \<notin> set ss" "Ref e = CHR ''/'' \<longrightarrow> k = 0"
    using assms(1) by (auto simp: canon_def)
  note join = PathJoin_canon [OF e(1,2)]
  consider (name) "s \<noteq> ''..''" | (up) "s = ''..''" "ss \<noteq> []" | (root) "s = ''..''" "ss = []" "Ref e = CHR ''/''"
    | (more) "s = ''..''" "ss = []" "Ref e \<noteq> CHR ''/''" by blast
  then show ?thesis
  proof cases
    case name
    then have "Elems (addelem s e) = replicate k ''..'' @ (ss @ [s])" by (simp add: addelem_def e(1))
    moreover have "''..'' \<notin> set (ss @ [s])" using name e(2) by auto
    ultimately show ?thesis
      using PathJoin_canon canonI [of "addelem s e"] e(3) name by (auto simp: join pop_elem_def)
  next
    case up
    then have "last ss \<noteq> ''..''" using e(2) last_in_set by metis
    then have "Elems (addelem s e) = replicate k ''..'' @ butlast ss"
      using up by (simp add: addelem_def e(1) butlast_append)
    moreover have "''..'' \<notin> set (butlast ss)" using e(2) in_set_butlastD by metis
    ultimately show ?thesis
      using PathJoin_canon canonI [of "addelem s e"] e(3) up by (auto simp: join pop_elem_def butlast_append)
  next
    case root
    then have "addelem s e = e" using e by (simp add: addelem_def)
    then show ?thesis using assms root e by (simp add: PathJoin_def pop_elem_def)
  next
    case more
    then have "Elems (addelem s e) = replicate (Suc k) ''..'' @ []"
      using e by (cases k) (auto simp: addelem_def replicate_append_same)
    moreover have "take (length cwd - Suc k) cwd = butlast (take (length cwd - k) cwd)"
      by (simp add: butlast_take)
    ultimately show ?thesis
      using PathJoin_canon [of _ "Suc k" "[]" cwd] canonI [of "addelem s e" "Suc k" "[]"] more
      by (simp add: join pop_elem_def)
  qed
qed

lemma fold_addelem_canon:
  assumes "canon e" "Ref e = CHR ''/'' \<longrightarrow> cwd = []"
  shows "canon (fold addelem ss e) \<and>
    fst (PathJoin cwd (Elems (fold addelem ss e)) pf pa) = foldl pop_elem (fst (PathJoin cwd (Elems e) pf pa)) ss"
  using assms
proof (induction ss arbitrary: e)
  case (Cons s ss)
  then show ?case using addelem_canon [of e cwd s pf pa] by simp
qed simp

lemma fold_addelem_Ref [simp]: "Ref (fold addelem ss e) = Ref e"
  by (induction ss arbitrary: e) simp_all

text \<open>C30: A name is parsed to what its elements mean one after the other: put behind any path by
  \<open>PathJoin\<close> (or behind the root, for a rooted name), its elements give the path reached by following
  the elements between the slashes, where \<open>..\<close> goes up and stays at the root; the name must be a
  directory exactly when its last element is empty, \<open>.\<close> or \<open>..\<close>.\<close>

lemma ParseName_resolves:
  "let e = ParseName nm; ss = split_slash (name_body nm); start = (if name_ref nm = CHR ''/'' then [] else cwd)
   in Ref e = name_ref nm \<and> Mustbedir e = dir_end ss
      \<and> fst (PathJoin start (Elems e) pf pa) = foldl pop_elem start (filter proper ss)"
proof -
  let ?e0 = "\<lparr>Elems = [], Ref = name_ref nm, Mustbedir = True\<rparr>"
  let ?start = "if name_ref nm = CHR ''/'' then [] else cwd"
  have c: "canon ?e0" by (simp add: canon_def)
  have "fst (PathJoin ?start (Elems ?e0) pf pa) = ?start" by (simp add: PathJoin_def)
  then show ?thesis
    using fold_addelem_canon [OF c, of ?start "filter proper (split_slash (name_body nm))" pf pa]
    by (simp add: ParseName_fold Let_def)
qed

subsection \<open>Writing a name and parsing it again\<close>

lemma split_slash_append: "CHR ''/'' \<notin> set s \<Longrightarrow> split_slash (s @ CHR ''/'' # cs) = s # split_slash cs"
  by (induction s) auto

lemma split_slash_self: "CHR ''/'' \<notin> set s \<Longrightarrow> split_slash s = [s]"
  by (induction s) auto

lemma split_join:
  assumes "ss \<noteq> []" "\<forall>s \<in> set ss. CHR ''/'' \<notin> set s"
  shows "split_slash (join_slash ss) = ss" "split_slash (join_slash ss @ ''/'') = ss @ ['''']"
  using assms by (induction ss rule: join_slash.induct) (simp_all add: split_slash_append split_slash_self)

lemma fold_addelem_names:
  "''..'' \<notin> set ss \<Longrightarrow> fold addelem ss e = e\<lparr>Elems := Elems e @ ss\<rparr>"
  by (induction ss arbitrary: e) (auto simp: addelem_def)

lemma fold_addelem_dotdot:
  "Ref e \<noteq> CHR ''/'' \<Longrightarrow> Elems e = [] \<or> last (Elems e) = ''..'' \<Longrightarrow>
    fold addelem (replicate k ''..'') e = e\<lparr>Elems := Elems e @ replicate k ''..''\<rparr>"
  by (induction k arbitrary: e) (auto simp: addelem_def replicate_append_same)

lemma fold_addelem_self:
  assumes "canon e"
  shows "fold addelem (Elems e) (e\<lparr>Elems := []\<rparr>) = e"
proof -
  obtain k ss where e: "Elems e = replicate k ''..'' @ ss" "''..'' \<notin> set ss" "Ref e = CHR ''/'' \<longrightarrow> k = 0"
    using assms by (auto simp: canon_def)
  have "fold addelem (replicate k ''..'') (e\<lparr>Elems := []\<rparr>) = e\<lparr>Elems := replicate k ''..''\<rparr>"
    using e(3) fold_addelem_dotdot [of "e\<lparr>Elems := []\<rparr>" k] by (cases "k = 0") auto
  then have "fold addelem (Elems e) (e\<lparr>Elems := []\<rparr>) = e\<lparr>Elems := replicate k ''..'' @ ss\<rparr>"
    by (simp only: e(1) fold_append o_apply fold_addelem_names [OF e(2)]) simp
  then show ?thesis by (simp add: e(1) [symmetric])
qed

definition good_elems :: "Elemlist \<Rightarrow> bool" where
  "good_elems e \<longleftrightarrow> canon e \<and> (\<forall>s \<in> set (Elems e). proper s \<and> CHR ''/'' \<notin> set s)
     \<and> (\<not> Mustbedir e \<longrightarrow> Elems e \<noteq> [] \<and> last (Elems e) \<noteq> ''..'')
     \<and> Ref e \<in> {CHR ''/'', CHR ''#'', CHR ''.''}"

lemma split_slash_clean: "s \<in> set (split_slash cs) \<Longrightarrow> CHR ''/'' \<notin> set s"
proof (induction cs arbitrary: s)
  case (Cons c cs)
  obtain t ts where "split_slash cs = t # ts" using split_slash_neq [of cs] by (cases "split_slash cs") auto
  then show ?case using Cons by (auto split: if_splits)
qed simp

lemma addelem_subset: "set (Elems (addelem s e)) \<subseteq> insert s (set (Elems e))"
  by (auto simp: addelem_def dest: in_set_butlastD)

lemma fold_addelem_subset: "set (Elems (fold addelem ss e)) \<subseteq> set ss \<union> set (Elems e)"
proof (induction ss arbitrary: e)
  case (Cons s ss)
  then show ?case using addelem_subset [of s e] by (fastforce dest: subsetD)
qed simp

lemma addelem_last: "s \<noteq> ''..'' \<Longrightarrow> Elems (addelem s e) \<noteq> [] \<and> last (Elems (addelem s e)) \<noteq> ''..''"
  by (simp add: addelem_def)

lemma fold_addelem_last: "ss \<noteq> [] \<Longrightarrow> last ss \<noteq> ''..'' \<Longrightarrow>
    Elems (fold addelem ss e) \<noteq> [] \<and> last (Elems (fold addelem ss e)) \<noteq> ''..''"
  by (induction ss rule: rev_induct) (simp_all add: addelem_last)

lemma ParseName_good: "good_elems (ParseName nm)"
proof -
  let ?ss = "split_slash (name_body nm)"
  define e where "e = fold addelem (filter proper ?ss) \<lparr>Elems = [], Ref = name_ref nm, Mustbedir = True\<rparr>"
  have "canon e"
    using fold_addelem_canon [of "\<lparr>Elems = [], Ref = name_ref nm, Mustbedir = True\<rparr>" "[]"]
    by (simp add: canon_def e_def)
  moreover have "proper s \<and> CHR ''/'' \<notin> set s" if "s \<in> set (Elems e)" for s
    using that fold_addelem_subset [of "filter proper ?ss" "\<lparr>Elems = [], Ref = name_ref nm, Mustbedir = True\<rparr>"]
      split_slash_clean [of s "name_body nm"] by (auto simp: e_def)
  moreover have "Elems e \<noteq> [] \<and> last (Elems e) \<noteq> ''..''" if "\<not> dir_end ?ss"
    unfolding e_def
  proof (rule fold_addelem_last)
    have "?ss = butlast ?ss @ [last ?ss]" using split_slash_neq by simp
    then have "filter proper ?ss = filter proper (butlast ?ss) @ [last ?ss]"
      using that by (metis dir_end_def filter.simps filter_append)
    then show "filter proper ?ss \<noteq> []" "last (filter proper ?ss) \<noteq> ''..''"
      using that by (simp_all add: dir_end_def)
  qed
  moreover have "Ref e \<in> {CHR ''/'', CHR ''#'', CHR ''.''}"
    by (auto simp: name_ref_def e_def)
  ultimately show ?thesis
    unfolding good_elems_def ParseName_fold e_def [symmetric] by simp
qed

lemma ParseName_of_String:
  assumes "good_elems e" "Ref e = CHR ''.'' \<Longrightarrow> Elems e \<noteq> [] \<and> hd (hd (Elems e)) \<noteq> CHR ''#''"
  shows "ParseName (Elemlist_String e) = e"
proof -
  let ?body = "join_slash (Elems e) @ (if Mustbedir e then ''/'' else '''')"
  have hd: "Elems e \<noteq> [] \<Longrightarrow> ?body \<noteq> [] \<and> hd ?body = hd (hd (Elems e)) \<and> hd ?body \<noteq> CHR ''/''"
  proof -
    assume "Elems e \<noteq> []"
    then obtain s ss where e: "Elems e = s # ss" by (cases "Elems e") auto
    then have s: "s \<noteq> []" "CHR ''/'' \<notin> set s" using assms(1) by (auto simp: good_elems_def proper_def)
    then have hd_s: "hd s \<noteq> CHR ''/''" using hd_in_set [of s] by metis
    moreover obtain t where "join_slash (s # ss) = s @ t" by (cases ss) auto
    ultimately show "?body \<noteq> [] \<and> hd ?body = hd (hd (Elems e)) \<and> hd ?body \<noteq> CHR ''/''"
      using s hd_s by (simp add: e)
  qed
  have ref: "name_ref (Elemlist_String e) = Ref e" "name_body (Elemlist_String e) = ?body"
    using assms hd by (auto simp: good_elems_def name_ref_def name_body_def Elemlist_String_def)
  have split: "filter proper (split_slash ?body) = Elems e \<and> dir_end (split_slash ?body) = Mustbedir e"
  proof (cases "Elems e = []")
    case True
    then show ?thesis using assms(1) by (simp add: good_elems_def proper_def dir_end_def)
  next
    case False
    have c: "\<forall>s \<in> set (Elems e). CHR ''/'' \<notin> set s" "filter proper (Elems e) = Elems e"
      using assms(1) by (auto simp: good_elems_def filter_id_conv)
    show ?thesis
      using assms(1) split_join [OF False c(1)] c(2) False
      by (auto simp: good_elems_def dir_end_def proper_def [of "''''"])
  qed
  have "fold addelem (Elems e) \<lparr>Elems = [], Ref = Ref e, Mustbedir = True\<rparr> = e\<lparr>Mustbedir := True\<rparr>"
    using fold_addelem_self [of "e\<lparr>Mustbedir := True\<rparr>"] assms(1) by (cases e) (simp add: good_elems_def canon_def)
  then show ?thesis using split by (simp add: ParseName_fold ref)
qed

text \<open>C31: A parsed name is parsed to itself again after it has been written out, except for the name of
  the current directory and for names relative to it that begin with a hash.\<close>

lemma ParseName_String:
  assumes "e = ParseName nm" "Ref e = CHR ''.'' \<Longrightarrow> Elems e \<noteq> [] \<and> hd (hd (Elems e)) \<noteq> CHR ''#''"
  shows "ParseName (Elemlist_String e) = e"
  using ParseName_of_String ParseName_good assms by blast

lemma ParseName_String_witness:
  "ParseName (Elemlist_String (ParseName ''../a//b/.'')) = ParseName ''../a//b/.''"
proof -
  have "Elems (ParseName ''../a//b/.'') \<noteq> [] \<and> hd (hd (Elems (ParseName ''../a//b/.''))) \<noteq> CHR ''#''"
    by code_simp
  then show ?thesis by (intro ParseName_String [OF refl])
qed

text \<open>The exceptions are real: the current directory is written as the root, and a file whose name begins with a hash as a device.\<close>

lemma String_of_cwd:
  "Elemlist_String (ParseName ''.'') = ''/''" "Ref (ParseName ''/'') = CHR ''/''"
  "Ref (ParseName (Elemlist_String (ParseName ''./#x''))) = CHR ''#''"
  by code_simp+

end
