(* ===== verification/Chan_Pool.thy ===== *)
theory Chan_Pool
  imports Go_Prelude P9_Types
begin

section \<open>Pools of ids (p/chan9/pool.go)\<close>

text \<open>
  The tags and the fid numbers of a client come from pools: a bitmap of the ids in use, which grows by
  32 bytes at a time up to the maximal id.  \<open>getId\<close> without a free id waits for the next \<open>putId\<close>,
  which hands its id over; \<open>None\<close> is such a call that waits.
\<close>

record pool =
  pl_need :: nat
  pl_maxid :: u32
  pl_imap :: bytes

definition m2id :: "u8 list" where
  "m2id = [
     0, 1, 0, 2, 0, 1, 0, 3, 0, 1, 0, 2, 0, 1, 0, 4, 0, 1, 0, 2, 0, 1, 0, 3, 0, 1, 0, 2, 0, 1, 0, 5,
     0, 1, 0, 2, 0, 1, 0, 3, 0, 1, 0, 2, 0, 1, 0, 4, 0, 1, 0, 2, 0, 1, 0, 3, 0, 1, 0, 2, 0, 1, 0, 6,
     0, 1, 0, 2, 0, 1, 0, 3, 0, 1, 0, 2, 0, 1, 0, 4, 0, 1, 0, 2, 0, 1, 0, 3, 0, 1, 0, 2, 0, 1, 0, 5,
     0, 1, 0, 2, 0, 1, 0, 3, 0, 1, 0, 2, 0, 1, 0, 4, 0, 1, 0, 2, 0, 1, 0, 3, 0, 1, 0, 2, 0, 1, 0, 7,
     0, 1, 0, 2, 0, 1, 0, 3, 0, 1, 0, 2, 0, 1, 0, 4, 0, 1, 0, 2, 0, 1, 0, 3, 0, 1, 0, 2, 0, 1, 0, 5,
     0, 1, 0, 2, 0, 1, 0, 3, 0, 1, 0, 2, 0, 1, 0, 4, 0, 1, 0, 2, 0, 1, 0, 3, 0, 1, 0, 2, 0, 1, 0, 6,
     0, 1, 0, 2, 0, 1, 0, 3, 0, 1, 0, 2, 0, 1, 0, 4, 0, 1, 0, 2, 0, 1, 0, 3, 0, 1, 0, 2, 0, 1, 0, 5,
     0, 1, 0, 2, 0, 1, 0, 3, 0, 1, 0, 2, 0, 1, 0, 4, 0, 1, 0, 2, 0, 1, 0, 3, 0, 1, 0, 2, 0, 1, 0, 0]"

definition newPool :: "u32 \<Rightarrow> pool" where
  "newPool maxid = \<lparr>pl_need = 0, pl_maxid = maxid, pl_imap = []\<rparr>"

text \<open>The first byte with a free bit.\<close>

fun first_free :: "bytes \<Rightarrow> nat" where
  "first_free [] = 0"
| "first_free (b # bs) = (if b \<noteq> 0xFF then 0 else Suc (first_free bs))"

definition grow :: "pool \<Rightarrow> bytes" where
  "grow pl = (let m = of_nat (length (pl_imap pl) + 32) :: u32;
       m = (if m * 8 > pl_maxid pl then pl_maxid pl div 8 + 1 else m)
     in go_copy (replicate (unat m) 0) (pl_imap pl))"

definition getId :: "pool \<Rightarrow> u32 option \<times> pool" where
  "getId pl = (let n = first_free (pl_imap pl);
       imap = (if n \<ge> length (pl_imap pl) then grow pl else pl_imap pl)
     in if n \<ge> length imap then (None, pl\<lparr>pl_need := pl_need pl + 1, pl_imap := imap\<rparr>)
        else (let ret = m2id ! unat (imap ! n) in
          (Some (ucast ret + of_nat n * 8),
           pl\<lparr>pl_imap := imap[n := imap ! n OR push_bit (unat ret) 1]\<rparr>)))"

text \<open>The result of \<open>putId\<close> is the id handed to a waiting \<open>getId\<close>, if there is one.\<close>

definition putId :: "u32 \<Rightarrow> pool \<Rightarrow> (u32 option \<times> pool) option" where
  "putId n pl = (if n = NOFID then Some (None, pl)
     else if pl_need pl > 0 then Some (Some n, pl\<lparr>pl_need := pl_need pl - 1\<rparr>)
     else (let i = unat (n div 8) in
       if i < length (pl_imap pl) then
         Some (None, pl\<lparr>pl_imap := (pl_imap pl)[i := (pl_imap pl ! i) AND NOT (push_bit (unat (n mod 8)) 1)]\<rparr>)
       else None))"

subsection \<open>The set of ids in use\<close>

definition ids :: "bytes \<Rightarrow> nat set" where
  "ids m = {i. i < 8 * length m \<and> bit (m ! (i div 8)) (i mod 8)}"

text \<open>
  The bitmap is within the maximal id, and the next growth stays below \<open>2 ^ 32\<close> ids: always for the
  tag pool, and as long as half a gigabyte of bitmap is not exceeded for the fid pool.
\<close>

definition pool_ok :: "pool \<Rightarrow> bool" where
  "pool_ok pl \<longleftrightarrow> length (pl_imap pl) \<le> unat (pl_maxid pl) div 8 + 1
     \<and> (unat (pl_maxid pl) < 2 ^ 32 - 300 \<or> length (pl_imap pl) + 32 < 2 ^ 29)"

text \<open>The table gives the lowest bit that is clear.\<close>

lemma m2id_table:
  "list_all (\<lambda>n. let b = of_nat n :: u8; k = unat (m2id ! n) in k < 8 \<and> \<not> bit b k) [0..<255]"
  by code_simp

lemma m2id_free: "b \<noteq> 0xFF \<Longrightarrow> unat (m2id ! unat b) < 8 \<and> \<not> bit b (unat (m2id ! unat b))" for b :: u8
proof -
  assume "b \<noteq> 0xFF"
  then have "unat b \<noteq> unat (0xFF :: u8)" by (metis word_unat_eq_iff)
  moreover have "unat b < 256" using unsigned_less [of b, where ?'a = nat] by simp
  ultimately have "unat b < 255" by simp
  then have "let b' = of_nat (unat b) :: u8; k = unat (m2id ! unat b) in k < 8 \<and> \<not> bit b' k"
    using m2id_table unfolding list_all_iff by (metis atLeast0LessThan lessThan_iff set_upt)
  then show ?thesis by (simp add: Let_def)
qed

lemma first_free_spec: "first_free bs \<le> length bs \<and> (first_free bs < length bs \<longrightarrow> bs ! first_free bs \<noteq> 0xFF)
    \<and> (\<forall>i < first_free bs. bs ! i = 0xFF)"
  by (induction bs) (auto simp: nth_Cons split: nat.split)

lemma bit_FF: "i < 8 \<Longrightarrow> bit (0xFF :: u8) i"
proof -
  have "list_all (\<lambda>i. bit (0xFF :: u8) i) [0..<8]" by code_simp
  then show "i < 8 \<Longrightarrow> bit (0xFF :: u8) i" by (simp add: list_all_iff)
qed

lemma ids_full: "first_free bs = length bs \<Longrightarrow> ids bs = {..<8 * length bs}"
proof -
  assume "first_free bs = length bs"
  then have "\<forall>i < length bs. bs ! i = 0xFF" using first_free_spec [of bs] by simp
  then have "bit (bs ! (i div 8)) (i mod 8)" if "i < 8 * length bs" for i
    using that bit_FF [of "i mod 8"] by (simp add: less_mult_imp_div_less mult.commute)
  then show ?thesis by (auto simp: ids_def)
qed

lemma ids_set_bit:
  assumes "n < length m" "k < 8"
  shows "ids (m[n := m ! n OR push_bit k 1]) = insert (8 * n + k) (ids m)"
proof -
  have "bit ((m[n := m ! n OR push_bit k 1]) ! (i div 8)) (i mod 8) \<longleftrightarrow> bit (m ! (i div 8)) (i mod 8) \<or> i = 8 * n + k"
    if "i < 8 * length m" for i
  proof (cases "i div 8 = n")
    case True
    then have "i = 8 * n + k \<longleftrightarrow> i mod 8 = k" using assms(2) by (metis div_mult_mod_eq mult.commute add_left_cancel)
    then show ?thesis using True assms by (auto simp: bit_simps)
  next
    case False
    then have "i \<noteq> 8 * n + k" using assms(2) by auto
    then show ?thesis using False by simp
  qed
  moreover have "8 * n + k < 8 * length m" using assms by simp
  ultimately show ?thesis by (auto simp: ids_def)
qed

lemma ids_clear_bit:
  assumes "n < length m" "k < 8"
  shows "ids (m[n := (m ! n) AND NOT (push_bit k 1)]) = ids m - {8 * n + k}"
proof -
  have "bit ((m[n := (m ! n) AND NOT (push_bit k 1)]) ! (i div 8)) (i mod 8) \<longleftrightarrow> bit (m ! (i div 8)) (i mod 8) \<and> i \<noteq> 8 * n + k"
    if "i < 8 * length m" for i
  proof (cases "i div 8 = n")
    case True
    then have "i = 8 * n + k \<longleftrightarrow> i mod 8 = k" using assms(2) by (metis div_mult_mod_eq mult.commute add_left_cancel)
    moreover have "i mod 8 < 8" by simp
    ultimately show ?thesis using True assms by (auto simp: bit_simps)
  next
    case False
    then have "i \<noteq> 8 * n + k" using assms(2) by auto
    then show ?thesis using False by simp
  qed
  then show ?thesis by (auto simp: ids_def)
qed

lemma grow_length:
  assumes "pool_ok pl"
  shows "length (grow pl) = min (length (pl_imap pl) + 32) (unat (pl_maxid pl) div 8 + 1)"
proof -
  let ?l = "length (pl_imap pl)" and ?x = "unat (pl_maxid pl)"
  let ?m = "of_nat (?l + 32) :: u32"
  have x: "?x < 2 ^ 32" using unsigned_less [of "pl_maxid pl", where ?'a = nat] by simp
  have l: "?l + 32 < 2 ^ 29"
    using assms x by (auto simp: pool_ok_def)
  have m: "unat ?m = ?l + 32"
    using l by (simp only: unsigned_of_nat) (simp add: take_bit_nat_eq_self)
  have m8: "unat (?m * 8) = (?l + 32) * 8"
    by (subst unat_mult_lem [THEN iffD1]) (use l m in simp_all)
  have d: "unat (pl_maxid pl div 8 + 1) = ?x div 8 + 1"
    by (subst unat_add_lem [THEN iffD1]) (use x in \<open>simp_all add: unat_div\<close>)
  have c: "?m * 8 > pl_maxid pl \<longleftrightarrow> (?l + 32) * 8 > ?x"
    by (simp only: word_less_nat_alt m8)
  show ?thesis
    unfolding grow_def Let_def length_go_copy c using m d by (auto simp: min_def simp del: of_nat_add)
qed

lemma ids_append_0: "ids (m @ replicate k 0) = ids m"
proof (rule set_eqI)
  fix i
  show "i \<in> ids (m @ replicate k 0) \<longleftrightarrow> i \<in> ids m"
  proof (cases "i < 8 * length m")
    case True
    then have "i div 8 < length m" by (simp add: less_mult_imp_div_less mult.commute)
    then show ?thesis using True by (simp add: ids_def nth_append)
  next
    case False
    then have "\<not> i div 8 < length m" by linarith
    moreover have "replicate k (0 :: u8) ! (i div 8 - length m) = 0" if "i < 8 * (length m + k)"
      by (subst nth_replicate) (use that False in auto)
    ultimately show ?thesis using False by (auto simp: ids_def nth_append)
  qed
qed

lemma grow_ids:
  assumes "pool_ok pl"
  shows "ids (grow pl) = ids (pl_imap pl)"
    and "i < length (pl_imap pl) \<Longrightarrow> grow pl ! i = pl_imap pl ! i"
    and "length (pl_imap pl) < length (grow pl) \<Longrightarrow> grow pl ! length (pl_imap pl) = 0"
proof -
  have le: "length (pl_imap pl) \<le> length (grow pl)"
    using assms grow_length [OF assms] by (simp add: pool_ok_def)
  define k where "k = length (grow pl) - length (pl_imap pl)"
  have g: "grow pl = pl_imap pl @ replicate k 0"
    using le by (simp add: grow_def go_copy_def Let_def k_def)
  show "ids (grow pl) = ids (pl_imap pl)"
    by (simp add: g ids_append_0)
  show "i < length (pl_imap pl) \<Longrightarrow> grow pl ! i = pl_imap pl ! i"
    by (simp add: g nth_append)
  show "length (pl_imap pl) < length (grow pl) \<Longrightarrow> grow pl ! length (pl_imap pl) = 0"
    by (simp add: g nth_append)
qed

subsection \<open>What the operations do to the set\<close>

lemma of_nat_bit: "n < 2 ^ 29 \<Longrightarrow> unat r < 8 \<Longrightarrow> unat (ucast r + of_nat n * 8 :: u32) = 8 * n + unat r" for r :: u8
proof -
  assume n: "n < 2 ^ 29" and r: "unat r < 8"
  have 1: "unat (of_nat n :: u32) = n"
    using n by (simp only: unsigned_of_nat) (simp add: take_bit_nat_eq_self)
  have 2: "unat (of_nat n * 8 :: u32) = n * 8"
    by (subst unat_mult_lem [THEN iffD1]) (use n 1 in simp_all)
  have 3: "unat (ucast r :: u32) = unat r" using r by (simp add: unsigned_ucast_eq take_bit_nat_eq_self)
  show ?thesis
    by (subst unat_add_lem [THEN iffD1]) (use n r 2 3 in simp_all)
qed

lemma getId_some:
  assumes "pool_ok pl" "getId pl = (Some n, pl')"
  shows "unat n \<notin> ids (pl_imap pl) \<and> ids (pl_imap pl') = insert (unat n) (ids (pl_imap pl))
    \<and> unat n < 8 * (unat (pl_maxid pl) div 8 + 1)
    \<and> pl_need pl' = pl_need pl \<and> pl_maxid pl' = pl_maxid pl
    \<and> length (pl_imap pl) \<le> length (pl_imap pl') \<and> length (pl_imap pl') \<le> unat (pl_maxid pl) div 8 + 1"
proof -
  define k where "k = first_free (pl_imap pl)"
  define m where "m = (if k \<ge> length (pl_imap pl) then grow pl else pl_imap pl)"
  have k: "k < length m" and n: "n = ucast (m2id ! unat (m ! k)) + of_nat k * 8"
    and pl': "pl' = pl\<lparr>pl_imap := m[k := m ! k OR push_bit (unat (m2id ! unat (m ! k))) 1]\<rparr>"
    using assms(2) by (auto simp: getId_def Let_def k_def m_def split: if_splits)
  have spec: "k \<le> length (pl_imap pl)" "k < length (pl_imap pl) \<Longrightarrow> pl_imap pl ! k \<noteq> 0xFF"
    using first_free_spec [of "pl_imap pl"] by (simp_all add: k_def)
  have mk: "m ! k \<noteq> 0xFF"
  proof (cases "k < length (pl_imap pl)")
    case True then show ?thesis using spec by (simp add: m_def)
  next
    case False
    then have "k = length (pl_imap pl)" using spec by simp
    then show ?thesis using k grow_ids(3) [OF assms(1)] by (simp add: m_def)
  qed
  have ids: "ids m = ids (pl_imap pl)" using grow_ids(1) [OF assms(1)] by (simp add: m_def)
  have lm: "length m \<le> unat (pl_maxid pl) div 8 + 1" "length (pl_imap pl) \<le> length m"
    using assms(1) grow_length [OF assms(1)] by (auto simp: m_def pool_ok_def)
  have "unat (pl_maxid pl) < 4294967296" using unsigned_less [of "pl_maxid pl", where ?'a = nat] by simp
  then have "k < 536870912" using k lm by linarith
  then have k29: "k < 2 ^ 29" by simp
  note r = m2id_free [OF mk]
  have un: "unat n = 8 * k + unat (m2id ! unat (m ! k))"
    unfolding n by (rule of_nat_bit) (use k29 r in auto)
  have free: "unat n \<notin> ids m" using r by (simp add: ids_def un)
  have "ids (pl_imap pl') = insert (unat n) (ids m)"
    unfolding un pl' using ids_set_bit [OF k, of "unat (m2id ! unat (m ! k))"] r by simp
  then show ?thesis using free ids lm k r un by (simp add: pl')
qed

lemma getId_none:
  assumes "pool_ok pl" "getId pl = (None, pl')"
  shows "ids (pl_imap pl') = ids (pl_imap pl) \<and> ids (pl_imap pl) = {..<8 * (unat (pl_maxid pl) div 8 + 1)}
    \<and> pl_need pl' = pl_need pl + 1 \<and> pl_maxid pl' = pl_maxid pl
    \<and> length (pl_imap pl') = unat (pl_maxid pl) div 8 + 1"
proof -
  have f: "first_free (pl_imap pl) = length (pl_imap pl)"
    and g: "length (grow pl) \<le> length (pl_imap pl)"
    and pl': "pl' = pl\<lparr>pl_need := pl_need pl + 1, pl_imap := grow pl\<rparr>"
    using assms(2) first_free_spec [of "pl_imap pl"]
    by (auto simp: getId_def Let_def split: if_splits)
  then show ?thesis
    using grow_ids(1) [OF assms(1)] ids_full [OF f] grow_length [OF assms(1)] assms(1)
    by (auto simp: pool_ok_def min_def split: if_splits)
qed

lemma putId_some:
  assumes "unat n \<in> ids (pl_imap pl)" "n \<noteq> NOFID"
  shows "putId n pl = (if pl_need pl > 0 then Some (Some n, pl\<lparr>pl_need := pl_need pl - 1\<rparr>)
    else Some (None, snd (the (putId n pl))))
    \<and> (pl_need pl = 0 \<longrightarrow> ids (pl_imap (snd (the (putId n pl)))) = ids (pl_imap pl) - {unat n}
        \<and> pl_need (snd (the (putId n pl))) = 0 \<and> pl_maxid (snd (the (putId n pl))) = pl_maxid pl
        \<and> length (pl_imap (snd (the (putId n pl)))) = length (pl_imap pl))"
proof -
  have d: "unat (n div 8) = unat n div 8" "unat (n mod 8) = unat n mod 8"
    by (simp_all add: unat_div unat_mod)
  have l: "unat n div 8 < length (pl_imap pl)"
    using assms(1) by (auto simp: ids_def less_mult_imp_div_less mult.commute)
  show ?thesis
    using assms(2) l ids_clear_bit [OF l, of "unat n mod 8"] by (simp add: putId_def d Let_def)
qed

subsection \<open>The ids held by the callers\<close>

text \<open>
  A history of one pool: a caller takes an id, waits for one, or gives back an id it holds; then the
  id goes to a waiting caller, or becomes free.  The list is the ids held.
\<close>

inductive held :: "u32 \<Rightarrow> pool \<Rightarrow> u32 list \<Rightarrow> bool" for maxid where
  held_new: "held maxid (newPool maxid) []"
| held_get: "held maxid pl ns \<Longrightarrow> getId pl = (Some n, pl') \<Longrightarrow> held maxid pl' (n # ns)"
| held_wait: "held maxid pl ns \<Longrightarrow> getId pl = (None, pl') \<Longrightarrow> held maxid pl' ns"
| held_put: "held maxid pl ns \<Longrightarrow> n \<in> set ns \<Longrightarrow> putId n pl = Some (None, pl') \<Longrightarrow> held maxid pl' (remove1 n ns)"
| held_hand: "held maxid pl ns \<Longrightarrow> n \<in> set ns \<Longrightarrow> putId n pl = Some (Some n', pl') \<Longrightarrow> held maxid pl' (n' # remove1 n ns)"

definition all_held :: "u32 \<Rightarrow> u32 list \<Rightarrow> bool" where
  "all_held maxid ns \<longleftrightarrow> unat ` set ns = {..<8 * (unat maxid div 8 + 1)}"

definition held_inv :: "u32 \<Rightarrow> pool \<Rightarrow> u32 list \<Rightarrow> bool" where
  "held_inv maxid pl ns \<longleftrightarrow> pl_maxid pl = maxid \<and> length (pl_imap pl) \<le> unat maxid div 8 + 1
     \<and> distinct ns \<and> unat ` set ns = ids (pl_imap pl) \<and> (pl_need pl > 0 \<longrightarrow> all_held maxid ns)"

lemma unat_image_remove: "unat ` (set ns - {n}) = unat ` set ns - {unat n}"
  by (auto simp: word_unat_eq_iff)

lemma held_hand_inv:
  assumes "held_inv maxid pl ns" "n \<in> set ns" "putId n pl = Some (Some n', pl')" "unat maxid < 2 ^ 32 - 300"
  shows "held_inv maxid pl' (n' # remove1 n ns)"
proof -
  have "n' = n \<and> pl' = pl\<lparr>pl_need := pl_need pl - 1\<rparr> \<and> pl_need pl > 0"
    using assms(3) by (auto simp: putId_def Let_def split: if_splits)
  moreover have "set (n # remove1 n ns) = set ns"
    using assms(1,2) by (auto simp: held_inv_def)
  ultimately show ?thesis
    using assms(1) by (simp add: held_inv_def all_held_def del: image_insert list.set(2) set_remove1_eq) auto
qed

lemma held_inv_ids:
  assumes "held_inv maxid pl ns" "n \<in> set ns" "unat maxid < 2 ^ 32 - 300"
  shows "unat n \<in> ids (pl_imap pl)" "n \<noteq> NOFID"
proof -
  show m: "unat n \<in> ids (pl_imap pl)" using assms(1,2) by (auto simp: held_inv_def)
  then have "unat n < 8 * (unat maxid div 8 + 1)" using assms(1) by (auto simp: held_inv_def ids_def)
  then have "unat n < 4294967295" using assms(3) by simp
  then show "n \<noteq> NOFID" by (auto simp: NOFID_def)
qed

lemma held_put_inv:
  assumes "held_inv maxid pl ns" "n \<in> set ns" "putId n pl = Some (None, pl')" "unat maxid < 2 ^ 32 - 300"
  shows "held_inv maxid pl' (remove1 n ns)"
proof -
  note n = held_inv_ids [OF assms(1,2,4)]
  have "pl_need pl = 0" using putId_some [OF n] assms(3) by (auto split: if_splits)
  then show ?thesis
    using putId_some [OF n] assms unat_image_remove [of ns n] by (simp add: held_inv_def)
qed

lemma held_inv:
  assumes "held maxid pl ns" "unat maxid < 2 ^ 32 - 300"
  shows "held_inv maxid pl ns"
  using assms(1)
proof (induction rule: held.induct)
  case held_new
  then show ?case by (simp add: held_inv_def newPool_def ids_def)
next
  case (held_get pl ns n pl')
  then have ok: "pool_ok pl" using assms(2) by (simp add: held_inv_def pool_ok_def)
  have "\<not> all_held maxid ns"
    using getId_some [OF ok held_get(2)] held_get(3) by (auto simp: held_inv_def all_held_def)
  then show ?case using getId_some [OF ok held_get(2)] held_get(3) by (auto simp: held_inv_def)
next
  case (held_wait pl ns pl')
  then have ok: "pool_ok pl" using assms(2) by (simp add: held_inv_def pool_ok_def)
  show ?case using getId_none [OF ok held_wait(2)] held_wait(3) by (auto simp: held_inv_def all_held_def)
next
  case held_put then show ?case using held_put_inv assms(2) by blast
next
  case held_hand then show ?case using held_hand_inv assms(2) by blast
qed



text \<open>
  The tag pool is made with the maximum \<open>NOTAG\<close> and gives out \<open>NOTAG\<close> itself when it is the last id left,
  as a pool with the maximum \<open>NOFID\<close> would.
\<close>

lemma tag_pool_hands_NOTAG:
  "fst (getId \<lparr>pl_need = 0, pl_maxid = ucast NOTAG, pl_imap = replicate 8191 0xFF @ [0x7F]\<rparr>) = Some (ucast NOTAG)"
proof -
  have "first_free (replicate k 0xFF @ [0x7F]) = k" for k by (induction k) simp_all
  then show ?thesis by (simp add: getId_def Let_def nth_append NOTAG_def m2id_def)
qed

end
