(* ===== verification/Chan_Clnt.thy ===== *)
theory Chan_Clnt
  imports Go_Heap Chan_Pool P9_Pack P9_Unpack
begin

section \<open>The client of one connection (p/chan9/clnt.go)\<close>

text \<open>
  Many callers share a connection: \<open>Rpc\<close> takes a request with a tag of its own, \<open>Rpcnb\<close> links it
  into the list of pending requests and passes it to \<open>send\<close>; \<open>recv\<close> looks for the pending
  request of a response by its tag, unlinks it and wakes its caller, who frees it.  \<open>rm\<close> ends the
  connection and wakes all of them with an error.

  The requests are a heap (\<open>cl_heap\<close>, with \<open>cl_new\<close> the first unused address) and the list is linked in
  both directions.  \<open>cl_out\<close> is what went into \<open>reqout\<close>, \<open>cl_answered\<close> what was sent on the \<open>Done\<close>
  channels.  \<open>cl_locked\<close> says that the mutex is held by a goroutine that waits for it itself, and
  \<open>cl_done\<close> that \<open>send\<close> has ended, so that the next \<open>clnt.done <- true\<close> blocks.
\<close>

subsection \<open>State\<close>

record creq =
  q_Tc :: "Fcall option"
  q_Rc :: "Fcall option"
  q_Err :: "perror option"
  q_Done :: bool
  q_tag :: u16
  q_prev :: "nat option"
  q_next :: "nat option"

record ClntList =
  cs_c :: "u32 set"
  cs_nextdev :: u32

record clnt =
  cl_Msize :: u32
  cl_Dotu :: bool
  cl_Dev :: u32
  cl_Type :: u16
  cl_Id :: string
  cl_tagpool :: pool
  cl_reqfirst :: "nat option"
  cl_reqlast :: "nat option"
  cl_err :: "perror option"
  cl_reqchan :: "nat list"
  cl_tchan :: "Fcall list"
  cl_ref :: int
  cl_heap :: "nat \<Rightarrow> creq"
  cl_new :: nat
  cl_out :: "nat list"
  cl_answered :: "nat list"
  cl_closed :: bool
  cl_done :: bool
  cl_locked :: bool
  cl_clnts :: ClntList

definition zero_creq :: creq where
  "zero_creq = \<lparr>q_Tc = None, q_Rc = None, q_Err = None, q_Done = False, q_tag = 0, q_prev = None, q_next = None\<rparr>"

definition set_q :: "nat \<Rightarrow> (creq \<Rightarrow> creq) \<Rightarrow> clnt \<Rightarrow> clnt" where
  "set_q r f c = c\<lparr>cl_heap := (cl_heap c)(r := f (cl_heap c r))\<rparr>"

lemma set_q_simps [simp]:
  "cl_heap (set_q r f c) = (cl_heap c)(r := f (cl_heap c r))"
  "cl_Msize (set_q r f c) = cl_Msize c" "cl_Dotu (set_q r f c) = cl_Dotu c" "cl_tagpool (set_q r f c) = cl_tagpool c"
  "cl_reqfirst (set_q r f c) = cl_reqfirst c" "cl_reqlast (set_q r f c) = cl_reqlast c"
  "cl_err (set_q r f c) = cl_err c" "cl_reqchan (set_q r f c) = cl_reqchan c" "cl_tchan (set_q r f c) = cl_tchan c"
  "cl_ref (set_q r f c) = cl_ref c" "cl_new (set_q r f c) = cl_new c" "cl_out (set_q r f c) = cl_out c"
  "cl_answered (set_q r f c) = cl_answered c" "cl_closed (set_q r f c) = cl_closed c"
  "cl_done (set_q r f c) = cl_done c" "cl_locked (set_q r f c) = cl_locked c" "cl_clnts (set_q r f c) = cl_clnts c"
  "cl_Dev (set_q r f c) = cl_Dev c"
  by (simp_all add: set_q_def)

text \<open>The clients in the list are named by their device numbers.  A new client is entered into the list of all clients; its goroutines are the operations below.\<close>

definition NewClnt :: "ClntList \<Rightarrow> u32 \<Rightarrow> bool \<Rightarrow> clnt" where
  "NewClnt l msize dotu = (let dev = cs_nextdev l in
     \<lparr>cl_Msize = msize, cl_Dotu = dotu, cl_Dev = dev, cl_Type = 0, cl_Id = [], cl_tagpool = newPool (ucast NOTAG),
      cl_reqfirst = None, cl_reqlast = None, cl_err = None, cl_reqchan = [], cl_tchan = [], cl_ref = 1,
      cl_heap = (\<lambda>_. zero_creq), cl_new = 0, cl_out = [], cl_answered = [], cl_closed = False, cl_done = False,
      cl_locked = False, cl_clnts = \<lparr>cs_c = insert dev (cs_c l), cs_nextdev = dev + 1\<rparr>\<rparr>)"

subsection \<open>Fcalls and requests are used again\<close>

definition clnt_NewFcall :: "clnt \<Rightarrow> Fcall \<times> clnt" where
  "clnt_NewFcall c = (case cl_tchan c of
     tc # rest \<Rightarrow> (tc, c\<lparr>cl_tchan := rest\<rparr>)
   | [] \<Rightarrow> (NewFcall (cl_Msize c), c))"

definition FreeFcall :: "Fcall option \<Rightarrow> clnt \<Rightarrow> clnt" where
  "FreeFcall fc c = (case fc of
     Some fc \<Rightarrow> if length (fc_Buf fc) \<ge> unat (cl_Msize c) \<and> length (cl_tchan c) < 16
                then c\<lparr>cl_tchan := cl_tchan c @ [fc]\<rparr> else c
   | None \<Rightarrow> c)"

text \<open>\<open>None\<close> instead of a request: the caller waits for a tag.\<close>

definition ReqAlloc :: "clnt \<Rightarrow> nat option \<times> clnt" where
  "ReqAlloc c = (case cl_reqchan c of
     r # rest \<Rightarrow> (Some r, c\<lparr>cl_reqchan := rest\<rparr>)
   | [] \<Rightarrow> (case getId (cl_tagpool c) of
       (None, pl) \<Rightarrow> (None, c\<lparr>cl_tagpool := pl\<rparr>)
     | (Some n, pl) \<Rightarrow> (let r = cl_new c in
         (Some r, c\<lparr>cl_tagpool := pl, cl_new := Suc r,
                    cl_heap := (cl_heap c)(r := zero_creq\<lparr>q_tag := ucast n\<rparr>)\<rparr>))))"

definition ReqFree :: "nat \<Rightarrow> clnt \<Rightarrow> clnt option" where
  "ReqFree r c = (let c = FreeFcall (q_Tc (cl_heap c r)) c;
       c = set_q r (\<lambda>q. q\<lparr>q_Tc := None, q_Rc := None, q_Err := None, q_Done := False, q_next := None, q_prev := None\<rparr>) c
     in if length (cl_reqchan c) < 16 then Some (c\<lparr>cl_reqchan := cl_reqchan c @ [r]\<rparr>)
        else map_option (\<lambda>(_, pl). c\<lparr>cl_tagpool := pl\<rparr>) (putId (ucast (q_tag (cl_heap c r))) (cl_tagpool c)))"

subsection \<open>Sending a request\<close>

definition Rpcnb :: "nat \<Rightarrow> clnt \<Rightarrow> (perror option \<times> clnt) option" where
  "Rpcnb r c = do {
     tc \<leftarrow> q_Tc (cl_heap c r);
     let tag = (if fc_Type tc = Tversion then NOTAG else q_tag (cl_heap c r));
     tc \<leftarrow> SetTag tc tag;
     let c = set_q r (\<lambda>q. q\<lparr>q_Tc := Some tc\<rparr>) c;
     if cl_err c \<noteq> None then Some (cl_err c, c)
     else do {
       let c = (case cl_reqlast c of
           Some l \<Rightarrow> set_q l (\<lambda>q. q\<lparr>q_next := Some r\<rparr>) c
         | None \<Rightarrow> c\<lparr>cl_reqfirst := Some r\<rparr>);
       let c = set_q r (\<lambda>q. q\<lparr>q_prev := cl_reqlast c\<rparr>) c;
       Some (None, c\<lparr>cl_reqlast := Some r, cl_out := cl_out c @ [r]\<rparr>) } }"

text \<open>\<open>Rpc\<close> up to the wait for the response, and from there on.  \<open>Inl\<close> is the error it returns at once.\<close>

definition Rpc_call :: "Fcall \<Rightarrow> clnt \<Rightarrow> (perror + nat option) option \<times> clnt" where
  "Rpc_call tc c = (case ReqAlloc c of
     (None, c) \<Rightarrow> (Some (Inr None), c)
   | (Some r, c) \<Rightarrow> (let c = set_q r (\<lambda>q. q\<lparr>q_Tc := Some tc, q_Done := True\<rparr>) c in
       case Rpcnb r c of
         None \<Rightarrow> (None, c)
       | Some (Some e, c) \<Rightarrow> (Some (Inl e), c)
       | Some (None, c) \<Rightarrow> (Some (Inr (Some r)), c)))"

definition Rpc_end :: "nat \<Rightarrow> clnt \<Rightarrow> ((Fcall option \<times> perror option) \<times> clnt) option" where
  "Rpc_end r c = map_option (Pair (q_Rc (cl_heap c r), q_Err (cl_heap c r))) (ReqFree r c)"

text \<open>
  \<open>send\<close> writes a packet: the results of the calls of \<open>Write\<close> are given, and the result is what they
  wrote and whether the connection was closed.
\<close>

fun send_pkt :: "(string + nat) list \<Rightarrow> bytes \<Rightarrow> (bytes \<times> bool) option" where
  "send_pkt ws [] = Some ([], False)"
| "send_pkt [] (b # bs) = None"
| "send_pkt (Inl e # ws) (b # bs) = Some ([], True)"
| "send_pkt (Inr n # ws) (b # bs) = do {
     rest \<leftarrow> go_slice (b # bs) n (length (b # bs));
     (out, closed) \<leftarrow> send_pkt ws rest;
     Some (take n (b # bs) @ out, closed) }"

subsection \<open>Ending the connection\<close>

text \<open>
  The loop over the requests that were pending.  A caller that is woken runs the rest of \<open>Rpc\<close>; \<open>quick r\<close>
  says that it frees its request before the loop goes on to \<open>r.next\<close>.
\<close>

fun fail_pending :: "nat \<Rightarrow> (nat \<Rightarrow> bool) \<Rightarrow> perror \<Rightarrow> nat option \<Rightarrow> clnt \<Rightarrow> clnt option" where
  "fail_pending n quick e None c = Some c"
| "fail_pending 0 quick e (Some r) c = None"
| "fail_pending (Suc n) quick e (Some r) c = do {
     let c = set_q r (\<lambda>q. q\<lparr>q_Err := Some e\<rparr>) c;
     c \<leftarrow> (if q_Done (cl_heap c r) then
           (let c = c\<lparr>cl_answered := cl_answered c @ [r]\<rparr> in if quick r then ReqFree r c else Some c)
         else Some c);
     fail_pending n quick e (q_next (cl_heap c r)) c }"

text \<open>\<open>None\<close>: it never returns.\<close>

definition rm :: "(nat \<Rightarrow> bool) \<Rightarrow> perror \<Rightarrow> clnt \<Rightarrow> clnt option" where
  "rm quick e c = (if cl_locked c then None
     else if cl_done c then None
     else do {
       let r = cl_reqfirst c;
       c \<leftarrow> fail_pending (cl_new c) quick e r
             (c\<lparr>cl_closed := True, cl_err := Some e, cl_done := True, cl_reqfirst := None, cl_reqlast := None\<rparr>);
       Some (c\<lparr>cl_clnts := (cl_clnts c)\<lparr>cs_c := cs_c (cl_clnts c) - {cl_Dev c}\<rparr>\<rparr>) })"

definition incref :: "clnt \<Rightarrow> int \<times> clnt" where
  "incref c = (cl_ref c + 1, c\<lparr>cl_ref := cl_ref c + 1\<rparr>)"

definition decref :: "clnt \<Rightarrow> int \<times> clnt" where
  "decref c = (cl_ref c - 1, c\<lparr>cl_ref := cl_ref c - 1\<rparr>)"

definition edecref :: "(nat \<Rightarrow> bool) \<Rightarrow> perror \<Rightarrow> clnt \<Rightarrow> (int \<times> clnt) option" where
  "edecref quick e c = (case decref c of (ref, c) \<Rightarrow>
     if ref = 0 then map_option (Pair ref) (rm quick e c) else Some (ref, c))"

definition Clunk_clnt :: "(nat \<Rightarrow> bool) \<Rightarrow> perror \<Rightarrow> clnt \<Rightarrow> clnt option" where
  "Clunk_clnt quick e c = map_option snd (edecref quick e c)"

subsection \<open>Receiving a response\<close>

text \<open>The pending request with a tag; the outer \<open>None\<close> is a nil pointer (or the end of the fuel).\<close>

fun find_req :: "nat \<Rightarrow> (nat \<Rightarrow> creq) \<Rightarrow> u16 \<Rightarrow> nat option \<Rightarrow> nat option option" where
  "find_req n h tag None = Some None"
| "find_req 0 h tag (Some r) = None"
| "find_req (Suc n) h tag (Some r) = (case q_Tc (h r) of
     None \<Rightarrow> None
   | Some tc \<Rightarrow> if fc_Tag tc = tag then Some (Some r) else find_req n h tag (q_next (h r)))"

definition unlink :: "nat \<Rightarrow> clnt \<Rightarrow> clnt" where
  "unlink r c = (let q = cl_heap c r;
       c = (case q_prev q of
           Some p \<Rightarrow> set_q p (\<lambda>x. x\<lparr>q_next := q_next q\<rparr>) c
         | None \<Rightarrow> c\<lparr>cl_reqfirst := q_next q\<rparr>)
     in case q_next q of
         Some n \<Rightarrow> set_q n (\<lambda>x. x\<lparr>q_prev := q_prev q\<rparr>) c
       | None \<Rightarrow> c\<lparr>cl_reqlast := q_prev q\<rparr>)"

definition reply_err :: "u8 \<Rightarrow> Fcall \<Rightarrow> perror option \<Rightarrow> perror option" where
  "reply_err ty rc err = (if ty \<noteq> fc_Type rc - 1 then
       if fc_Type rc \<noteq> Rerror then Some (Error ''invalid response'' EINVAL)
       else if err = None then Some (Error (fc_Error rc) (fc_Errornum rc)) else err
     else err)"

datatype clnt_recv = RAgain bytes nat | RStopped | RDeadlock

text \<open>
  One response.  When no request has its tag, \<open>rm\<close> is called while the mutex is held, which \<open>rm\<close> locks
  again.
\<close>

definition recv_msg :: "Fcall \<Rightarrow> clnt \<Rightarrow> (nat option \<times> clnt) option" where
  "recv_msg fc c = do {
     r \<leftarrow> find_req (cl_new c) (cl_heap c) (fc_Tag fc) (cl_reqfirst c);
     (case r of
        None \<Rightarrow> Some (None, c\<lparr>cl_locked := True\<rparr>)
      | Some r \<Rightarrow> do {
          let c = unlink r (set_q r (\<lambda>q. q\<lparr>q_Rc := Some fc\<rparr>) c);
          tc \<leftarrow> q_Tc (cl_heap c r);
          let c = set_q r (\<lambda>q. q\<lparr>q_Err := reply_err (fc_Type tc) fc (q_Err q)\<rparr>) c;
          Some (Some r, if q_Done (cl_heap c r) then c\<lparr>cl_answered := cl_answered c @ [r]\<rparr> else c) }) }"

definition clnt_regrow :: "u32 \<Rightarrow> bytes \<Rightarrow> nat \<Rightarrow> bytes" where
  "clnt_regrow msize buf pos = go_copy (replicate (unat (msize * 8)) 0) (take pos buf)"

text \<open>The responses in the buffer.\<close>

function clnt_recv_loop :: "bytes \<Rightarrow> nat \<Rightarrow> clnt \<Rightarrow> (clnt_recv \<times> clnt) option" where
  "clnt_recv_loop buf pos c = (if pos \<le> 4 then Some (RAgain buf pos, c)
     else do {
       (sz, _) \<leftarrow> Gint32 buf;
       if pos < unat sz then
         Some (RAgain (if length buf < unat sz then clnt_regrow (cl_Msize c) buf pos else buf) pos, c)
       else do {
         u \<leftarrow> Unpack buf (cl_Dotu c);
         (case u of
            Inl e \<Rightarrow> Some (RDeadlock, c\<lparr>cl_locked := True\<rparr>)
          | Inr (fc, fcsize) \<Rightarrow> do {
              (r, c) \<leftarrow> recv_msg fc c;
              (if r = None then Some (RDeadlock, c)
               else if fcsize = 0 then None
               else clnt_recv_loop (drop fcsize buf) (pos - fcsize) c) }) } })"
  by pat_completeness auto
termination by (relation "measure (\<lambda>(buf, pos, c). pos)") auto

declare clnt_recv_loop.simps [simp del]

text \<open>
  One round: \<open>Read\<close> returns an error or a chunk that fits behind \<open>pos\<close>.  An empty chunk without an
  error makes the code call a method of the nil error.
\<close>

definition clnt_recv_read :: "(nat \<Rightarrow> bool) \<Rightarrow> string + bytes \<Rightarrow> bytes \<Rightarrow> nat \<Rightarrow> clnt \<Rightarrow> (clnt_recv \<times> clnt) option" where
  "clnt_recv_read quick chunk buf pos c = (
     let buf = (if length buf < unat (cl_Msize c) then clnt_regrow (cl_Msize c) buf pos else buf)
     in case chunk of
          Inl oerr \<Rightarrow> (case rm quick (Error oerr EIO) c of
              Some c \<Rightarrow> Some (RStopped, c) | None \<Rightarrow> Some (RDeadlock, c))
        | Inr bs \<Rightarrow> (if bs = [] \<or> length buf < pos + length bs then None
            else clnt_recv_loop (take pos buf @ bs @ drop (pos + length bs) buf) (pos + length bs) c))"

end
