(* ===== verification/Chan_Rpc.thy ===== *)
theory Chan_Rpc
  imports Chan_Clnt "HOL-Library.Multiset"
begin

section \<open>Responses find their callers (p/chan9/clnt.go)\<close>

text \<open>
  The list of pending requests is refined to a list of addresses, and the tags of the requests in use
  are distinct; so a response is given to the caller that asked for it.
\<close>

subsection \<open>The list of pending requests\<close>

definition pend :: "clnt \<Rightarrow> nat list \<Rightarrow> bool" where
  "pend c ps \<longleftrightarrow> path (\<lambda>r. q_next (cl_heap c r)) (cl_reqfirst c) ps
     \<and> path (\<lambda>r. q_prev (cl_heap c r)) (cl_reqlast c) (rev ps)"

lemma pend_distinct: "pend c ps \<Longrightarrow> distinct ps"
  by (auto simp: pend_def dest: path_distinct)

text \<open>Only the list matters, and of the requests only the pointers.\<close>

lemma pend_cong:
  "pend c ps \<Longrightarrow> cl_reqfirst c' = cl_reqfirst c \<Longrightarrow> cl_reqlast c' = cl_reqlast c \<Longrightarrow>
   (\<And>r. r \<in> set ps \<Longrightarrow> q_next (cl_heap c' r) = q_next (cl_heap c r) \<and> q_prev (cl_heap c' r) = q_prev (cl_heap c r)) \<Longrightarrow>
   pend c' ps"
  unfolding pend_def
  by (metis (no_types, lifting) path_cong set_rev)

lemma pend_ends: "pend c [] \<longleftrightarrow> cl_reqfirst c = None \<and> cl_reqlast c = None"
  "pend c (ps @ [l]) \<Longrightarrow> cl_reqlast c = Some l \<and> q_next (cl_heap c l) = None"
  by (auto simp: pend_def dest: path_last)

text \<open>\<open>Rpcnb\<close> appends.\<close>

definition append_req :: "nat \<Rightarrow> clnt \<Rightarrow> clnt" where
  "append_req r c = (let c = (case cl_reqlast c of
           Some l \<Rightarrow> set_q l (\<lambda>q. q\<lparr>q_next := Some r\<rparr>) c
         | None \<Rightarrow> c\<lparr>cl_reqfirst := Some r\<rparr>);
       c = set_q r (\<lambda>q. q\<lparr>q_prev := cl_reqlast c\<rparr>) c
     in c\<lparr>cl_reqlast := Some r, cl_out := cl_out c @ [r]\<rparr>)"

lemma append_req_pend:
  assumes "pend c ps" "r \<notin> set ps" "q_next (cl_heap c r) = None"
  shows "pend (append_req r c) (ps @ [r])"
proof (cases ps rule: rev_cases)
  case Nil
  then show ?thesis using assms by (simp add: pend_def append_req_def Let_def)
next
  case (snoc qs l)
  have l: "cl_reqlast c = Some l" "l \<noteq> r" using assms(1,2) pend_ends(2) snoc by auto
  have "path ((\<lambda>x. q_next (cl_heap c x))(l := Some r, r := None)) (cl_reqfirst c) (qs @ [l, r])"
    using assms(1,2) snoc by (intro path_snoc) (auto simp: pend_def)
  moreover have "(\<lambda>x. q_next (cl_heap (append_req r c) x)) = (\<lambda>x. q_next (cl_heap c x))(l := Some r, r := None)"
    using l assms(3) by (auto simp: append_req_def Let_def)
  moreover have "path (\<lambda>x. q_prev (cl_heap (append_req r c) x)) (Some l) (rev ps)"
  proof -
    have "path (\<lambda>x. q_prev (cl_heap c x)) (Some l) (rev ps)" using assms(1) l by (simp add: pend_def)
    moreover have "q_prev (cl_heap (append_req r c) x) = q_prev (cl_heap c x)" if "x \<in> set (rev ps)" for x
      using that assms(2) l by (auto simp: append_req_def Let_def)
    ultimately show ?thesis by (metis (no_types, lifting) path_cong)
  qed
  moreover have "cl_reqfirst (append_req r c) = cl_reqfirst c" "cl_reqlast (append_req r c) = Some r"
    "q_prev (cl_heap (append_req r c) r) = Some l"
    using l by (simp_all add: append_req_def Let_def)
  ultimately show ?thesis using snoc by (simp add: pend_def)
qed

text \<open>\<open>recv\<close> unlinks.\<close>

lemma path_prev_elem: "path f p (xs @ a # ys) \<Longrightarrow> f a = (if ys = [] then None else Some (hd ys))"
  by (induction xs arbitrary: p) (auto, cases ys, auto)

lemma unlink_pend:
  assumes "pend c (xs @ r # ys)"
  shows "pend (unlink r c) (xs @ ys)"
proof -
  have n: "q_next (cl_heap c r) = (if ys = [] then None else Some (hd ys))"
    using assms path_prev_elem [of "\<lambda>x. q_next (cl_heap c x)"] by (auto simp: pend_def)
  have p: "q_prev (cl_heap c r) = (if xs = [] then None else Some (last xs))"
    using assms path_prev_elem [of "\<lambda>x. q_prev (cl_heap c x)" _ "rev ys" r "rev xs"]
    by (auto simp: pend_def hd_rev)
  have d: "distinct (xs @ r # ys)" using assms by (rule pend_distinct)
  have 1: "path (\<lambda>x. q_next (cl_heap (unlink r c) x)) (cl_reqfirst (unlink r c)) (xs @ ys)"
  proof (rule path_remove [where f = "\<lambda>x. q_next (cl_heap c x)" and a = r])
    show "path (\<lambda>x. q_next (cl_heap c x)) (cl_reqfirst c) (xs @ r # ys)"
      using assms by (simp add: pend_def)
    show "cl_reqfirst (unlink r c) = (if xs = [] then q_next (cl_heap c r) else cl_reqfirst c)"
      using p by (simp add: unlink_def Let_def split: option.split)
    show "q_next (cl_heap (unlink r c) x) = (if xs \<noteq> [] \<and> x = last xs then q_next (cl_heap c r) else q_next (cl_heap c x))"
      if "x \<in> set (xs @ ys)" for x
      using p by (auto simp: unlink_def Let_def split: option.split)
  qed
  have 2: "path (\<lambda>x. q_prev (cl_heap (unlink r c) x)) (cl_reqlast (unlink r c)) (rev ys @ rev xs)"
  proof (rule path_remove [where f = "\<lambda>x. q_prev (cl_heap c x)" and a = r])
    show "path (\<lambda>x. q_prev (cl_heap c x)) (cl_reqlast c) (rev ys @ r # rev xs)"
      using assms by (simp add: pend_def)
    show "cl_reqlast (unlink r c) = (if rev ys = [] then q_prev (cl_heap c r) else cl_reqlast c)"
      using n by (simp add: unlink_def Let_def split: option.split)
    show "q_prev (cl_heap (unlink r c) x) = (if rev ys \<noteq> [] \<and> x = last (rev ys) then q_prev (cl_heap c r) else q_prev (cl_heap c x))"
      if "x \<in> set (rev ys @ rev xs)" for x
      using n by (auto simp: unlink_def Let_def last_rev split: option.split)
  qed
  show ?thesis using 1 2 by (simp add: pend_def)
qed

lemma unlink_same:
  "q_Tc (cl_heap (unlink r c) x) = q_Tc (cl_heap c x)" "q_Rc (cl_heap (unlink r c) x) = q_Rc (cl_heap c x)"
  "q_Err (cl_heap (unlink r c) x) = q_Err (cl_heap c x)" "q_Done (cl_heap (unlink r c) x) = q_Done (cl_heap c x)"
  "q_tag (cl_heap (unlink r c) x) = q_tag (cl_heap c x)" "cl_tagpool (unlink r c) = cl_tagpool c"
  "cl_reqchan (unlink r c) = cl_reqchan c" "cl_new (unlink r c) = cl_new c" "cl_answered (unlink r c) = cl_answered c"
  "cl_err (unlink r c) = cl_err c" "cl_locked (unlink r c) = cl_locked c" "cl_done (unlink r c) = cl_done c"
  by (simp_all add: unlink_def Let_def split: option.split)

lemma unlink_other:
  assumes "x \<notin> set (xs @ r # ys)" "pend c (xs @ r # ys)"
  shows "cl_heap (unlink r c) x = cl_heap c x"
proof -
  have n: "q_next (cl_heap c r) = (if ys = [] then None else Some (hd ys))"
    using assms(2) path_prev_elem [of "\<lambda>x. q_next (cl_heap c x)"] by (auto simp: pend_def)
  have p: "q_prev (cl_heap c r) = (if xs = [] then None else Some (last xs))"
    using assms(2) path_prev_elem [of "\<lambda>x. q_prev (cl_heap c x)" _ "rev ys" r "rev xs"] by (auto simp: pend_def hd_rev)
  have 1: "x \<noteq> hd ys" if "ys \<noteq> []" using that assms(1) by (cases ys) auto
  have 2: "x \<noteq> last xs" if "xs \<noteq> []" using that assms(1) last_in_set by fastforce
  show ?thesis
    by (cases "xs = []"; cases "ys = []") (use 1 2 in \<open>simp_all add: unlink_def Let_def n p\<close>)
qed

subsection \<open>The search by tag\<close>

definition tag_of :: "(nat \<Rightarrow> creq) \<Rightarrow> nat \<Rightarrow> u16" where
  "tag_of h r = (case q_Tc (h r) of Some tc \<Rightarrow> fc_Tag tc | None \<Rightarrow> 0)"

lemma find_req_find:
  assumes "path (\<lambda>r. q_next (h r)) p ps" "\<forall>r \<in> set ps. q_Tc (h r) \<noteq> None" "length ps \<le> n"
  shows "find_req n h tag p = Some (List.find (\<lambda>r. tag_of h r = tag) ps)"
  using assms
proof (induction ps arbitrary: n p)
  case Nil
  then show ?case by simp
next
  case (Cons r ps)
  obtain m where m: "n = Suc m" "length ps \<le> m" using Cons.prems(3) by (cases n) auto
  obtain tc where tc: "q_Tc (h r) = Some tc" using Cons.prems(2) by auto
  have "find_req m h tag (q_next (h r)) = Some (List.find (\<lambda>r. tag_of h r = tag) ps)"
    using Cons m by auto
  then show ?case using Cons.prems(1) m tc by (simp add: tag_of_def)
qed

subsection \<open>Tags\<close>

text \<open>
  The requests in use, pending, answered or free again, have tags of their own, and these are the ids
  taken out of the pool.
\<close>

definition tags_ok :: "clnt \<Rightarrow> nat list \<Rightarrow> bool" where
  "tags_ok c us \<longleftrightarrow> distinct us \<and> (\<forall>r \<in> set us. r < cl_new c) \<and> inj_on (\<lambda>r. q_tag (cl_heap c r)) (set us)
     \<and> pl_need (cl_tagpool c) = 0
     \<and> (\<exists>ns. held 0xFFFF (cl_tagpool c) ns \<and> set ns = (\<lambda>r. ucast (q_tag (cl_heap c r))) ` set us)"

lemma tags_ok_cong:
  assumes "tags_ok c us" "mset us' = mset us" "cl_tagpool c' = cl_tagpool c" "cl_new c' = cl_new c"
    and "\<And>r. r \<in> set us \<Longrightarrow> q_tag (cl_heap c' r) = q_tag (cl_heap c r)"
  shows "tags_ok c' us'"
proof -
  have s: "set us' = set us" "distinct us' = distinct us"
    using assms(2) mset_eq_setD mset_eq_imp_distinct_iff by blast+
  moreover have "inj_on (\<lambda>r. q_tag (cl_heap c' r)) (set us) = inj_on (\<lambda>r. q_tag (cl_heap c r)) (set us)"
    using assms(5) by (rule inj_on_cong)
  moreover have "(\<lambda>r. ucast (q_tag (cl_heap c' r)) :: u32) ` set us = (\<lambda>r. ucast (q_tag (cl_heap c r))) ` set us"
    using assms(5) by simp
  ultimately show ?thesis using assms(1,3,4) unfolding tags_ok_def by simp
qed

lemma unat_tag: "unat (ucast a :: u32) = unat a" for a :: u16
proof -
  have "unat a < 65536" using unsigned_less [of a, where ?'a = nat] by simp
  then show ?thesis by (simp add: unsigned_ucast_eq take_bit_nat_eq_self)
qed

lemma ucast_tag: "(ucast a :: u32) = ucast b \<longleftrightarrow> a = b" for a :: u16
  by (simp add: word_unat_eq_iff unat_tag)

lemma ucast_id: "unat n < 65536 \<Longrightarrow> (ucast (ucast n :: u16) :: u32) = n" for n :: u32
proof -
  assume "unat n < 65536"
  then have "unat (ucast n :: u16) = unat n" by (simp add: unsigned_ucast_eq take_bit_nat_eq_self)
  then show ?thesis by (simp add: word_unat_eq_iff unat_tag)
qed

lemma ReqAlloc_ok:
  assumes "tags_ok c (us @ cl_reqchan c)" "ReqAlloc c = (Some r, c')"
  shows "tags_ok c' (r # us @ cl_reqchan c')"
    and "r \<notin> set us" "\<And>x. x \<noteq> r \<Longrightarrow> cl_heap c' x = cl_heap c x"
    and "r \<in> set (cl_reqchan c) \<and> cl_heap c' r = cl_heap c r
      \<or> r = cl_new c \<and> (\<exists>tag. cl_heap c' r = zero_creq\<lparr>q_tag := tag\<rparr>)"
    and "set (cl_reqchan c') \<subseteq> set (cl_reqchan c)" "cl_reqfirst c' = cl_reqfirst c" "cl_reqlast c' = cl_reqlast c"
      "cl_err c' = cl_err c" "cl_locked c' = cl_locked c" "cl_answered c' = cl_answered c"
proof -
  have *: "tags_ok c' (r # us @ cl_reqchan c') \<and> r \<notin> set us \<and> (\<forall>x. x \<noteq> r \<longrightarrow> cl_heap c' x = cl_heap c x)
    \<and> (r \<in> set (cl_reqchan c) \<and> cl_heap c' r = cl_heap c r
      \<or> r = cl_new c \<and> (\<exists>tag. cl_heap c' r = zero_creq\<lparr>q_tag := tag\<rparr>))
    \<and> set (cl_reqchan c') \<subseteq> set (cl_reqchan c) \<and> cl_reqfirst c' = cl_reqfirst c \<and> cl_reqlast c' = cl_reqlast c
    \<and> cl_err c' = cl_err c \<and> cl_locked c' = cl_locked c \<and> cl_answered c' = cl_answered c"
  proof (cases "cl_reqchan c")
    case (Cons q rest)
    then have c': "r = q" "c' = c\<lparr>cl_reqchan := rest\<rparr>" using assms(2) by (auto simp: ReqAlloc_def)
    then have "tags_ok c' (r # us @ cl_reqchan c')"
      by (intro tags_ok_cong [OF assms(1)]) (simp_all add: Cons)
    then show ?thesis using c' Cons by (auto simp: tags_ok_def)
  next
    case Nil
    obtain n pl where g: "getId (cl_tagpool c) = (Some n, pl)"
      and c': "r = cl_new c" "c' = c\<lparr>cl_tagpool := pl, cl_new := Suc r,
                    cl_heap := (cl_heap c)(r := zero_creq\<lparr>q_tag := ucast n\<rparr>)\<rparr>"
      using assms(2) Nil by (auto simp: ReqAlloc_def Let_def split: prod.splits option.splits)
    obtain ns where ns: "held 0xFFFF (cl_tagpool c) ns" "set ns = (\<lambda>r. ucast (q_tag (cl_heap c r))) ` set us"
      and t: "distinct us" "\<forall>r \<in> set us. r < cl_new c" "inj_on (\<lambda>r. q_tag (cl_heap c r)) (set us)"
        "pl_need (cl_tagpool c) = 0"
      using assms(1) Nil by (auto simp: tags_ok_def)
    have h: "held 0xFFFF pl (n # ns)" using ns(1) g by (rule held_get)
    have inv: "held_inv 0xFFFF (cl_tagpool c) ns" "held_inv 0xFFFF pl (n # ns)"
      using held_inv [OF ns(1)] held_inv [OF h] by simp_all
    have ok: "pool_ok (cl_tagpool c)" using inv(1) by (simp add: held_inv_def pool_ok_def)
    have n: "unat n < 65536" "n \<notin> set ns" "pl_need pl = 0"
      using getId_some [OF ok g] inv t(4) by (auto simp: held_inv_def)
    have r: "r \<notin> set us" using t(2) c'(1) by auto
    have tag: "q_tag (cl_heap c' x) = (if x = r then ucast n else q_tag (cl_heap c x))" for x
      by (simp add: c'(2))
    have "(\<lambda>x. ucast (q_tag (cl_heap c' x)) :: u32) ` set us = set ns"
      unfolding ns(2) tag using r by (intro image_cong) auto
    then have "set (n # ns) = (\<lambda>r. ucast (q_tag (cl_heap c' r))) ` set (r # us)"
      using n(1) by (simp add: tag ucast_id)
    moreover have "inj_on (\<lambda>x. q_tag (cl_heap c' x)) (set (r # us))"
    proof -
      have "inj_on (\<lambda>x. q_tag (cl_heap c' x)) (set us)"
        using t(3) r by (subst inj_on_cong [of _ _ "\<lambda>r. q_tag (cl_heap c r)"]) (auto simp: tag)
      moreover have "ucast n \<noteq> q_tag (cl_heap c x)" if "x \<in> set us" for x
        using n(1,2) ns(2) that ucast_id [of n] by force
      ultimately show ?thesis using r by (auto simp: tag)
    qed
    ultimately have "tags_ok c' (r # us @ cl_reqchan c')"
      using h n t r c' Nil by (auto simp: tags_ok_def less_Suc_eq)
    then show ?thesis using r c' Nil by auto
  qed
  show "tags_ok c' (r # us @ cl_reqchan c')"
    and "r \<notin> set us" "\<And>x. x \<noteq> r \<Longrightarrow> cl_heap c' x = cl_heap c x"
    and "r \<in> set (cl_reqchan c) \<and> cl_heap c' r = cl_heap c r
      \<or> r = cl_new c \<and> (\<exists>tag. cl_heap c' r = zero_creq\<lparr>q_tag := tag\<rparr>)"
    and "set (cl_reqchan c') \<subseteq> set (cl_reqchan c)" "cl_reqfirst c' = cl_reqfirst c" "cl_reqlast c' = cl_reqlast c"
      "cl_err c' = cl_err c" "cl_locked c' = cl_locked c" "cl_answered c' = cl_answered c"
    using * by blast+
qed

lemma FreeFcall_simps [simp]:
  "cl_heap (FreeFcall fc c) = cl_heap c" "cl_tagpool (FreeFcall fc c) = cl_tagpool c"
  "cl_reqfirst (FreeFcall fc c) = cl_reqfirst c" "cl_reqlast (FreeFcall fc c) = cl_reqlast c"
  "cl_err (FreeFcall fc c) = cl_err c" "cl_reqchan (FreeFcall fc c) = cl_reqchan c" "cl_new (FreeFcall fc c) = cl_new c"
  "cl_answered (FreeFcall fc c) = cl_answered c" "cl_locked (FreeFcall fc c) = cl_locked c"
  by (simp_all add: FreeFcall_def split: option.split)

lemma ReqFree_ok:
  assumes "tags_ok c (r # us @ cl_reqchan c)"
  shows "\<exists>c'. ReqFree r c = Some c' \<and> tags_ok c' (us @ cl_reqchan c')
    \<and> (\<forall>x. x \<noteq> r \<longrightarrow> cl_heap c' x = cl_heap c x) \<and> q_next (cl_heap c' r) = None \<and> q_Err (cl_heap c' r) = None
    \<and> set (cl_reqchan c') \<subseteq> insert r (set (cl_reqchan c)) \<and> cl_reqfirst c' = cl_reqfirst c \<and> cl_reqlast c' = cl_reqlast c
    \<and> cl_err c' = cl_err c \<and> cl_locked c' = cl_locked c \<and> cl_answered c' = cl_answered c"
proof (cases "length (cl_reqchan c) < 16")
  case True
  define d where "d = set_q r (\<lambda>q. q\<lparr>q_Tc := None, q_Rc := None, q_Err := None, q_Done := False, q_next := None, q_prev := None\<rparr>)
    (FreeFcall (q_Tc (cl_heap c r)) c)"
  have "ReqFree r c = Some (d\<lparr>cl_reqchan := cl_reqchan c @ [r]\<rparr>)"
    using True by (simp add: ReqFree_def d_def Let_def)
  moreover have "tags_ok (d\<lparr>cl_reqchan := cl_reqchan c @ [r]\<rparr>) (us @ cl_reqchan c @ [r])"
    by (rule tags_ok_cong [OF assms]) (simp_all add: d_def)
  ultimately show ?thesis by (simp add: d_def)
next
  case False
  define d where "d = set_q r (\<lambda>q. q\<lparr>q_Tc := None, q_Rc := None, q_Err := None, q_Done := False, q_next := None, q_prev := None\<rparr>)
    (FreeFcall (q_Tc (cl_heap c r)) c)"
  let ?us = "us @ cl_reqchan c" and ?t = "ucast (q_tag (cl_heap c r)) :: u32"
  obtain ns where ns: "held 0xFFFF (cl_tagpool c) ns" "set ns = (\<lambda>r. ucast (q_tag (cl_heap c r))) ` set (r # ?us)"
    and t: "distinct (r # ?us)" "\<forall>r \<in> set ?us. r < cl_new c" "inj_on (\<lambda>r. q_tag (cl_heap c r)) (set (r # ?us))"
      "pl_need (cl_tagpool c) = 0"
    using assms by (auto simp: tags_ok_def)
  have inv: "held_inv 0xFFFF (cl_tagpool c) ns" using held_inv [OF ns(1)] by simp
  have mem: "?t \<in> set ns" using ns(2) by simp
  then have "unat ?t \<in> ids (pl_imap (cl_tagpool c))" using inv by (auto simp: held_inv_def)
  moreover have "?t \<noteq> NOFID"
  proof
    assume "?t = NOFID"
    then have "unat (q_tag (cl_heap c r)) = 4294967295" using unat_tag [of "q_tag (cl_heap c r)"] by (simp add: NOFID_def)
    moreover have "unat (q_tag (cl_heap c r)) < 65536" using unsigned_less [of "q_tag (cl_heap c r)", where ?'a = nat] by simp
    ultimately show False by simp
  qed
  ultimately obtain pl where p: "putId ?t (cl_tagpool c) = Some (None, pl)" "pl_need pl = 0"
    using putId_some [of ?t "cl_tagpool c"] t(4) by auto
  have h: "held 0xFFFF pl (remove1 ?t ns)" using ns(1) mem p(1) by (rule held_put)
  have "set (remove1 ?t ns) = set ns - {?t}" using inv by (simp add: held_inv_def)
  also have "\<dots> = (\<lambda>r. ucast (q_tag (cl_heap c r))) ` set ?us"
    unfolding ns(2) using t(1,3) by (auto simp: ucast_tag) (metis UnCI image_eqI)+
  finally have "set (remove1 ?t ns) = (\<lambda>r. ucast (q_tag (cl_heap c r))) ` set ?us" .
  then have "tags_ok (c\<lparr>cl_tagpool := pl\<rparr>) ?us"
    using t p(2) h unfolding tags_ok_def by auto
  then have "tags_ok (d\<lparr>cl_tagpool := pl\<rparr>) ?us"
    by (rule tags_ok_cong) (simp_all add: d_def)
  moreover have "ReqFree r c = Some (d\<lparr>cl_tagpool := pl\<rparr>)"
    using False p(1) by (simp add: ReqFree_def d_def Let_def)
  ultimately show ?thesis by (auto simp: d_def)
qed

subsection \<open>A connection at work\<close>

text \<open>
  The steps of a live connection, with the pending requests and those whose caller has been woken:
  a call, a response, the end of a call, and what does not touch the requests (an \<open>Fcall\<close> is taken, the
  message size and the dialect are negotiated).
\<close>

inductive live :: "clnt \<Rightarrow> nat list \<Rightarrow> nat list \<Rightarrow> bool" where
  live_new: "live (NewClnt l msize dotu) [] []"
| live_call: "live c ps ws \<Longrightarrow> Rpc_call tc c = (Some (Inr (Some r)), c') \<Longrightarrow> live c' (ps @ [r]) ws"
| live_reply: "live c ps ws \<Longrightarrow> recv_msg fc c = Some (Some r, c') \<Longrightarrow> live c' (remove1 r ps) (ws @ [r])"
| live_end: "live c ps ws \<Longrightarrow> r \<in> set ws \<Longrightarrow> Rpc_end r c = Some (x, c') \<Longrightarrow> live c' ps (remove1 r ws)"
| live_fcall: "live c ps ws \<Longrightarrow> live (snd (clnt_NewFcall c)) ps ws"
| live_msize: "live c ps ws \<Longrightarrow> live (c\<lparr>cl_Msize := m, cl_Dotu := d\<rparr>) ps ws"

text \<open>A pending request waits under its tag, one that is free has been cleared.\<close>

definition waits :: "creq \<Rightarrow> bool" where
  "waits q \<longleftrightarrow> (\<exists>tc. q_Tc q = Some tc \<and> fc_Tag tc = (if fc_Type tc = Tversion then NOTAG else q_tag q))
     \<and> q_Done q \<and> q_Err q = None"

definition clnt_inv :: "clnt \<Rightarrow> nat list \<Rightarrow> nat list \<Rightarrow> bool" where
  "clnt_inv c ps ws \<longleftrightarrow> tags_ok c ((ps @ ws) @ cl_reqchan c) \<and> pend c ps \<and> cl_err c = None \<and> \<not> cl_locked c
     \<and> (\<forall>r \<in> set ps. waits (cl_heap c r))
     \<and> (\<forall>r \<in> set (cl_reqchan c). q_next (cl_heap c r) = None \<and> q_Err (cl_heap c r) = None)"

lemma tags_ok_bound: "tags_ok c us \<Longrightarrow> r \<in> set us \<Longrightarrow> r < cl_new c"
  by (simp add: tags_ok_def)

lemma clnt_inv_length: "clnt_inv c ps ws \<Longrightarrow> length ps \<le> cl_new c"
proof -
  assume i: "clnt_inv c ps ws"
  then have "set ps \<subseteq> {..<cl_new c}" "distinct ps" by (auto simp: clnt_inv_def tags_ok_def)
  then show ?thesis using card_mono [of "{..<cl_new c}" "set ps"] by (simp add: distinct_card)
qed

lemma SetTag_fields: "SetTag fc tag = Some fc' \<Longrightarrow> fc_Tag fc' = tag \<and> fc_Type fc' = fc_Type fc"
  by (auto simp: SetTag_def Let_def split: Option.bind_splits)

lemma Rpcnb_append:
  assumes "q_Tc (cl_heap c r) = Some tc" "cl_err c = None" "Rpcnb r c = Some (None, c')"
  shows "\<exists>tc'. c' = append_req r (set_q r (\<lambda>q. q\<lparr>q_Tc := Some tc'\<rparr>) c)
    \<and> fc_Tag tc' = (if fc_Type tc' = Tversion then NOTAG else q_tag (cl_heap c r))"
  using assms SetTag_fields [of tc]
  by (auto simp: Rpcnb_def append_req_def Let_def split: Option.bind_splits if_splits)

lemma append_req_same:
  "cl_tagpool (append_req r c) = cl_tagpool c" "cl_reqchan (append_req r c) = cl_reqchan c"
  "cl_new (append_req r c) = cl_new c" "cl_err (append_req r c) = cl_err c" "cl_locked (append_req r c) = cl_locked c"
  "cl_answered (append_req r c) = cl_answered c" "q_tag (cl_heap (append_req r c) x) = q_tag (cl_heap c x)"
  "q_Tc (cl_heap (append_req r c) x) = q_Tc (cl_heap c x)" "q_Done (cl_heap (append_req r c) x) = q_Done (cl_heap c x)"
  "q_Err (cl_heap (append_req r c) x) = q_Err (cl_heap c x)"
  "cl_out (append_req r c) = cl_out c @ [r]"
  by (simp_all add: append_req_def Let_def split: option.split)

lemma append_req_other: "x \<noteq> r \<Longrightarrow> cl_reqlast c \<noteq> Some x \<Longrightarrow> cl_heap (append_req r c) x = cl_heap c x"
  by (simp add: append_req_def Let_def split: option.split)

lemma waits_cong: "waits q \<Longrightarrow> q_Tc q' = q_Tc q \<Longrightarrow> q_Done q' = q_Done q \<Longrightarrow> q_Err q' = q_Err q \<Longrightarrow> q_tag q' = q_tag q \<Longrightarrow> waits q'"
  unfolding waits_def by metis

lemma pend_last_mem: "pend c ps \<Longrightarrow> cl_reqlast c = Some l \<Longrightarrow> l \<in> set ps"
  by (cases ps rule: rev_cases) (auto simp: pend_def)

lemma inv_call:
  assumes "clnt_inv c ps ws" "Rpc_call tc c = (Some (Inr (Some r)), c')"
  shows "clnt_inv c' (ps @ [r]) ws \<and> r \<notin> set (ps @ ws)"
proof -
  obtain d where d: "ReqAlloc c = (Some r, d)" "Rpcnb r (set_q r (\<lambda>q. q\<lparr>q_Tc := Some tc, q_Done := True\<rparr>) d) = Some (None, c')"
    using assms(2) by (auto simp: Rpc_call_def Let_def split: prod.splits option.splits)
  have t: "tags_ok c ((ps @ ws) @ cl_reqchan c)" and inv: "pend c ps" "cl_err c = None" "\<not> cl_locked c"
      "\<forall>r \<in> set ps. waits (cl_heap c r)" "\<forall>r \<in> set (cl_reqchan c). q_next (cl_heap c r) = None \<and> q_Err (cl_heap c r) = None"
    using assms(1) by (auto simp: clnt_inv_def)
  note a = ReqAlloc_ok [OF t d(1)]
  let ?e = "set_q r (\<lambda>q. q\<lparr>q_Tc := Some tc, q_Done := True\<rparr>) d"
  obtain tc' where c': "c' = append_req r (set_q r (\<lambda>q. q\<lparr>q_Tc := Some tc'\<rparr>) ?e)"
      "fc_Tag tc' = (if fc_Type tc' = Tversion then NOTAG else q_tag (cl_heap d r))"
    using Rpcnb_append [of ?e r tc c'] d(2) a(8) inv(2) by auto
  let ?f = "set_q r (\<lambda>q. q\<lparr>q_Tc := Some tc'\<rparr>) ?e"
  have idle: "q_next (cl_heap d r) = None \<and> q_Err (cl_heap d r) = None"
    using a(4) inv(5) by (auto simp: zero_creq_def)
  have r: "r \<notin> set ps" "r \<notin> set ws" "r \<notin> set (cl_reqchan d)" using a(1,2) by (auto simp: tags_ok_def)
  have same: "cl_heap d x = cl_heap c x" if "x \<in> set ps" for x
    using that r(1) a(3) by metis
  have "pend d ps"
    by (rule pend_cong [OF inv(1) a(6,7)]) (simp add: same)
  then have "pend ?f ps"
    by (rule pend_cong) (use r in auto)
  then have 1: "pend c' (ps @ [r])"
    unfolding c'(1) by (rule append_req_pend) (use r idle in auto)
  have 2: "tags_ok c' (((ps @ [r]) @ ws) @ cl_reqchan c')"
    by (rule tags_ok_cong [OF a(1)]) (auto simp: c'(1) append_req_same)
  have 3: "waits (cl_heap c' x)" if "x \<in> set (ps @ [r])" for x
  proof (cases "x = r")
    case True
    then show ?thesis using c'(2) idle by (auto simp: waits_def c'(1) append_req_same)
  next
    case False
    then have "waits (cl_heap c x)" using that inv(4) by simp
    then show ?thesis by (rule waits_cong) (use False a(3) in \<open>auto simp: c'(1) append_req_same\<close>)
  qed
  have 4: "q_next (cl_heap c' x) = None \<and> q_Err (cl_heap c' x) = None" if "x \<in> set (cl_reqchan c')" for x
  proof -
    have x: "x \<in> set (cl_reqchan d)" "x \<noteq> r" using that r by (auto simp: c'(1) append_req_same)
    then have "x \<notin> set ps" using a(1) by (auto simp: tags_ok_def)
    then have "cl_reqlast ?f \<noteq> Some x" using pend_last_mem [OF \<open>pend ?f ps\<close>] by blast
    then have "cl_heap c' x = cl_heap c x"
      using x(2) a(3) by (simp add: c'(1) append_req_other)
    then show ?thesis using inv(5) a(5) x(1) by auto
  qed
  show ?thesis using 1 2 3 4 a(8,9) inv(2,3) r by (simp add: clnt_inv_def c'(1) append_req_same)
qed

lemma inv_find:
  assumes "clnt_inv c ps ws"
  shows "find_req (cl_new c) (cl_heap c) tag (cl_reqfirst c) = Some (List.find (\<lambda>r. tag_of (cl_heap c) r = tag) ps)"
proof (rule find_req_find)
  show "path (\<lambda>r. q_next (cl_heap c r)) (cl_reqfirst c) ps" using assms by (simp add: clnt_inv_def pend_def)
  show "\<forall>r \<in> set ps. q_Tc (cl_heap c r) \<noteq> None" using assms by (auto simp: clnt_inv_def waits_def)
  show "length ps \<le> cl_new c" using assms by (rule clnt_inv_length)
qed

text \<open>What a response does to the first pending request with its tag.\<close>

lemma recv_msg_found:
  assumes "clnt_inv c ps ws" "List.find (\<lambda>r. tag_of (cl_heap c) r = fc_Tag fc) ps = Some r"
  shows "\<exists>c' tc. recv_msg fc c = Some (Some r, c') \<and> q_Tc (cl_heap c r) = Some tc
    \<and> clnt_inv c' (remove1 r ps) (ws @ [r]) \<and> q_Rc (cl_heap c' r) = Some fc
    \<and> q_Err (cl_heap c' r) = reply_err (fc_Type tc) fc None \<and> cl_answered c' = cl_answered c @ [r]
    \<and> (\<forall>x \<in> set (remove1 r ps). q_Tc (cl_heap c' x) = q_Tc (cl_heap c x))"
proof -
  have r: "r \<in> set ps" using assms(2) by (auto simp: find_Some_iff)
  then obtain xs ys where ps: "ps = xs @ r # ys" "r \<notin> set xs" by (meson split_list_first)
  have rm: "remove1 r ps = xs @ ys" using ps by (simp add: remove1_append)
  have inv: "tags_ok c ((ps @ ws) @ cl_reqchan c)" "pend c ps" "cl_err c = None" "\<not> cl_locked c"
      "\<forall>r \<in> set ps. waits (cl_heap c r)" "\<forall>r \<in> set (cl_reqchan c). q_next (cl_heap c r) = None \<and> q_Err (cl_heap c r) = None"
    using assms(1) by (auto simp: clnt_inv_def)
  then obtain tc where tc: "q_Tc (cl_heap c r) = Some tc" "q_Done (cl_heap c r)" "q_Err (cl_heap c r) = None"
    using r by (auto simp: waits_def)
  define d where "d = unlink r (set_q r (\<lambda>q. q\<lparr>q_Rc := Some fc\<rparr>) c)"
  define e where "e = set_q r (\<lambda>q. q\<lparr>q_Err := reply_err (fc_Type tc) fc (q_Err q)\<rparr>) d"
  have p: "pend (set_q r (\<lambda>q. q\<lparr>q_Rc := Some fc\<rparr>) c) (xs @ r # ys)"
    by (rule pend_cong) (use inv(2) ps in auto)
  have "pend d (xs @ ys)" unfolding d_def using p by (rule unlink_pend)
  then have 1: "pend (e\<lparr>cl_answered := cl_answered e @ [r]\<rparr>) (xs @ ys)"
    by (rule pend_cong) (auto simp: e_def)
  have m: "recv_msg fc c = Some (Some r, e\<lparr>cl_answered := cl_answered e @ [r]\<rparr>)"
    using inv_find [OF assms(1), of "fc_Tag fc"] assms(2) tc
    by (simp add: recv_msg_def Let_def d_def e_def unlink_same)
  have 2: "tags_ok (e\<lparr>cl_answered := cl_answered e @ [r]\<rparr>) ((xs @ ys @ ws @ [r]) @ cl_reqchan e)"
    by (rule tags_ok_cong [OF inv(1)]) (auto simp: e_def d_def unlink_same ps)
  have dis: "distinct (xs @ r # ys)" using pend_distinct [OF p] .
  have 3: "waits (cl_heap e x)" if "x \<in> set (xs @ ys)" for x
  proof -
    have "waits (cl_heap c x)" using that inv(5) ps by auto
    then show ?thesis
      by (rule waits_cong) (use that dis in \<open>auto simp: e_def d_def unlink_same\<close>)
  qed
  have 4: "q_next (cl_heap e x) = None \<and> q_Err (cl_heap e x) = None" if "x \<in> set (cl_reqchan e)" for x
  proof -
    have x: "x \<in> set (cl_reqchan c)" using that by (simp add: e_def d_def unlink_same)
    then have "x \<notin> set (xs @ r # ys)" using inv(1) ps by (auto simp: tags_ok_def)
    then have "cl_heap e x = cl_heap c x"
      using unlink_other [OF _ p, of x] by (auto simp: e_def d_def)
    then show ?thesis using inv(6) x by simp
  qed
  have "clnt_inv (e\<lparr>cl_answered := cl_answered e @ [r]\<rparr>) (remove1 r ps) (ws @ [r])"
    using 1 2 3 4 inv(3,4) by (simp add: clnt_inv_def rm e_def d_def unlink_same)
  moreover have "q_Tc (cl_heap e x) = q_Tc (cl_heap c x)" for x by (simp add: e_def d_def unlink_same)
  ultimately show ?thesis
    using m tc by (simp add: e_def d_def unlink_same)
qed

lemma inv_new: "clnt_inv (NewClnt l msize dotu) [] []"
proof -
  have "held 0xFFFF (newPool 0xFFFF) []" by (rule held_new)
  moreover have "(ucast NOTAG :: u32) = 0xFFFF" by (simp add: NOTAG_def)
  moreover have "pl_need (newPool 0xFFFF) = 0" by (simp add: newPool_def)
  ultimately have "tags_ok (NewClnt l msize dotu) []"
    unfolding tags_ok_def by (simp add: NewClnt_def Let_def)
  then show ?thesis by (simp add: clnt_inv_def NewClnt_def Let_def pend_def)
qed

lemma inv_end:
  assumes "clnt_inv c ps ws" "r \<in> set ws"
  shows "\<exists>c'. Rpc_end r c = Some ((q_Rc (cl_heap c r), q_Err (cl_heap c r)), c') \<and> clnt_inv c' ps (remove1 r ws)"
proof -
  have inv: "tags_ok c ((ps @ ws) @ cl_reqchan c)" "pend c ps" "cl_err c = None" "\<not> cl_locked c"
      "\<forall>r \<in> set ps. waits (cl_heap c r)" "\<forall>r \<in> set (cl_reqchan c). q_next (cl_heap c r) = None \<and> q_Err (cl_heap c r) = None"
    using assms(1) by (auto simp: clnt_inv_def)
  have "tags_ok c (r # (ps @ remove1 r ws) @ cl_reqchan c)"
    by (rule tags_ok_cong [OF inv(1)]) (use assms(2) in auto)
  from ReqFree_ok [OF this] obtain c' where c': "ReqFree r c = Some c'"
      "tags_ok c' ((ps @ remove1 r ws) @ cl_reqchan c')" "\<And>x. x \<noteq> r \<Longrightarrow> cl_heap c' x = cl_heap c x"
      "q_next (cl_heap c' r) = None" "q_Err (cl_heap c' r) = None"
      "set (cl_reqchan c') \<subseteq> insert r (set (cl_reqchan c))" "cl_reqfirst c' = cl_reqfirst c"
      "cl_reqlast c' = cl_reqlast c" "cl_err c' = cl_err c" "cl_locked c' = cl_locked c"
    by blast
  have r: "r \<notin> set ps" using inv(1) assms(2) by (auto simp: tags_ok_def)
  then have same: "cl_heap c' x = cl_heap c x" if "x \<in> set ps" for x using that c'(3) by metis
  have "pend c' ps" by (rule pend_cong [OF inv(2) c'(7,8)]) (simp add: same)
  moreover have "q_next (cl_heap c' x) = None \<and> q_Err (cl_heap c' x) = None" if "x \<in> set (cl_reqchan c')" for x
    using that inv(6) c'(3-6) by (cases "x = r") auto
  ultimately have "clnt_inv c' ps (remove1 r ws)"
    using inv(3-5) c'(2,9,10) same by (simp add: clnt_inv_def)
  then show ?thesis using c'(1) by (simp add: Rpc_end_def)
qed

lemma live_inv: "live c ps ws \<Longrightarrow> clnt_inv c ps ws"
proof (induction rule: live.induct)
  case live_new
  show ?case by (rule inv_new)
next
  case (live_call c ps ws tc r c')
  then show ?case using inv_call by blast
next
  case (live_reply c ps ws fc r c')
  then have "List.find (\<lambda>r. tag_of (cl_heap c) r = fc_Tag fc) ps = Some r"
    using inv_find [OF live_reply.IH, of "fc_Tag fc"]
    by (auto simp: recv_msg_def Let_def split: option.splits Option.bind_splits)
  then show ?case using recv_msg_found [OF live_reply.IH] live_reply.hyps(2) by fastforce
next
  case (live_end c ps ws r x c')
  then show ?case using inv_end by fastforce
next
  case (live_fcall c ps ws)
  then show ?case
    by (simp add: clnt_inv_def clnt_NewFcall_def pend_def tags_ok_def split: list.split)
next
  case (live_msize c ps ws m d)
  then show ?case by (simp add: clnt_inv_def pend_def tags_ok_def)
qed

lemma waits_tag: "waits q \<Longrightarrow> tag_of (\<lambda>_. q) r \<noteq> NOTAG \<Longrightarrow> q_tag q = tag_of (\<lambda>_. q) r"
  by (auto simp: waits_def tag_of_def)

lemma find_unique:
  assumes "clnt_inv c ps ws" "r \<in> set ps" "tag_of (cl_heap c) r = tag" "tag \<noteq> NOTAG"
  shows "List.find (\<lambda>r. tag_of (cl_heap c) r = tag) ps = Some r"
proof -
  obtain r' where r': "List.find (\<lambda>r. tag_of (cl_heap c) r = tag) ps = Some r'"
    using assms(2,3) by (cases "List.find (\<lambda>r. tag_of (cl_heap c) r = tag) ps") (auto simp: find_None_iff)
  then have "r' \<in> set ps" "tag_of (cl_heap c) r' = tag" by (auto simp: find_Some_iff)
  then have "q_tag (cl_heap c r') = q_tag (cl_heap c r)" "r' \<in> set ps"
    using assms waits_tag [of "cl_heap c r'"] waits_tag [of "cl_heap c r"]
    by (auto simp: clnt_inv_def tag_of_def)
  moreover have "inj_on (\<lambda>r. q_tag (cl_heap c r)) (set ((ps @ ws) @ cl_reqchan c))"
    using assms(1) by (simp add: clnt_inv_def tags_ok_def)
  ultimately have "r' = r" using assms(2) by (auto dest: inj_onD)
  then show ?thesis using r' by simp
qed

lemma reply_err_None: "reply_err ty rc None = None \<longleftrightarrow> fc_Type rc = ty + 1"
  unfolding reply_err_def by (metis add_diff_cancel diff_add_cancel option.distinct(1))


definition demo_tc :: Fcall where
  "demo_tc = zero_Fcall\<lparr>fc_Type := Tclunk, fc_Pkt := [11, 0, 0, 0, 120, 255, 255, 1, 0, 0, 0]\<rparr>"

definition demo_clnt :: clnt where
  "demo_clnt = snd (Rpc_call demo_tc (NewClnt \<lparr>cs_c = {}, cs_nextdev = 0\<rparr> 64 True))"

lemma demo_live: "live demo_clnt [0] []"
proof -
  have "fst (Rpc_call demo_tc (NewClnt \<lparr>cs_c = {}, cs_nextdev = 0\<rparr> 64 True)) = Some (Inr (Some 0))"
    by code_simp
  then have "Rpc_call demo_tc (NewClnt \<lparr>cs_c = {}, cs_nextdev = 0\<rparr> 64 True) = (Some (Inr (Some 0)), demo_clnt)"
    by (simp add: demo_clnt_def prod_eq_iff)
  then show ?thesis using live_call [OF live_new] by force
qed

lemma demo_tag: "tag_of (cl_heap demo_clnt) 0 = 0"
  by code_simp




subsection \<open>The end of a connection\<close>

text \<open>The loop of \<open>rm\<close> when no woken caller overtakes it.\<close>

lemma fail_pending_all:
  assumes "path (\<lambda>r. q_next (cl_heap c r)) p ps" "length ps \<le> n" "\<forall>r \<in> set ps. q_Done (cl_heap c r)"
  shows "\<exists>c'. fail_pending n (\<lambda>_. False) e p c = Some c' \<and> cl_answered c' = cl_answered c @ ps
    \<and> (\<forall>r. q_Err (cl_heap c' r) = (if r \<in> set ps then Some e else q_Err (cl_heap c r)))
    \<and> cl_reqfirst c' = cl_reqfirst c \<and> cl_reqlast c' = cl_reqlast c \<and> cl_err c' = cl_err c \<and> cl_closed c' = cl_closed c"
  using assms
proof (induction ps arbitrary: n p c)
  case (Cons r ps)
  obtain m where m: "n = Suc m" "length ps \<le> m" using Cons.prems(2) by (cases n) auto
  let ?d = "(set_q r (\<lambda>q. q\<lparr>q_Err := Some e\<rparr>) c)\<lparr>cl_answered := cl_answered c @ [r]\<rparr>"
  have d: "q_next (cl_heap ?d x) = q_next (cl_heap c x)" "q_Done (cl_heap ?d x) = q_Done (cl_heap c x)" for x
    by simp_all
  have f: "fail_pending n (\<lambda>_. False) e p c = fail_pending m (\<lambda>_. False) e (q_next (cl_heap c r)) ?d"
    using Cons.prems(1,3) m(1) by simp
  have "path (\<lambda>x. q_next (cl_heap ?d x)) (q_next (cl_heap c r)) ps" "\<forall>x \<in> set ps. q_Done (cl_heap ?d x)"
    using Cons.prems by (simp_all only: d) simp_all
  from Cons.IH [OF this(1) m(2) this(2)] show ?case
    unfolding f by auto
qed (cases n; simp)



text \<open>
  A caller that is woken and frees its request before \<open>rm\<close> reads \<open>r.next\<close> cuts the list: the requests
  behind it are never answered, and they are no longer pending either.
\<close>

lemma rm_overtaken:
  "let c = snd (Rpc_call demo_tc demo_clnt) in
   fst (Rpc_call demo_tc demo_clnt) = Some (Inr (Some 1))
   \<and> map_option cl_answered (rm (\<lambda>r. r = 0) (Error ''gone'' EIO) c) = Some [0]
   \<and> map_option cl_reqfirst (rm (\<lambda>r. r = 0) (Error ''gone'' EIO) c) = Some None"
  by code_simp

subsection \<open>Responses longer than the buffer\<close>

text \<open>
  A size field above eight times the message size can never be satisfied: the buffer is not enlarged
  further, the next \<open>Read\<close> has no room and returns no bytes and no error, and the code calls
  \<open>Error\<close> of a nil error.
\<close>

lemma oversized_reply_panics:
  assumes "length buf = 8 * unat (cl_Msize c)" "8 * unat (cl_Msize c) < 2 ^ 32" "4 < length buf"
    and "Gint32 buf = Some (sz, p)" "length buf < unat sz"
  shows "\<exists>b. clnt_recv_loop buf (length buf) c = Some (RAgain b (length buf), c)
    \<and> clnt_recv_read quick (Inr bs) b (length buf) c = None"
proof -
  have l: "length (clnt_regrow (cl_Msize c) buf (length buf)) = length buf"
    using assms(1,2) by (simp add: clnt_regrow_def unat_word_ariths mult.commute)
  then have "clnt_recv_loop buf (length buf) c = Some (RAgain (clnt_regrow (cl_Msize c) buf (length buf)) (length buf), c)"
    using assms(3-5) by (simp add: clnt_recv_loop.simps [of buf])
  moreover have "clnt_recv_read quick (Inr bs) (clnt_regrow (cl_Msize c) buf (length buf)) (length buf) c = None"
    using l assms(1) by (simp add: clnt_recv_read_def Let_def)
  ultimately show ?thesis by blast
qed

end
