(* ===== verification/Chan_Fid.thy ===== *)
theory Chan_Fid
  imports Chan_Elem Chan_Rpc
begin

section \<open>Fids of the client (p/chan9/walk.go, attach.go, close.go, and Connect, FidAlloc of clnt.go)\<close>

text \<open>
  A \<open>Fid\<close> is a heap object; a namespace mixes fids of several clients, which may draw their numbers
  from one pool.  \<open>w_clnts\<close> holds what the operations need of a client besides the requests: its
  parameters, the address of its pool and its reference count.

  \<open>srv\<close> is the other end: what comes back for a message sent through a client, an error when
  the connection breaks, else the response.  \<open>Rpc\<close> turns it into what the caller gets, as \<open>recv\<close> does.
  \<open>None\<close> is a panic, or an allocation that waits for ever for a number.
\<close>

subsection \<open>State\<close>

record cfid =
  f_Clnt :: nat
  f_Cname :: "string list"
  f_Path :: "FileID list"
  f_Iounit :: u32
  f_ID :: FileID
  f_Mode :: u8
  f_Fid :: u32
  f_User :: "string \<times> u32"
  f_walked :: bool
  f_prev :: "nat option"
  f_next :: "nat option"
  f_MayCreate :: bool
  f_MayCache :: bool

record chan =
  ch_Msize :: u32
  ch_Dotu :: bool
  ch_User :: "string \<times> u32"
  ch_Type :: u16
  ch_Dev :: u32
  ch_Subpath :: "string list"
  ch_Id :: string
  ch_fidpool :: nat
  ch_ref :: int

record 'e world =
  w_fids :: "nat \<Rightarrow> cfid"
  w_fnew :: nat
  w_clnts :: "nat \<Rightarrow> chan"
  w_pools :: "nat \<Rightarrow> pool"
  w_env :: 'e

type_synonym 'e server = "nat \<Rightarrow> Fcall \<Rightarrow> 'e \<Rightarrow> (perror + Fcall) \<times> 'e"

type_synonym ('a, 'e) act = "'e world \<Rightarrow> ((perror + 'a) \<times> 'e world) option"

definition zero_FileID :: FileID where
  "zero_FileID = \<lparr>fi_Type = 0, fi_Dev = 0, fi_Qid = zero_Qid\<rparr>"

definition zero_cfid :: cfid where
  "zero_cfid = \<lparr>f_Clnt = 0, f_Cname = [], f_Path = [], f_Iounit = 0, f_ID = zero_FileID, f_Mode = 0,
     f_Fid = 0, f_User = ([], 0), f_walked = False, f_prev = None, f_next = None,
     f_MayCreate = False, f_MayCache = False\<rparr>"

definition set_f :: "nat \<Rightarrow> (cfid \<Rightarrow> cfid) \<Rightarrow> 'e world \<Rightarrow> 'e world" where
  "set_f a g w = w\<lparr>w_fids := (w_fids w)(a := g (w_fids w a))\<rparr>"

definition set_ch :: "nat \<Rightarrow> (chan \<Rightarrow> chan) \<Rightarrow> 'e world \<Rightarrow> 'e world" where
  "set_ch n g w = w\<lparr>w_clnts := (w_clnts w)(n := g (w_clnts w n))\<rparr>"

lemma set_f_simps [simp]:
  "w_fids (set_f a g w) = (w_fids w)(a := g (w_fids w a))" "w_fnew (set_f a g w) = w_fnew w"
  "w_clnts (set_f a g w) = w_clnts w" "w_pools (set_f a g w) = w_pools w" "w_env (set_f a g w) = w_env w"
  by (simp_all add: set_f_def)

lemma set_ch_simps [simp]:
  "w_clnts (set_ch n h w) = (w_clnts w)(n := h (w_clnts w n))" "w_fnew (set_ch n h w) = w_fnew w"
  "w_fids (set_ch n h w) = w_fids w" "w_pools (set_ch n h w) = w_pools w" "w_env (set_ch n h w) = w_env w"
  by (simp_all add: set_ch_def)

definition Enofile :: perror where "Enofile = Error ''file not found'' ENOENT"
definition Ebaduse_fid :: perror where "Ebaduse_fid = Error ''bad use of fid'' EINVAL"
definition NOREMAP :: u16 where "NOREMAP = 0x8000"

subsection \<open>Rpc\<close>

text \<open>The \<open>Fcall\<close> for a request is a new one; a used one serves as well, its buffer is at least as long.\<close>

definition client :: "nat \<Rightarrow> 'e world \<Rightarrow> chan" where
  "client a w = w_clnts w (f_Clnt (w_fids w a))"

definition Rpc :: "'e server \<Rightarrow> nat \<Rightarrow> Fcall \<Rightarrow> 'e world \<Rightarrow> (perror + Fcall) \<times> 'e world" where
  "Rpc srv n tc w = (case srv n tc (w_env w) of (r, e) \<Rightarrow>
     (case r of
        Inl err \<Rightarrow> Inl err
      | Inr rc \<Rightarrow> (case reply_err (fc_Type tc) rc None of Some err \<Rightarrow> Inl err | None \<Rightarrow> Inr rc),
      w\<lparr>w_env := e\<rparr>))"

text \<open>The test that every operation makes again after \<open>Rpc\<close>.\<close>

definition rerror :: "Fcall \<Rightarrow> perror option" where
  "rerror rc = (if fc_Type rc = Rerror then Some (Error (fc_Error rc) (fc_Errornum rc)) else None)"

text \<open>Pack a request, send it and look at the response; what follows on success is the continuation.\<close>

definition transact :: "'e server \<Rightarrow> nat \<Rightarrow> (Fcall \<Rightarrow> (perror + Fcall) option) \<Rightarrow> (Fcall \<Rightarrow> ('a, 'e) act) \<Rightarrow> ('a, 'e) act" where
  "transact srv n pack k w = do {
     tc \<leftarrow> pack (NewFcall (ch_Msize (w_clnts w n)));
     (case tc of
        Inl err \<Rightarrow> Some (Inl err, w)
      | Inr tc \<Rightarrow> (case Rpc srv n tc w of
          (Inl err, w) \<Rightarrow> Some (Inl err, w)
        | (Inr rc, w) \<Rightarrow> (case rerror rc of Some err \<Rightarrow> Some (Inl err, w) | None \<Rightarrow> k rc w))) }"

subsection \<open>Allocating and clunking\<close>

definition FidAlloc :: "nat \<Rightarrow> 'e world \<Rightarrow> (nat \<times> 'e world) option" where
  "FidAlloc n w = (let ch = w_clnts w n; a = w_fnew w in
     case getId (w_pools w (ch_fidpool ch)) of
       (None, pl) \<Rightarrow> None
     | (Some k, pl) \<Rightarrow> Some (a, set_ch n (\<lambda>ch. ch\<lparr>ch_ref := ch_ref ch + 1\<rparr>)
         (w\<lparr>w_pools := (w_pools w)(ch_fidpool ch := pl), w_fnew := Suc a,
            w_fids := (w_fids w)(a := zero_cfid\<lparr>f_Fid := k, f_Clnt := n, f_User := ch_User ch,
              f_ID := \<lparr>fi_Type = ch_Type ch, fi_Dev = ch_Dev ch, fi_Qid = zero_Qid\<rparr>\<rparr>)\<rparr>)))"

text \<open>
  The error of the \<open>Rpc\<close> is assigned to an inner variable, so that it is lost: the result is the
  error of the packing, or nil.
\<close>

definition Clunk :: "'e server \<Rightarrow> nat \<Rightarrow> 'e world \<Rightarrow> (perror option \<times> 'e world) option" where
  "Clunk srv a w = (let f = w_fids w a; n = f_Clnt f in do {
     (err, w) \<leftarrow> (if f_walked f then do {
         tc \<leftarrow> PackTclunk (NewFcall (ch_Msize (w_clnts w n))) (f_Fid f);
         (case tc of Inl err \<Rightarrow> Some (Some err, w) | Inr tc \<Rightarrow> Some (None, snd (Rpc srv n tc w))) }
       else Some (None, w));
     (case err of
        Some err \<Rightarrow> Some (Some err, w)
      | None \<Rightarrow> do {
          let p = ch_fidpool (w_clnts w n);
          (_, pl) \<leftarrow> putId (f_Fid f) (w_pools w p);
          let w = w\<lparr>w_pools := (w_pools w)(p := pl)\<rparr>;
          let w = set_ch n (\<lambda>ch. ch\<lparr>ch_ref := ch_ref ch - 1\<rparr>) w;
          Some (None, set_f a (\<lambda>f. f\<lparr>f_walked := False, f_Fid := NOFID\<rparr>) w) }) })"

text \<open>\<open>fid.Clunk()\<close> as a statement, before the function returns \<open>r\<close>.\<close>

definition clunk_then :: "'e server \<Rightarrow> nat \<Rightarrow> (perror + 'a) \<Rightarrow> ('a, 'e) act" where
  "clunk_then srv a r w = map_option (\<lambda>(_, w). (r, w)) (Clunk srv a w)"

subsection \<open>Connecting, authenticating, attaching\<close>

text \<open>\<open>Connect\<close> on a client that \<open>NewClnt\<close> has made; \<open>addr\<close> is the text of the address of the connection.\<close>

definition Connect :: "'e server \<Rightarrow> nat \<Rightarrow> string \<Rightarrow> (nat, 'e) act" where
  "Connect srv n addr w = (let w = set_ch n (\<lambda>ch. ch\<lparr>ch_Id := addr @ '':''\<rparr>) w; ch = w_clnts w n in do {
     tc \<leftarrow> PackTversion (NewFcall (ch_Msize ch)) (ch_Msize ch) (if ch_Dotu ch then ''9P2000.u'' else ''9P2000'');
     (case tc of
        Inl err \<Rightarrow> Some (Inl err, w)
      | Inr tc \<Rightarrow> (case Rpc srv n tc w of
          (Inl err, w) \<Rightarrow> Some (Inl err, w)
        | (Inr rc, w) \<Rightarrow> Some (Inr n, set_ch n (\<lambda>ch. ch\<lparr>
             ch_Msize := (if fc_Msize rc < ch_Msize ch then fc_Msize rc else ch_Msize ch),
             ch_Dotu := (fc_Version rc = ''9P2000.u'' \<and> ch_Dotu ch)\<rparr>) w))) })"

definition Auth :: "'e server \<Rightarrow> nat \<Rightarrow> string \<times> u32 \<Rightarrow> string \<Rightarrow> (nat, 'e) act" where
  "Auth srv n user aname w = do {
     (a, w) \<leftarrow> FidAlloc n w;
     let ch = w_clnts w n;
     tc \<leftarrow> PackTauth (NewFcall (ch_Msize ch)) (f_Fid (w_fids w a)) (fst user) aname (snd user) (ch_Dotu ch);
     (case tc of
        Inl err \<Rightarrow> clunk_then srv a (Inl err) w
      | Inr tc \<Rightarrow> (case Rpc srv n tc w of
          (Inl err, w) \<Rightarrow> clunk_then srv a (Inl err) w
        | (Inr rc, w) \<Rightarrow> Some (Inr a, set_f a (\<lambda>f. let id = (f_ID f)\<lparr>fi_Qid := fc_Qid rc\<rparr> in
             f\<lparr>f_ID := id, f_Cname := [aname], f_Path := [id], f_walked := True\<rparr>) w))) }"

definition Attach :: "'e server \<Rightarrow> nat \<Rightarrow> nat option \<Rightarrow> string \<times> u32 \<Rightarrow> string \<Rightarrow> (nat, 'e) act" where
  "Attach srv n afid user aname w = do {
     let afno = (case afid of Some x \<Rightarrow> f_Fid (w_fids w x) | None \<Rightarrow> NOFID);
     (a, w) \<leftarrow> FidAlloc n w;
     let dotu = ch_Dotu (w_clnts w n);
     transact srv n (\<lambda>tc. PackTattach tc (f_Fid (w_fids w a)) afno (fst user) aname (snd user) dotu)
       (\<lambda>rc w. Some (Inr a, set_f a (\<lambda>f. let id = (f_ID f)\<lparr>fi_Qid := fc_Qid rc\<rparr> in
          f\<lparr>f_ID := id, f_Cname := [], f_Path := [id], f_walked := True\<rparr>) w)) w }"

subsection \<open>Walking\<close>

definition fileid_list :: "u16 \<Rightarrow> u32 \<Rightarrow> Qid list \<Rightarrow> FileID list" where
  "fileid_list ty dev qids = map (\<lambda>q. \<lparr>fi_Type = ty, fi_Dev = dev, fi_Qid = q\<rparr>) qids"

definition Fid_Walk :: "'e server \<Rightarrow> nat option \<Rightarrow> nat \<Rightarrow> string list \<Rightarrow> (Qid list, 'e) act" where
  "Fid_Walk srv fid newfid wnames w = (case fid of
     None \<Rightarrow> Some (Inl Ebaduse_fid, w)
   | Some a \<Rightarrow> transact srv (f_Clnt (w_fids w a))
       (\<lambda>tc. PackTwalk tc (f_Fid (w_fids w a)) (f_Fid (w_fids w newfid)) wnames)
       (\<lambda>rc w. Some (Inr (fc_Wqid rc),
          if length (fc_Wqid rc) = length wnames then
            (let f = w_fids w a; qids = fc_Wqid rc;
                 qid = (if qids \<noteq> [] then last qids else fi_Qid (f_ID f));
                 ty = fi_Type (f_ID f) AND NOT NOREMAP; dev = fi_Dev (f_ID f);
                 (cname, path) = PathJoin (f_Cname f) wnames (f_Path f) (fileid_list ty dev qids)
             in set_f newfid (\<lambda>x. x\<lparr>f_Clnt := f_Clnt f, f_ID := \<lparr>fi_Type = ty, fi_Dev = dev, fi_Qid = qid\<rparr>,
                  f_Cname := cname, f_Path := path, f_walked := True\<rparr>) w)
          else w)) w)"

definition Clone :: "'e server \<Rightarrow> nat option \<Rightarrow> bool \<Rightarrow> (nat, 'e) act" where
  "Clone srv fid mntsem w = (case fid of
     None \<Rightarrow> Some (Inl Ebaduse_fid, w)
   | Some a \<Rightarrow> do {
       (b, w) \<leftarrow> FidAlloc (f_Clnt (w_fids w a)) w;
       (r, w) \<leftarrow> Fid_Walk srv (Some a) b [] w;
       (case r of
          Inl err \<Rightarrow> clunk_then srv b (Inl err) w
        | Inr _ \<Rightarrow> Some (Inr b, if mntsem
            then set_f b (\<lambda>x. x\<lparr>f_prev := f_prev (w_fids w a), f_next := f_next (w_fids w a)\<rparr>) w else w)) })"

text \<open>One step; in a union the next member is tried when the name is not found.  The fuel is the length of the union.\<close>

fun Fid_WalkOne :: "nat \<Rightarrow> 'e server \<Rightarrow> nat option \<Rightarrow> string \<Rightarrow> (nat, 'e) act" where
  "Fid_WalkOne k srv None wname w = Some (Inl Ebaduse_fid, w)"
| "Fid_WalkOne 0 srv (Some a) wname w = None"
| "Fid_WalkOne (Suc k) srv (Some a) wname w = do {
     (b, w) \<leftarrow> FidAlloc (f_Clnt (w_fids w a)) w;
     (r, w) \<leftarrow> Fid_Walk srv (Some a) b [wname] w;
     (case r of
        Inr [q] \<Rightarrow> Some (Inr b, w)
      | _ \<Rightarrow> (case f_next (w_fids w a) of
          Some nx \<Rightarrow> do { (_, w) \<leftarrow> Clunk srv b w; Fid_WalkOne k srv (Some nx) wname w }
        | None \<Rightarrow> clunk_then srv b (Inl (case r of Inl err \<Rightarrow> err | Inr _ \<Rightarrow> Enofile)) w)) }"

text \<open>Back to the first member of a union.\<close>

fun union_first :: "nat \<Rightarrow> (nat \<Rightarrow> cfid) \<Rightarrow> nat \<Rightarrow> nat option" where
  "union_first 0 h a = None"
| "union_first (Suc k) h a = (case f_prev (h a) of Some p \<Rightarrow> union_first k h p | None \<Rightarrow> Some a)"

definition MReset :: "'e server \<Rightarrow> nat option \<Rightarrow> (nat, 'e) act" where
  "MReset srv fid w = (case fid of
     None \<Rightarrow> Some (Inl Ebaduse_fid, w)
   | Some f \<Rightarrow> do {
       a \<leftarrow> union_first (w_fnew w) (w_fids w) f;
       (r, w) \<leftarrow> Clone srv (Some a) True w;
       (case r of
          Inl err \<Rightarrow> Some (Inl err, w)
        | Inr b \<Rightarrow> clunk_then srv f (Inr b) w) })"

text \<open>
  \<open>MUntil\<close>: the operation is tried on a clone of every member from this one on, and the fid becomes the
  clone on which it succeeds.  The inner loop returns that member and its clone.
\<close>

fun until_loop :: "nat \<Rightarrow> 'e server \<Rightarrow> (nat \<Rightarrow> (unit, 'e) act) \<Rightarrow> nat \<Rightarrow> (nat \<times> nat, 'e) act" where
  "until_loop 0 srv fn f w = None"
| "until_loop (Suc k) srv fn f w = do {
     (r, w) \<leftarrow> Clone srv (Some f) False w;
     (case r of
        Inl err \<Rightarrow> Some (Inl err, w)
      | Inr fd \<Rightarrow> do {
          (r, w) \<leftarrow> fn fd w;
          (case r of
             Inr _ \<Rightarrow> Some (Inr (f, fd), w)
           | Inl err \<Rightarrow> do {
               (_, w) \<leftarrow> Clunk srv fd w;
               (case f_next (w_fids w f) of
                  Some nx \<Rightarrow> until_loop k srv fn nx w
                | None \<Rightarrow> Some (Inl err, w)) }) }) }"

definition MUntil :: "'e server \<Rightarrow> nat option \<Rightarrow> (nat \<Rightarrow> (unit, 'e) act) \<Rightarrow> (unit, 'e) act" where
  "MUntil srv fid fn w = (case fid of
     None \<Rightarrow> Some (Inl Ebaduse_fid, w)
   | Some a \<Rightarrow>
       if f_next (w_fids w a) \<noteq> None \<or> f_prev (w_fids w a) \<noteq> None then do {
         (r, w) \<leftarrow> until_loop (w_fnew w) srv fn a w;
         (case r of
            Inl err \<Rightarrow> Some (Inl err, w)
          | Inr (f, fd) \<Rightarrow> do {
              let w = set_f fd (\<lambda>x. x\<lparr>f_prev := f_prev (w_fids w f), f_next := f_next (w_fids w f)\<rparr>) w;
              (_, w) \<leftarrow> Clunk srv a w;
              Some (Inr (), set_f a (\<lambda>_. w_fids w fd) w) }) }
       else fn a w)"

end
