(* ===== verification/Chan_File.thy ===== *)
theory Chan_File
  imports Chan_Fid
begin

section \<open>Operations on the files of a server (p/chan9/open.go, read.go, write.go, stat.go, remove.go)\<close>

text \<open>
  The low level operations on a \<open>Fid\<close> send one request; those on a \<open>File\<close>, a fid with an offset,
  may send several.  A \<open>File\<close> is passed along as a value.
\<close>

subsection \<open>Open and create\<close>

text \<open>The largest amount of data for one read or write.\<close>

definition limit_Iounit :: "chan \<Rightarrow> u32 \<Rightarrow> u32" where
  "limit_Iounit ch iounit = (if iounit = 0 \<or> iounit > ch_Msize ch - IOHDRSZ then ch_Msize ch - IOHDRSZ else iounit)"

definition opened :: "nat \<Rightarrow> u8 \<Rightarrow> Fcall \<Rightarrow> (unit, 'e) act" where
  "opened a mode rc w = Some (Inr (), set_f a (\<lambda>f. f\<lparr>f_ID := (f_ID f)\<lparr>fi_Qid := fc_Qid rc\<rparr>,
     f_Iounit := limit_Iounit (client a w) (fc_Iounit rc), f_Mode := mode\<rparr>) w)"

text \<open>A fid that is not in a union; the clones that a union operation works on are such fids.\<close>

definition Open_one :: "'e server \<Rightarrow> u8 \<Rightarrow> nat \<Rightarrow> (unit, 'e) act" where
  "Open_one srv mode a w = transact srv (f_Clnt (w_fids w a)) (\<lambda>tc. PackTopen tc (f_Fid (w_fids w a)) mode)
     (opened a mode) w"

definition Open :: "'e server \<Rightarrow> nat option \<Rightarrow> u8 \<Rightarrow> (unit, 'e) act" where
  "Open srv fid mode w = (case fid of
     None \<Rightarrow> Some (Inl Ebaduse_fid, w)
   | Some a \<Rightarrow>
       if f_next (w_fids w a) \<noteq> None \<or> f_prev (w_fids w a) \<noteq> None
       then MUntil srv fid (Open_one srv mode) w
       else Open_one srv mode a w)"

definition Create_one :: "'e server \<Rightarrow> string \<Rightarrow> u32 \<Rightarrow> u8 \<Rightarrow> string \<Rightarrow> nat \<Rightarrow> (unit, 'e) act" where
  "Create_one srv nm perm mode ext a w = transact srv (f_Clnt (w_fids w a))
     (\<lambda>tc. PackTcreate tc (f_Fid (w_fids w a)) nm perm mode ext (ch_Dotu (client a w))) (opened a mode) w"

text \<open>In a union, the first member from here on that may be created in, or the last member.\<close>

fun may_create :: "nat \<Rightarrow> (nat \<Rightarrow> cfid) \<Rightarrow> nat \<Rightarrow> nat option" where
  "may_create 0 h f = None"
| "may_create (Suc k) h f = (case f_next (h f) of
     None \<Rightarrow> Some f
   | Some nx \<Rightarrow> if f_MayCreate (h f) then Some f else may_create k h nx)"

definition Create :: "'e server \<Rightarrow> nat option \<Rightarrow> string \<Rightarrow> u32 \<Rightarrow> u8 \<Rightarrow> string \<Rightarrow> (unit, 'e) act" where
  "Create srv fid nm perm mode ext w = (case fid of
     None \<Rightarrow> Some (Inl Ebaduse_fid, w)
   | Some a \<Rightarrow>
       if f_prev (w_fids w a) \<noteq> None \<or> f_next (w_fids w a) \<noteq> None then do {
         f \<leftarrow> may_create (w_fnew w) (w_fids w) a;
         (if \<not> f_MayCreate (w_fids w f) then Some (Inl (Error ''No writable directory in union'' ENOENT), w)
          else do {
            (r, w) \<leftarrow> Clone srv (Some f) False w;
            (case r of
               Inl err \<Rightarrow> Some (Inl err, w)
             | Inr nf \<Rightarrow> do {
                 (r, w) \<leftarrow> Create_one srv nm perm mode ext nf w;
                 (case r of
                    Inl err \<Rightarrow> clunk_then srv nf (Inl err) w
                  | Inr _ \<Rightarrow> do {
                      (_, w) \<leftarrow> Clunk srv a w;
                      Some (Inr (), set_f a (\<lambda>_. w_fids w nf) w) }) }) }) }
       else Create_one srv nm perm mode ext a w)"

subsection \<open>Read, write, stat and remove on a fid\<close>

definition Fid_Read :: "'e server \<Rightarrow> nat \<Rightarrow> u64 \<Rightarrow> u32 \<Rightarrow> (bytes, 'e) act" where
  "Fid_Read srv a offset n w = (let f = w_fids w a; cnt = (if n > f_Iounit f then f_Iounit f else n) in
     transact srv (f_Clnt f) (\<lambda>tc. PackTread tc (f_Fid f) offset cnt) (\<lambda>rc w. Some (Inr (fc_Data rc), w)) w)"

definition Fid_Write :: "'e server \<Rightarrow> nat \<Rightarrow> bytes \<Rightarrow> u64 \<Rightarrow> (nat, 'e) act" where
  "Fid_Write srv a data offset w = (let f = w_fids w a;
       data = (if (of_nat (length data) :: u32) > f_Iounit f then take (unat (f_Iounit f)) data else data) in
     transact srv (f_Clnt f) (\<lambda>tc. PackTwrite tc (f_Fid f) offset (of_nat (length data)) data)
       (\<lambda>rc w. Some (Inr (unat (fc_Count rc)), w)) w)"

definition Fid_Stat :: "'e server \<Rightarrow> nat \<Rightarrow> (Dir, 'e) act" where
  "Fid_Stat srv a w = (let f = w_fids w a in
     transact srv (f_Clnt f) (\<lambda>tc. PackTstat tc (f_Fid f)) (\<lambda>rc w. Some (Inr (fc_Dir rc), w)) w)"

definition Fid_Wstat :: "'e server \<Rightarrow> nat \<Rightarrow> Dir \<Rightarrow> (unit, 'e) act" where
  "Fid_Wstat srv a dir w = (let f = w_fids w a in
     transact srv (f_Clnt f) (\<lambda>tc. PackTwstat tc (f_Fid f) dir (ch_Dotu (client a w))) (\<lambda>rc w. Some (Inr (), w)) w)"

text \<open>
  The number of the fid is given back whatever the outcome; then the response is looked at, which is
  nil when \<open>Rpc\<close> has failed before one came.  An error response has a body, so it is returned.
\<close>

definition Fid_Remove :: "'e server \<Rightarrow> nat \<Rightarrow> (unit, 'e) act" where
  "Fid_Remove srv a w = (let f = w_fids w a; n = f_Clnt f in do {
     tc \<leftarrow> PackTremove (NewFcall (ch_Msize (w_clnts w n))) (f_Fid f);
     (case tc of
        Inl err \<Rightarrow> Some (Inl err, w)
      | Inr tc \<Rightarrow> (case srv n tc (w_env w) of (rc, e) \<Rightarrow> do {
          (_, pl) \<leftarrow> putId (f_Fid f) (w_pools w (ch_fidpool (w_clnts w n)));
          let w = set_f a (\<lambda>f. f\<lparr>f_Fid := NOFID\<rparr>)
            (w\<lparr>w_env := e, w_pools := (w_pools w)(ch_fidpool (w_clnts w n) := pl)\<rparr>);
          (case rc of
             Inl _ \<Rightarrow> None
           | Inr rc \<Rightarrow> (case rerror rc of
               Some err \<Rightarrow> Some (Inl err, w)
             | None \<Rightarrow> Some (case reply_err (fc_Type tc) rc None of Some err \<Rightarrow> Inl err | None \<Rightarrow> Inr (), w))) })) })"

subsection \<open>Files\<close>

record cfile =
  fl_Fid :: nat
  fl_Offset :: u64

text \<open>The errors of a \<open>File\<close> operation: \<open>io.EOF\<close>, or those of the fid.\<close>

datatype file_err = EOF | FErr perror

type_synonym ('a, 'e) file_act = "'e world \<Rightarrow> ((file_err + 'a) \<times> 'e world) option"

text \<open>The result of reading into a buffer is the number of bytes and what the buffer holds then.\<close>

definition ReadAt :: "'e server \<Rightarrow> cfile \<Rightarrow> bytes \<Rightarrow> u64 \<Rightarrow> (nat \<times> bytes, 'e) file_act" where
  "ReadAt srv fl buf offset w = do {
     (r, w) \<leftarrow> Fid_Read srv (fl_Fid fl) offset (of_nat (length buf)) w;
     Some (case r of
         Inl err \<Rightarrow> Inl (FErr err)
       | Inr b \<Rightarrow> if b = [] then Inl EOF else Inr (length b, go_copy buf b), w) }"

definition File_Read :: "'e server \<Rightarrow> cfile \<Rightarrow> bytes \<Rightarrow> 'e world \<Rightarrow> ((file_err + nat \<times> bytes) \<times> cfile \<times> 'e world) option" where
  "File_Read srv fl buf w = do {
     (r, w) \<leftarrow> ReadAt srv fl buf (fl_Offset fl) w;
     Some (r, (case r of Inr (n, _) \<Rightarrow> fl\<lparr>fl_Offset := fl_Offset fl + of_nat n\<rparr> | Inl _ \<Rightarrow> fl), w) }"

text \<open>
  \<open>Readn\<close>: the bytes read so far, the rest of the buffer and the offset.  \<open>buf[n:len(buf)]\<close> panics
  when the server has sent more than was asked for; each round that does not end shortens the rest.
\<close>

function Readn_loop :: "'e server \<Rightarrow> cfile \<Rightarrow> bytes \<Rightarrow> bytes \<Rightarrow> u64 \<Rightarrow> (nat \<times> bytes, 'e) file_act" where
  "Readn_loop srv fl got buf offset w = (if buf = [] then Some (Inr (length got, got), w)
     else do {
       (r, w) \<leftarrow> ReadAt srv fl buf offset w;
       (case r of
          Inl err \<Rightarrow> Some (Inl err, w)
        | Inr (n, buf) \<Rightarrow>
            if n = 0 then Some (Inr (length got, got @ buf), w)
            else if n > length buf then None
            else Readn_loop srv fl (got @ take n buf) (drop n buf) (offset + of_nat n) w) })"
  by pat_completeness auto
termination
  by (relation "measure (\<lambda>(srv, fl, got, buf, offset, w). length buf)")
     (auto simp: ReadAt_def split: Option.bind_splits sum.splits if_splits)

definition Readn :: "'e server \<Rightarrow> cfile \<Rightarrow> bytes \<Rightarrow> u64 \<Rightarrow> (nat \<times> bytes, 'e) file_act" where
  "Readn srv fl buf offset w = Readn_loop srv fl [] buf offset w"

definition WriteAt :: "'e server \<Rightarrow> cfile \<Rightarrow> bytes \<Rightarrow> u64 \<Rightarrow> (nat, 'e) act" where
  "WriteAt srv fl buf offset w = Fid_Write srv (fl_Fid fl) buf offset w"

definition File_Write :: "'e server \<Rightarrow> cfile \<Rightarrow> bytes \<Rightarrow> 'e world \<Rightarrow> ((perror + nat) \<times> cfile \<times> 'e world) option" where
  "File_Write srv fl buf w = do {
     (r, w) \<leftarrow> WriteAt srv fl buf (fl_Offset fl) w;
     Some (r, (case r of Inr n \<Rightarrow> fl\<lparr>fl_Offset := fl_Offset fl + of_nat n\<rparr> | Inl _ \<Rightarrow> fl), w) }"

text \<open>\<open>Writen\<close> returns the number of bytes written also with an error.\<close>

function Writen_loop :: "'e server \<Rightarrow> cfile \<Rightarrow> nat \<Rightarrow> bytes \<Rightarrow> u64 \<Rightarrow> 'e world \<Rightarrow> ((nat \<times> perror option) \<times> 'e world) option" where
  "Writen_loop srv fl ret buf offset w = (if buf = [] then Some ((ret, None), w)
     else do {
       (r, w) \<leftarrow> WriteAt srv fl buf offset w;
       (case r of
          Inl err \<Rightarrow> Some ((ret, Some err), w)
        | Inr n \<Rightarrow>
            if n = 0 then Some ((ret, None), w)
            else if n > length buf then None
            else Writen_loop srv fl (ret + n) (drop n buf) (offset + of_nat n) w) })"
  by pat_completeness auto
termination by (relation "measure (\<lambda>(srv, fl, ret, buf, offset, w). length buf)") auto

definition Writen :: "'e server \<Rightarrow> cfile \<Rightarrow> bytes \<Rightarrow> u64 \<Rightarrow> 'e world \<Rightarrow> ((nat \<times> perror option) \<times> 'e world) option" where
  "Writen srv fl buf offset w = Writen_loop srv fl 0 buf offset w"

definition Close :: "'e server \<Rightarrow> cfile \<Rightarrow> 'e world \<Rightarrow> (perror option \<times> 'e world) option" where
  "Close srv fl w = Clunk srv (fl_Fid fl) w"

subsection \<open>Reading a directory\<close>

text \<open>
  The entries in a chunk.  \<open>d.Size+2\<close> is a 16-bit sum; the \<open>break\<close> when \<open>num\<close> entries have been read
  leaves this loop only.
\<close>

function unpack_entries :: "bool \<Rightarrow> nat \<Rightarrow> Dir list \<Rightarrow> bytes \<Rightarrow> (perror + Dir list) option" where
  "unpack_entries dotu num dirs b = (if b = [] then Some (Inr dirs)
     else do {
       r \<leftarrow> UnpackDir b dotu;
       (case r of
          Inl err \<Rightarrow> Some (Inl err)
        | Inr d \<Rightarrow> (let k = unat (dir_Size d + 2) in
            if k > length b \<or> k = 0 then None
            else if num \<noteq> 0 \<and> length (dirs @ [d]) \<ge> num then Some (Inr (dirs @ [d]))
            else unpack_entries dotu num (dirs @ [d]) (drop k b))) })"
  by pat_completeness auto
termination by (relation "measure (\<lambda>(dotu, num, dirs, b). length b)") auto

declare Readn_loop.simps [simp del] Writen_loop.simps [simp del] unpack_entries.simps [simp del]

text \<open>
  The outer loop; each round is one \<open>Read\<close>, or a step to the next member of a union.  The rounds are
  bounded by fuel, since the server decides when the file ends.
\<close>

fun Readdir_loop :: "nat \<Rightarrow> 'e server \<Rightarrow> nat \<Rightarrow> Dir list \<Rightarrow> cfile \<Rightarrow> bytes \<Rightarrow> 'e world \<Rightarrow> ((perror + Dir list) \<times> cfile \<times> 'e world) option" where
  "Readdir_loop 0 srv num dirs fl buf w = None"
| "Readdir_loop (Suc k) srv num dirs fl buf w = do {
     (r, fl, w) \<leftarrow> File_Read srv fl buf w;
     (case r of
        Inl (FErr err) \<Rightarrow> Some (Inl err, fl, w)
      | Inl EOF \<Rightarrow> (case f_next (w_fids w (fl_Fid fl)) of
          None \<Rightarrow> Some (Inr dirs, fl, w)
        | Some nx \<Rightarrow> do {
            (r, w) \<leftarrow> Clone srv (Some nx) True w;
            (case r of
               Inl err \<Rightarrow> Some (Inl err, fl, w)
             | Inr fid \<Rightarrow> do {
                 (r, w) \<leftarrow> Open srv (Some fid) OREAD w;
                 (case r of
                    Inl err \<Rightarrow> map_option (\<lambda>(_, w). (Inl err, fl, w)) (Clunk srv fid w)
                  | Inr _ \<Rightarrow> do {
                      (_, w) \<leftarrow> Clunk srv (fl_Fid fl) w;
                      Readdir_loop k srv num dirs \<lparr>fl_Fid = fid, fl_Offset = 0\<rparr>
                        (replicate (unat (ch_Msize (client fid w) - IOHDRSZ)) 0) w }) }) })
      | Inr (n, buf) \<Rightarrow>
          if n > length buf then None
          else do {
            r \<leftarrow> unpack_entries (ch_Dotu (client (fl_Fid fl) w)) num dirs (take n buf);
            (case r of
               Inl err \<Rightarrow> Some (Inl err, fl, w)
             | Inr dirs \<Rightarrow> Readdir_loop k srv num dirs fl buf w) }) }"

definition Readdir :: "nat \<Rightarrow> 'e server \<Rightarrow> nat \<Rightarrow> cfile \<Rightarrow> 'e world \<Rightarrow> ((perror + Dir list) \<times> cfile \<times> 'e world) option" where
  "Readdir k srv num fl w =
     Readdir_loop k srv num [] fl (replicate (unat (ch_Msize (client (fl_Fid fl) w) - IOHDRSZ)) 0) w"

end
