(* ===== verification/Chan_Mnttab.thy ===== *)
theory Chan_Mnttab
  imports Chan_Fid
begin

section \<open>The mount table (p/chan9/mnttab.go)\<close>

text \<open>
  \<open>Children\<close> maps a directory to the union that is mounted on it, a list of fids linked by
  \<open>prev\<close> and \<open>next\<close>; \<open>Parents\<close> maps a mounted directory back to the fids it is mounted on.  For every
  device, \<open>FromDev\<close> and \<open>ToDev\<close> list the mounts that start and end on it; \<open>rm_mnt\<close> uses them to remove the
  mounts of a device that is no longer reachable.  Their nodes live in the heap \<open>m_nodes\<close>.  An absent
  key of \<open>Children\<close> is the outer \<open>None\<close>, which the code tells apart from a nil union.
\<close>

record mntstack =
  s_parent :: FileID
  s_child :: FileID
  s_next :: "nat option"
  s_prev :: "nat option"

record mnttab =
  m_Parents :: "FileID \<Rightarrow> nat list"
  m_Children :: "FileID \<Rightarrow> nat option option"
  m_FromDev :: "u32 \<Rightarrow> nat option"
  m_ToDev :: "u32 \<Rightarrow> nat option"
  m_Root :: u32
  m_nodes :: "nat \<Rightarrow> mntstack"
  m_nnew :: nat

definition NewMnttab :: "u32 \<Rightarrow> mnttab" where
  "NewMnttab dev = \<lparr>m_Parents = (\<lambda>_. []), m_Children = (\<lambda>_. None), m_FromDev = (\<lambda>_. None), m_ToDev = (\<lambda>_. None),
     m_Root = dev, m_nodes = (\<lambda>_. \<lparr>s_parent = zero_FileID, s_child = zero_FileID, s_next = None, s_prev = None\<rparr>),
     m_nnew = 0\<rparr>"

definition FileID_String :: "FileID \<Rightarrow> string" where
  "FileID_String f = (if fi_Type f AND NOREMAP \<noteq> 0 then ''*'' else '''')
     @ (if fi_Type f AND NOT NOREMAP \<noteq> 0 then ''('' @ fmt_d (unat (fi_Type f)) @ '')'' else '''')
     @ fmt_d (unat (fi_Dev f)) @ '':'' @ fmt_d (unat (qid_Path (fi_Qid f)))
     @ (if qid_Version (fi_Qid f) \<noteq> 0 then ''.'' @ fmt_d (unat (qid_Version (fi_Qid f))) else '''')"

subsection \<open>The lists of mounts\<close>

definition set_n :: "nat \<Rightarrow> (mntstack \<Rightarrow> mntstack) \<Rightarrow> mnttab \<Rightarrow> mnttab" where
  "set_n a g m = m\<lparr>m_nodes := (m_nodes m)(a := g (m_nodes m a))\<rparr>"

lemma set_n_simps [simp]:
  "m_nodes (set_n a g m) = (m_nodes m)(a := g (m_nodes m a))" "m_nnew (set_n a g m) = m_nnew m"
  "m_Parents (set_n a g m) = m_Parents m" "m_Children (set_n a g m) = m_Children m"
  "m_FromDev (set_n a g m) = m_FromDev m" "m_ToDev (set_n a g m) = m_ToDev m" "m_Root (set_n a g m) = m_Root m"
  by (simp_all add: set_n_def)

definition push :: "nat option \<Rightarrow> FileID \<Rightarrow> FileID \<Rightarrow> mnttab \<Rightarrow> nat \<times> mnttab" where
  "push s parent child m = (let sp = m_nnew m;
       m = m\<lparr>m_nnew := Suc sp, m_nodes := (m_nodes m)(sp := \<lparr>s_parent = parent, s_child = child, s_next = s, s_prev = None\<rparr>)\<rparr>
     in (sp, case s of Some a \<Rightarrow> set_n a (\<lambda>n. n\<lparr>s_prev := Some sp\<rparr>) m | None \<Rightarrow> m))"

fun stack_end :: "nat \<Rightarrow> (nat \<Rightarrow> mntstack) \<Rightarrow> nat \<Rightarrow> nat option" where
  "stack_end 0 h s = None"
| "stack_end (Suc k) h s = (case s_next (h s) of None \<Rightarrow> Some s | Some nx \<Rightarrow> stack_end k h nx)"

definition app :: "nat option \<Rightarrow> nat option \<Rightarrow> mnttab \<Rightarrow> (nat option \<times> mnttab) option" where
  "app s sp m = (case s of
     None \<Rightarrow> Some (sp, m)
   | Some a \<Rightarrow> do {
       e \<leftarrow> stack_end (m_nnew m) (m_nodes m) a;
       Some (s, set_n e (\<lambda>n. n\<lparr>s_next := sp\<rparr>) m) })"

text \<open>The first node with this parent and child, behind the head.\<close>

fun stack_find :: "nat \<Rightarrow> (nat \<Rightarrow> mntstack) \<Rightarrow> FileID \<Rightarrow> FileID \<Rightarrow> nat option \<Rightarrow> nat option option" where
  "stack_find k h parent child None = Some None"
| "stack_find 0 h parent child (Some s) = None"
| "stack_find (Suc k) h parent child (Some s) =
    (if s_parent (h s) = parent \<and> s_child (h s) = child then Some (Some s)
     else stack_find k h parent child (s_next (h s)))"

text \<open>An absent node is reported on the terminal only.\<close>

definition remove_from :: "nat option \<Rightarrow> FileID \<Rightarrow> FileID \<Rightarrow> mnttab \<Rightarrow> (nat option \<times> mnttab) option" where
  "remove_from s parent child m = (case s of
     None \<Rightarrow> Some (None, m)
   | Some a \<Rightarrow>
       if s_parent (m_nodes m a) = parent \<and> s_child (m_nodes m a) = child then
         (let next = s_next (m_nodes m a) in
          Some (next, case next of Some b \<Rightarrow> set_n b (\<lambda>n. n\<lparr>s_prev := s_prev (m_nodes m a)\<rparr>) m | None \<Rightarrow> m))
       else do {
         f \<leftarrow> stack_find (m_nnew m) (m_nodes m) parent child (s_next (m_nodes m a));
         Some (s, case f of
             None \<Rightarrow> m
           | Some b \<Rightarrow> (let q = m_nodes m b;
                 m = (case s_prev q of Some c \<Rightarrow> set_n c (\<lambda>n. n\<lparr>s_next := s_next q\<rparr>) m | None \<Rightarrow> m)
               in case s_next q of Some c \<Rightarrow> set_n c (\<lambda>n. n\<lparr>s_prev := s_prev q\<rparr>) m | None \<Rightarrow> m)) })"

subsection \<open>The lists of fids\<close>

text \<open>The first fid with this id is clunked and taken out of the slice.\<close>

fun remove_from_sl :: "'e server \<Rightarrow> nat list \<Rightarrow> FileID \<Rightarrow> 'e world \<Rightarrow> (nat list \<times> 'e world) option" where
  "remove_from_sl srv [] val w = Some ([], w)"
| "remove_from_sl srv (v # vs) val w =
    (if f_ID (w_fids w v) = val then map_option (\<lambda>(_, w). (vs, w)) (Clunk srv v w)
     else map_option (\<lambda>(vs, w). (v # vs, w)) (remove_from_sl srv vs val w))"

fun union_find :: "nat \<Rightarrow> (nat \<Rightarrow> cfid) \<Rightarrow> FileID \<Rightarrow> nat option \<Rightarrow> nat option option" where
  "union_find k h v None = Some None"
| "union_find 0 h v (Some s) = None"
| "union_find (Suc k) h v (Some s) = (if f_ID (h s) = v then Some (Some s) else union_find k h v (f_next (h s)))"

definition clunk_if :: "'e server \<Rightarrow> bool \<Rightarrow> nat \<Rightarrow> 'e world \<Rightarrow> 'e world option" where
  "clunk_if srv clunk s w = (if clunk then map_option snd (Clunk srv s w) else Some w)"

definition remove_from_union :: "'e server \<Rightarrow> nat option \<Rightarrow> FileID \<Rightarrow> bool \<Rightarrow> 'e world \<Rightarrow> (nat option \<times> 'e world) option" where
  "remove_from_union srv s v clunk w = (case s of
     None \<Rightarrow> Some (None, w)
   | Some a \<Rightarrow>
       if f_ID (w_fids w a) = v then
         (let next = f_next (w_fids w a);
              w = (case next of Some b \<Rightarrow> set_f b (\<lambda>n. n\<lparr>f_prev := f_prev (w_fids w a)\<rparr>) w | None \<Rightarrow> w)
          in map_option (Pair next) (clunk_if srv clunk a w))
       else do {
         f \<leftarrow> union_find (w_fnew w) (w_fids w) v (f_next (w_fids w a));
         (case f of
            None \<Rightarrow> Some (s, w)
          | Some b \<Rightarrow> (let q = w_fids w b;
                w = (case f_prev q of Some c \<Rightarrow> set_f c (\<lambda>n. n\<lparr>f_next := f_next q\<rparr>) w | None \<Rightarrow> w);
                w = (case f_next q of Some c \<Rightarrow> set_f c (\<lambda>n. n\<lparr>f_prev := f_prev q\<rparr>) w | None \<Rightarrow> w)
              in map_option (Pair s) (clunk_if srv clunk b w))) })"

definition children :: "mnttab \<Rightarrow> FileID \<Rightarrow> nat option" where
  "children m pid = (case m_Children m pid of Some c \<Rightarrow> c | None \<Rightarrow> None)"

subsection \<open>Removing mounts\<close>

text \<open>
  Every mount of the list is taken out of the four tables.  When it was the last one onto the device of
  its child, the mounts that start on that device are tacked on to the list being worked off.
\<close>

definition rm_one :: "'e server \<Rightarrow> nat \<Rightarrow> mnttab \<times> 'e world \<Rightarrow> (mnttab \<times> 'e world) option" where
  "rm_one srv s mw = (case mw of (m, w) \<Rightarrow> (let p = s_parent (m_nodes m s); c = s_child (m_nodes m s) in do {
     (x, m) \<leftarrow> remove_from (m_FromDev m (fi_Dev p)) p c m;
     let m = m\<lparr>m_FromDev := (m_FromDev m)(fi_Dev p := x)\<rparr>;
     (x, m) \<leftarrow> remove_from (m_ToDev m (fi_Dev c)) p c m;
     let m = m\<lparr>m_ToDev := (m_ToDev m)(fi_Dev c := x)\<rparr>;
     (_, m) \<leftarrow> (if fi_Dev c \<noteq> m_Root m \<and> m_ToDev m (fi_Dev c) = None
                then app (Some s) (m_FromDev m (fi_Dev c)) m else Some (Some s, m));
     (ps, w) \<leftarrow> remove_from_sl srv (m_Parents m c) p w;
     let m = m\<lparr>m_Parents := (m_Parents m)(c := ps)\<rparr>;
     (cl, w) \<leftarrow> (if fi_Type p AND NOREMAP \<noteq> 0 then remove_from_union srv (children m p) p False w
                 else Some (children m p, w));
     (cl, w) \<leftarrow> remove_from_union srv cl c True w;
     Some (m\<lparr>m_Children := (m_Children m)(p := Some cl)\<rparr>, w) }))"

fun rm_mnt :: "nat \<Rightarrow> 'e server \<Rightarrow> nat option \<Rightarrow> mnttab \<times> 'e world \<Rightarrow> (mnttab \<times> 'e world) option" where
  "rm_mnt k srv None mw = Some mw"
| "rm_mnt 0 srv (Some s) mw = None"
| "rm_mnt (Suc k) srv (Some s) mw = do {
     mw \<leftarrow> rm_one srv s mw;
     rm_mnt k srv (s_next (m_nodes (fst mw) s)) mw }"

text \<open>With no child, a list of one mount is made of the head of the union; the loop behind it only walks \<open>c\<close>
  to the end of the union.\<close>

definition Umount :: "nat \<Rightarrow> 'e server \<Rightarrow> nat option \<Rightarrow> nat option \<Rightarrow> mnttab \<times> 'e world \<Rightarrow> (perror option \<times> mnttab \<times> 'e world) option" where
  "Umount k srv child parent mw = (case mw of (m, w) \<Rightarrow>
     (let (child, parent) = (case parent of None \<Rightarrow> (None, child) | Some _ \<Rightarrow> (child, parent)) in
      case parent of
        None \<Rightarrow> Some (Some Ebaduse_fid, m, w)
      | Some p \<Rightarrow> (let pid = f_ID (w_fids w p) in do {
          (_, w) \<leftarrow> Clunk srv p w;
          (case m_Children m pid of
             None \<Rightarrow> Some (Some (Error ''mount not found'' ENOENT), m, w)
           | Some c \<Rightarrow> do {
               (s, m, w) \<leftarrow> (case child of
                   None \<Rightarrow> (case c of
                       None \<Rightarrow> None
                     | Some h \<Rightarrow> (case push None pid (f_ID (w_fids w h)) m of (s, m) \<Rightarrow> Some (s, m, w)))
                 | Some ch \<Rightarrow> (let cid = f_ID (w_fids w ch); s = m_nnew m;
                       m = m\<lparr>m_nnew := Suc s, m_nodes := (m_nodes m)(s := \<lparr>s_parent = pid, s_child = cid, s_next = None, s_prev = None\<rparr>)\<rparr>
                     in map_option (\<lambda>(_, w). (s, m, w)) (Clunk srv ch w)));
               map_option (Pair None) (rm_mnt k srv (Some s) (m, w)) }) })))"

subsection \<open>Mounting\<close>

definition mount_check :: "mnttab \<Rightarrow> cfid \<Rightarrow> cfid \<Rightarrow> u32 \<Rightarrow> perror option" where
  "mount_check m ch par flags = (let pt = qid_Type (fi_Qid (f_ID par)) AND QTDIR; ct = qid_Type (fi_Qid (f_ID ch)) AND QTDIR in
     if pt = 0 \<and> flags AND MORDER \<noteq> MREPL then Some (Error ''Cannot union mount a file, only a dir.'' EINVAL)
     else if pt XOR ct \<noteq> 0 then Some (Error ''Parent and child must both be either files or dirs.'' EINVAL)
     else if f_prev par \<noteq> None \<or> f_next par \<noteq> None then Some (Error ''Cannot mount from a union, only a single fileid.'' EINVAL)
     else if f_prev ch \<noteq> None \<or> f_next ch \<noteq> None then Some (Error ''Cannot mount a union, only a single fileid.'' EINVAL)
     else if fi_Dev (f_ID par) \<noteq> m_Root m \<and> m_ToDev m (fi_Dev (f_ID par)) = None
       then Some (Error ''Cannot mount from a nonexistent device'' ENOSYS)
     else None)"

text \<open>The mounts of a union as a list to be removed, and those of its members but the last with a given id.\<close>

fun push_all :: "nat \<Rightarrow> (nat \<Rightarrow> cfid) \<Rightarrow> FileID \<Rightarrow> nat option \<Rightarrow> nat option \<Rightarrow> mnttab \<Rightarrow> (nat option \<times> mnttab) option" where
  "push_all k h pid None s m = Some (s, m)"
| "push_all 0 h pid (Some c) s m = None"
| "push_all (Suc k) h pid (Some c) s m = (case push s pid (f_ID (h c)) m of (s, m) \<Rightarrow>
     push_all k h pid (f_next (h c)) (Some s) m)"

fun push_dups :: "nat \<Rightarrow> (nat \<Rightarrow> cfid) \<Rightarrow> FileID \<Rightarrow> FileID \<Rightarrow> nat \<Rightarrow> nat option \<Rightarrow> mnttab \<Rightarrow> (nat \<times> nat option \<times> mnttab) option" where
  "push_dups 0 h pid cid lst s m = None"
| "push_dups (Suc k) h pid cid lst s m = (case f_next (h lst) of
     None \<Rightarrow> Some (lst, s, m)
   | Some nx \<Rightarrow> (case (if f_ID (h lst) = cid then (case push s pid cid m of (s, m) \<Rightarrow> (Some s, m)) else (s, m)) of
       (s, m) \<Rightarrow> push_dups k h pid cid nx s m))"

text \<open>The new mount is entered into the tables of the devices and of the parents.\<close>

definition enter_mount :: "nat \<Rightarrow> FileID \<Rightarrow> FileID \<Rightarrow> mnttab \<Rightarrow> mnttab" where
  "enter_mount par pid cid m = (
     let (s, m) = push (m_FromDev m (fi_Dev pid)) pid cid m;
         m = m\<lparr>m_FromDev := (m_FromDev m)(fi_Dev pid := Some s)\<rparr>;
         (s, m) = push (m_ToDev m (fi_Dev cid)) pid cid m;
         m = m\<lparr>m_ToDev := (m_ToDev m)(fi_Dev cid := Some s)\<rparr>
     in m\<lparr>m_Parents := (m_Parents m)(cid := m_Parents m cid @ [par])\<rparr>)"

definition or_Type :: "u16 \<Rightarrow> cfid \<Rightarrow> cfid" where
  "or_Type t f = f\<lparr>f_ID := (f_ID f)\<lparr>fi_Type := fi_Type (f_ID f) OR t\<rparr>\<rparr>"

definition Mnt_Mount :: "nat \<Rightarrow> 'e server \<Rightarrow> nat option \<Rightarrow> nat option \<Rightarrow> u32 \<Rightarrow> mnttab \<times> 'e world \<Rightarrow> (perror option \<times> mnttab \<times> 'e world) option" where
  "Mnt_Mount k srv child parent flags mw = (case mw of (m, w) \<Rightarrow>
     (case (parent, child) of
        (None, None) \<Rightarrow> Some (Some Ebaduse_fid, m, w)
      | (None, Some ch) \<Rightarrow> map_option (\<lambda>(_, w). (Some Ebaduse_fid, m, w)) (Clunk srv ch w)
      | (Some par, None) \<Rightarrow> map_option (\<lambda>(_, w). (Some Ebaduse_fid, m, w)) (Clunk srv par w)
      | (Some par, Some ch) \<Rightarrow>
          (case mount_check m (w_fids w ch) (w_fids w par) flags of
             Some err \<Rightarrow> do {
               (_, w) \<leftarrow> Clunk srv ch w;
               (_, w) \<leftarrow> Clunk srv par w;
               Some (Some err, m, w) }
           | None \<Rightarrow> (let pid = f_ID (w_fids w par); cid = f_ID (w_fids w ch); hd = children m pid;
                 w = (if hd = None \<and> flags AND MORDER \<noteq> MREPL then set_f par (or_Type NOREMAP) w else w);
                 w = set_f ch (\<lambda>f. f\<lparr>f_MayCreate := (flags AND MCREATE \<noteq> 0), f_MayCache := (flags AND MCACHE \<noteq> 0)\<rparr>) w;
                 m = enter_mount par pid cid m
               in if flags AND MORDER = MREPL then do {
                    (s, m) \<leftarrow> push_all (w_fnew w) (w_fids w) pid hd None m;
                    (m, w) \<leftarrow> rm_mnt k srv s (m, w);
                    let w = (if pid = cid then set_f ch (or_Type NOREMAP) w else w);
                    Some (None, m\<lparr>m_Children := (m_Children m)(pid := Some (Some ch))\<rparr>, w) }
                  else do {
                    (hd, lst, m, w) \<leftarrow> (case hd of
                        None \<Rightarrow> Some (par, par, m\<lparr>m_Children := (m_Children m)(pid := Some (Some par))\<rparr>,
                          set_f par (\<lambda>f. (or_Type NOREMAP f)\<lparr>f_MayCreate := True, f_MayCache := f_MayCache (w_fids w ch)\<rparr>) w)
                      | Some h \<Rightarrow> do {
                          (lst, s, m) \<leftarrow> push_dups (w_fnew w) (w_fids w) pid cid h None m;
                          (m, w) \<leftarrow> rm_mnt k srv s (m, w);
                          Some (h, lst, m, w) });
                    Some (None,
                      if flags AND MORDER = MAFTER then
                        (m, set_f lst (\<lambda>f. f\<lparr>f_next := Some ch\<rparr>) (set_f ch (\<lambda>f. f\<lparr>f_prev := Some lst\<rparr>) w))
                      else if flags AND MORDER = MBEFORE then
                        (m\<lparr>m_Children := (m_Children m)(pid := Some (Some ch))\<rparr>, set_f ch (\<lambda>f. f\<lparr>f_next := Some hd\<rparr>) w)
                      else (m, w)) }))))"

subsection \<open>Looking mounts up\<close>

definition CheckMount :: "mnttab \<Rightarrow> FileID \<Rightarrow> nat option" where
  "CheckMount m fid = children m fid"

definition CheckParent :: "mnttab \<Rightarrow> 'e world \<Rightarrow> FileID \<Rightarrow> FileID \<Rightarrow> nat option" where
  "CheckParent m w parent child = (let mask = (\<lambda>p. p\<lparr>fi_Type := fi_Type p OR NOREMAP\<rparr>) in
     List.find (\<lambda>p. mask (f_ID (w_fids w p)) = mask parent) (m_Parents m child))"

definition Mounted :: "mnttab \<Rightarrow> FileID \<Rightarrow> nat list" where
  "Mounted m fid = m_Parents m fid"

end
