(* ===== verification/Chan_Ns.thy ===== *)
theory Chan_Ns
  imports Chan_File Chan_Mnttab
begin

section \<open>Namespaces (p/chan9/walk.go, ns.go, mount.go, and the operations by name)\<close>

text \<open>
  A namespace is a root, a current directory and a mount table over the fids of several clients.  The
  operations that look a name up walk from one of the two fids, step over to the mounted fid
  where the table has one, and try the next member of a union where a walk fails.

  \<open>ns_Walk\<close> may return a nil fid without an error, so that its result is an option; a caller that
  calls a method of it then passes a nil receiver.  The loop takes its fuel as an argument: one round
  for every member of a union that fails and for every block of names, so that as many as
  \<open>(length wnames + 1) * (card L + length wnames + 1)\<close> are enough with \<open>L\<close> the fids in use.
\<close>

record 'e namespace =
  ns_Mnt :: mnttab
  ns_Root :: nat
  ns_Cwd :: "nat option"
  ns_fidpool :: nat
  ns_w :: "'e world"

subsection \<open>Walking\<close>

definition WalkDotDot :: "'e server \<Rightarrow> mnttab \<Rightarrow> nat option \<Rightarrow> (nat, 'e) act" where
  "WalkDotDot srv m fid w = (case fid of
     None \<Rightarrow> Some (Inl Ebaduse_fid, w)
   | Some a \<Rightarrow> (let pth = f_Path (w_fids w a); l = length pth in
       if l < 2 then Clone srv fid True w
       else (case CheckParent m w (pth ! (l - 1)) (f_ID (w_fids w a)) of
           None \<Rightarrow> Fid_WalkOne (w_fnew w) srv fid ''..'' w
         | Some p \<Rightarrow> do {
             (r, w) \<leftarrow> Fid_WalkOne (w_fnew w) srv (Some p) ''..'' w;
             (case r of
                Inl err \<Rightarrow> Some (Inl err, w)
              | Inr b \<Rightarrow> Some (Inr b, set_f b (\<lambda>f. f\<lparr>f_Path := take (l - 1) pth\<rparr>) w)) })))"

definition ns_WalkOne :: "'e server \<Rightarrow> mnttab \<Rightarrow> nat option \<Rightarrow> string \<Rightarrow> (nat, 'e) act" where
  "ns_WalkOne srv m fid wname w = (if wname = ''..'' then WalkDotDot srv m fid w
     else Fid_WalkOne (w_fnew w) srv fid wname w)"

text \<open>The first file on the way that something is mounted on: its index, and the mounted fid.\<close>

fun first_mount :: "mnttab \<Rightarrow> u16 \<Rightarrow> u32 \<Rightarrow> Qid list \<Rightarrow> (nat \<times> nat) option" where
  "first_mount m ty dev [] = None"
| "first_mount m ty dev (q # qs) = (case CheckMount m \<lparr>fi_Type = ty, fi_Dev = dev, fi_Qid = q\<rparr> of
     Some c \<Rightarrow> Some (0, c)
   | None \<Rightarrow> map_option (map_prod Suc id) (first_mount m ty dev qs))"

text \<open>The blocks of at most 16 names.  A server that answers with more qids than names makes \<open>wnames[n:]\<close> panic.\<close>

fun walk_blocks :: "nat \<Rightarrow> 'e server \<Rightarrow> mnttab \<Rightarrow> nat \<Rightarrow> nat \<Rightarrow> FileID list \<Rightarrow> string list \<Rightarrow> (nat option, 'e) act" where
  "walk_blocks 0 srv m fid newfid pth wnames w = None"
| "walk_blocks (Suc k) srv m fid newfid pth wnames w = (
     let n = min (length wnames) 16; f = w_fids w fid; ty = fi_Type (f_ID f) AND NOT NOREMAP; dev = fi_Dev (f_ID f) in do {
     (r, w) \<leftarrow> Fid_Walk srv (Some fid) newfid (take n wnames) w;
     let wqid = (case r of Inr qs \<Rightarrow> qs | Inl _ \<Rightarrow> []);
     (if (case r of Inl _ \<Rightarrow> True | Inr qs \<Rightarrow> n > 0 \<and> qs = []) then
        (case f_next (w_fids w fid) of
           Some nx \<Rightarrow> do {
             (_, w) \<leftarrow> Clunk srv newfid w;
             (newfid, w) \<leftarrow> FidAlloc (f_Clnt (w_fids w nx)) w;
             walk_blocks k srv m nx newfid pth wnames w }
         | None \<Rightarrow> clunk_then srv newfid (case r of Inl err \<Rightarrow> Inl err | Inr _ \<Rightarrow> Inr None) w)
      else do {
        let w = (if wnames = [] then set_f newfid (\<lambda>x. x\<lparr>f_next := f_next (w_fids w fid), f_prev := f_prev (w_fids w fid)\<rparr>) w
                 else w);
        (case first_mount m (fi_Type (f_ID (w_fids w fid))) (fi_Dev (f_ID (w_fids w fid))) wqid of
           Some (i, c) \<Rightarrow> if i + 1 > length wnames then None else do {
             (_, w) \<leftarrow> Clunk srv newfid w;
             (newfid, w) \<leftarrow> FidAlloc (f_Clnt (w_fids w c)) w;
             walk_blocks k srv m c newfid (pth @ fileid_list ty dev (take (i + 1) wqid)) (drop (i + 1) wnames) w }
         | None \<Rightarrow>
             if length wqid \<noteq> n then clunk_then srv newfid (Inl Enofile) w
             else (let pth = pth @ fileid_list ty dev wqid; wnames = drop n wnames in
               if wnames = [] then Some (Inr (Some newfid), set_f newfid (\<lambda>x. x\<lparr>f_Path := pth\<rparr>) w)
               else walk_blocks k srv m newfid newfid pth wnames w)) }) })"

fun ns_Walk :: "nat \<Rightarrow> 'e server \<Rightarrow> mnttab \<Rightarrow> nat option \<Rightarrow> string list \<Rightarrow> (nat option, 'e) act" where
  "ns_Walk k srv m None wnames w = Some (Inl Ebaduse_fid, w)"
| "ns_Walk k srv m (Some a) wnames w = (case wnames of
     nm # rest \<Rightarrow>
       if nm = ''..'' then do {
         (r, w) \<leftarrow> WalkDotDot srv m (Some a) w;
         (case r of
            Inl err \<Rightarrow> Some (Inl err, w)
          | Inr b \<Rightarrow> do {
              (r, w) \<leftarrow> ns_Walk k srv m (Some b) rest w;
              clunk_then srv b r w }) }
       else do {
         (newfid, w) \<leftarrow> FidAlloc (f_Clnt (w_fids w a)) w;
         walk_blocks k srv m a newfid (f_Path (w_fids w a)) wnames w }
   | [] \<Rightarrow> do {
       (newfid, w) \<leftarrow> FidAlloc (f_Clnt (w_fids w a)) w;
       walk_blocks k srv m a newfid (f_Path (w_fids w a)) wnames w })"

definition start_fid :: "'e namespace \<Rightarrow> Elemlist \<Rightarrow> nat option option" where
  "start_fid ns e = (if Ref e = CHR ''/'' then Some (Some (ns_Root ns)) else if Ref e = CHR ''.'' then Some (ns_Cwd ns) else None)"

definition FWalk :: "nat \<Rightarrow> 'e server \<Rightarrow> 'e namespace \<Rightarrow> Elemlist \<Rightarrow> (nat option, 'e) act" where
  "FWalk k srv ns e w = (case start_fid ns e of
     None \<Rightarrow> Some (Inl Enofile, w)
   | Some fid \<Rightarrow> ns_Walk k srv (ns_Mnt ns) fid (Elems e) w)"

text \<open>The last element is not replaced by what is mounted on it.  The fid of the directory before it is not clunked.\<close>

definition FWalkTo :: "nat \<Rightarrow> 'e server \<Rightarrow> 'e namespace \<Rightarrow> Elemlist \<Rightarrow> (nat, 'e) act" where
  "FWalkTo k srv ns e w = (case start_fid ns e of
     None \<Rightarrow> Some (Inl Enofile, w)
   | Some fid \<Rightarrow> (case Elems e of
       [] \<Rightarrow> Clone srv fid False w
     | [nm] \<Rightarrow> ns_WalkOne srv (ns_Mnt ns) fid nm w
     | _ \<Rightarrow> do {
         (r, w) \<leftarrow> ns_Walk k srv (ns_Mnt ns) fid (butlast (Elems e)) w;
         (case r of
            Inl err \<Rightarrow> Some (Inl err, w)
          | Inr d \<Rightarrow> ns_WalkOne srv (ns_Mnt ns) d (last (Elems e)) w) }))"

subsection \<open>Making a namespace, changing the directory\<close>

type_synonym ('a, 'e) ns_act = "'e namespace \<Rightarrow> ('a \<times> 'e namespace) option"

definition NSFromClnt :: "nat \<Rightarrow> 'e server \<Rightarrow> nat \<Rightarrow> nat option \<Rightarrow> string \<Rightarrow> 'e world \<Rightarrow> ((perror + 'e namespace) \<times> 'e world) option" where
  "NSFromClnt k srv n afd aname w = do {
     (r, w) \<leftarrow> Attach srv n afd (ch_User (w_clnts w n)) aname w;
     (case r of
        Inl err \<Rightarrow> Some (Inl err, w)
      | Inr fid \<Rightarrow> do {
          let m = NewMnttab (ch_Dev (w_clnts w n));
          (r, w) \<leftarrow> ns_Walk k srv m (Some fid) [] w;
          (case r of
             Inl err \<Rightarrow> Some (Inl err, w)
           | Inr cwd \<Rightarrow> Some (Inr \<lparr>ns_Mnt = m, ns_Root = fid, ns_Cwd = cwd,
               ns_fidpool = ch_fidpool (w_clnts w n), ns_w = w\<rparr>, w)) }) }"

definition Cd :: "nat \<Rightarrow> 'e server \<Rightarrow> string \<Rightarrow> (perror option, 'e) ns_act" where
  "Cd k srv dir ns = do {
     (r, w) \<leftarrow> FWalk k srv ns (ParseName dir) (ns_w ns);
     (case r of
        Inl err \<Rightarrow> Some (Some err, ns\<lparr>ns_w := w\<rparr>)
      | Inr fid \<Rightarrow> do {
          cwd \<leftarrow> ns_Cwd ns;
          (_, w) \<leftarrow> Clunk srv cwd w;
          Some (None, ns\<lparr>ns_Cwd := fid, ns_w := w\<rparr>) }) }"

subsection \<open>Mounting\<close>

text \<open>\<open>bad\<close> is the exit of \<open>Mount\<close> that clunks the fid of the mounted server.\<close>

definition bad :: "'e server \<Rightarrow> nat \<Rightarrow> perror \<Rightarrow> 'e world \<Rightarrow> (perror option, 'e) ns_act" where
  "bad srv fid err w ns = map_option (\<lambda>(_, w). (Some err, ns\<lparr>ns_w := w\<rparr>)) (Clunk srv fid w)"

definition ns_Mount :: "nat \<Rightarrow> 'e server \<Rightarrow> nat \<Rightarrow> nat option \<Rightarrow> string \<Rightarrow> u32 \<Rightarrow> string \<Rightarrow> (perror option, 'e) ns_act" where
  "ns_Mount k srv n afd oldloc flags aname ns = (if flags > MMASK - 1 then Some (Some (Error ''bad mount flags'' EINVAL), ns)
     else do {
       let sub = ch_Subpath (w_clnts (ns_w ns) n);
       (r, w) \<leftarrow> Attach srv n afd (ch_User (w_clnts (ns_w ns) n)) aname (ns_w ns);
       (case r of
          Inl err \<Rightarrow> Some (Some err, ns\<lparr>ns_w := w\<rparr>)
        | Inr fid \<Rightarrow> do {
            (r, w) \<leftarrow> (if sub = [] then Some (Inr [], w) else Fid_Walk srv (Some fid) fid sub w);
            (case r of
               Inl err \<Rightarrow> bad srv fid err w ns
             | Inr qids \<Rightarrow>
                 if length qids \<noteq> length sub then bad srv fid (Error ''subpath not found on client'' ENOENT) w ns
                 else do {
                   (r, w) \<leftarrow> FWalkTo k srv ns (ParseName oldloc) w;
                   (case r of
                      Inl err \<Rightarrow> bad srv fid err w ns
                    | Inr parent \<Rightarrow> do {
                        let w = set_f fid (\<lambda>f. f\<lparr>f_Cname := (ch_Id (w_clnts w n) @ ''!'') # sub\<rparr>) w;
                        (err, m, w) \<leftarrow> Mnt_Mount k srv (Some fid) (Some parent) flags (ns_Mnt ns, w);
                        (case err of
                           Some err \<Rightarrow> do {
                             (_, w) \<leftarrow> Clunk srv parent w;
                             bad srv fid err w (ns\<lparr>ns_Mnt := m\<rparr>) }
                         | None \<Rightarrow> Some (None, ns\<lparr>ns_Mnt := m, ns_w := set_ch n (\<lambda>ch. ch\<lparr>ch_fidpool := ns_fidpool ns\<rparr>) w\<rparr>)) }) }) }) })"

definition Bind :: "nat \<Rightarrow> 'e server \<Rightarrow> string \<Rightarrow> string \<Rightarrow> u32 \<Rightarrow> (perror option, 'e) ns_act" where
  "Bind k srv cname pname flags ns = (if flags > MMASK - 1 then Some (Some (Error ''bad bind flags'' EINVAL), ns)
     else do {
       (r, w) \<leftarrow> FWalkTo k srv ns (ParseName pname) (ns_w ns);
       (case r of
          Inl err \<Rightarrow> Some (Some err, ns\<lparr>ns_w := w\<rparr>)
        | Inr parent \<Rightarrow> do {
            (r, w) \<leftarrow> FWalkTo k srv ns (ParseName cname) w;
            (case r of
               Inl err \<Rightarrow> Some (Some err, ns\<lparr>ns_w := w\<rparr>)
             | Inr child \<Rightarrow>
                 if flags AND MORDER = MREPL \<and> f_ID (w_fids w parent) = f_ID (w_fids w (ns_Root ns)) then do {
                   let m = (ns_Mnt ns)\<lparr>m_Root := fi_Dev (f_ID (w_fids w child))\<rparr>;
                   (_, w) \<leftarrow> Clunk srv (ns_Root ns) w;
                   (_, w) \<leftarrow> Clunk srv parent w;
                   Some (None, ns\<lparr>ns_Mnt := m, ns_Root := child, ns_w := w\<rparr>) }
                 else do {
                   (err, m, w) \<leftarrow> Mnt_Mount k srv (Some child) (Some parent) flags (ns_Mnt ns, w);
                   Some (err, ns\<lparr>ns_Mnt := m, ns_w := w\<rparr>) }) }) })"

definition ns_Umount :: "nat \<Rightarrow> 'e server \<Rightarrow> string \<Rightarrow> string \<Rightarrow> (perror option, 'e) ns_act" where
  "ns_Umount k srv cname pname ns = do {
     (r, w) \<leftarrow> FWalkTo k srv ns (ParseName pname) (ns_w ns);
     (case r of
        Inl err \<Rightarrow> Some (Some err, ns\<lparr>ns_w := w\<rparr>)
      | Inr parent \<Rightarrow> do {
          (r, w) \<leftarrow> FWalkTo k srv ns (ParseName cname) w;
          (case r of
             Inl err \<Rightarrow> Some (Some err, ns\<lparr>ns_w := w\<rparr>)
           | Inr child \<Rightarrow> do {
               (err, m, w) \<leftarrow> Umount k srv (Some child) (Some parent) (ns_Mnt ns, w);
               Some (err, ns\<lparr>ns_Mnt := m, ns_w := w\<rparr>) }) }) }"

text \<open>The names mounted on a place, along its union.\<close>

fun union_names :: "nat \<Rightarrow> (nat \<Rightarrow> cfid) \<Rightarrow> nat option \<Rightarrow> string list option" where
  "union_names k h None = Some []"
| "union_names 0 h (Some c) = None"
| "union_names (Suc k) h (Some c) = map_option (Cons (join_slash (f_Cname (h c)))) (union_names k h (f_next (h c)))"

definition LsMounts :: "nat \<Rightarrow> 'e server \<Rightarrow> string \<Rightarrow> ((perror + string list \<times> string list), 'e) ns_act" where
  "LsMounts k srv pth ns = do {
     (r, w) \<leftarrow> FWalkTo k srv ns (ParseName pth) (ns_w ns);
     (case r of
        Inl err \<Rightarrow> Some (Inl err, ns\<lparr>ns_w := w\<rparr>)
      | Inr fid \<Rightarrow> do {
          let ps = map (\<lambda>p. join_slash (f_Cname (w_fids w p))) (Mounted (ns_Mnt ns) (f_ID (w_fids w fid)));
          cs \<leftarrow> union_names (w_fnew w) (w_fids w) (CheckMount (ns_Mnt ns) (f_ID (w_fids w fid)));
          (_, w) \<leftarrow> Clunk srv fid w;
          Some (Inr (ps, cs), ns\<lparr>ns_w := w\<rparr>) }) }"

subsection \<open>Operations by name\<close>

text \<open>A method of a nil fid: \<open>Open\<close> and \<open>Create\<close> return an error, \<open>Clunk\<close>, \<open>Stat\<close> and \<open>Remove\<close> panic.\<close>

definition FOpen :: "nat \<Rightarrow> 'e server \<Rightarrow> 'e namespace \<Rightarrow> Elemlist \<Rightarrow> u8 \<Rightarrow> (cfile, 'e) act" where
  "FOpen k srv ns pth mode w = do {
     (r, w) \<leftarrow> FWalk k srv ns pth w;
     (case r of
        Inl err \<Rightarrow> Some (Inl err, w)
      | Inr fid \<Rightarrow> do {
          (r, w) \<leftarrow> Open srv fid mode w;
          a \<leftarrow> fid;
          (case r of
             Inl err \<Rightarrow> clunk_then srv a (Inl err) w
           | Inr _ \<Rightarrow> Some (Inr \<lparr>fl_Fid = a, fl_Offset = 0\<rparr>, w)) }) }"

definition FCreate :: "nat \<Rightarrow> 'e server \<Rightarrow> 'e namespace \<Rightarrow> Elemlist \<Rightarrow> u32 \<Rightarrow> u8 \<Rightarrow> (cfile, 'e) act" where
  "FCreate k srv ns e perm mode w = (if Elems e = [] \<or> last (Elems e) = ''..'' then Some (Inl (Error ''invalid pth'' ENOENT), w)
     else do {
       let perm = (if Mustbedir e then perm OR DMDIR else perm);
       let nm = last (Elems e);
       (r, w) \<leftarrow> FWalk k srv ns (e\<lparr>Elems := butlast (Elems e)\<rparr>) w;
       (case r of
          Inl err \<Rightarrow> Some (Inl err, w)
        | Inr fid \<Rightarrow> do {
            (r, w) \<leftarrow> Create srv fid nm perm mode [] w;
            a \<leftarrow> fid;
            (case r of
               Inl err \<Rightarrow> clunk_then srv a (Inl err) w
             | Inr _ \<Rightarrow> Some (Inr \<lparr>fl_Fid = a, fl_Offset = 0\<rparr>, w)) }) })"

definition FStat :: "nat \<Rightarrow> 'e server \<Rightarrow> 'e namespace \<Rightarrow> Elemlist \<Rightarrow> (Dir, 'e) act" where
  "FStat k srv ns pth w = do {
     (r, w) \<leftarrow> FWalk k srv ns pth w;
     (case r of
        Inl err \<Rightarrow> Some (Inl err, w)
      | Inr fid \<Rightarrow> do {
          a \<leftarrow> fid;
          (d, w) \<leftarrow> Fid_Stat srv a w;
          clunk_then srv a d w }) }"

definition FRemove :: "nat \<Rightarrow> 'e server \<Rightarrow> 'e namespace \<Rightarrow> Elemlist \<Rightarrow> (unit, 'e) act" where
  "FRemove k srv ns pth w = do {
     (r, w) \<leftarrow> FWalk k srv ns pth w;
     (case r of
        Inl err \<Rightarrow> Some (Inl err, w)
      | Inr fid \<Rightarrow> do {
          a \<leftarrow> fid;
          (r, w) \<leftarrow> Fid_Remove srv a w;
          Some (r, set_ch (f_Clnt (w_fids w a)) (\<lambda>ch. ch\<lparr>ch_ref := ch_ref ch - 1\<rparr>) w) }) }"

end
