(* ===== verification/Chan_Serve.thy ===== *)
theory Chan_Serve
  imports Chan_File P9_Wire
begin

section \<open>A client and a server that answers messages\<close>

text \<open>
  What the operations of the client need of the other end: a message that is sent as a well-formed packet
  is answered, and the response that \<open>recv\<close> unpacks is the answer.  The locale states this as a
  contract, in terms of the abstract messages.  Any function from messages to messages keeps it when
  packets are unpacked by \<open>Unpack\<close> and answers are packed by the packing functions.
\<close>

definition on_wire :: "msg \<Rightarrow> bool \<Rightarrow> bool" where
  "on_wire m dotu \<longleftrightarrow> msg_ok m dotu \<and> (m = MRwstat \<longrightarrow> dotu)"

locale msg_server =
  fixes srv :: "'e server" and answer :: "nat \<Rightarrow> msg \<Rightarrow> 'e \<Rightarrow> msg \<times> 'e" and dotu :: bool and rmax :: u32
  assumes answers: "on_wire m dotu \<Longrightarrow> fc_Pkt tc = frame m dotu NOTAG \<Longrightarrow> answer n (wire_msg m dotu) e = (m', e') \<Longrightarrow>
    on_wire m' dotu \<Longrightarrow> 7 + length (body m' dotu) \<le> unat rmax \<Longrightarrow>
    \<exists>rc. srv n tc e = (Inr rc, e') \<and> read_msg rc = Some (wire_msg m' dotu)"

subsection \<open>The interface kept by the codec\<close>

text \<open>What cannot be unpacked or packed breaks the connection.\<close>

definition wire_srv :: "bool \<Rightarrow> u32 \<Rightarrow> (nat \<Rightarrow> msg \<Rightarrow> 'e \<Rightarrow> msg \<times> 'e) \<Rightarrow> 'e server" where
  "wire_srv dotu rmax answer n tc e = (case Unpack (fc_Pkt tc) dotu of
     Some (Inr (fc, _)) \<Rightarrow> (case read_msg fc of
         Some m \<Rightarrow> (case answer n m e of (m', e') \<Rightarrow>
           (case pack_msg m' (NewFcall rmax) dotu of
              Some (Inr rc) \<Rightarrow> (case Unpack (fc_Pkt rc) dotu of
                  Some (Inr (rc, _)) \<Rightarrow> (Inr rc, e')
                | _ \<Rightarrow> (Inl (Error ''connection broken'' EIO), e'))
            | _ \<Rightarrow> (Inl (Error ''connection broken'' EIO), e')))
       | None \<Rightarrow> (Inl (Error ''connection broken'' EIO), e))
   | _ \<Rightarrow> (Inl (Error ''connection broken'' EIO), e))"

lemma Unpack_frame_msg:
  assumes "on_wire m dotu"
  obtains fc k where "Unpack (frame m dotu tag) dotu = Some (Inr (fc, k))" "read_msg fc = Some (wire_msg m dotu)"
  using Unpack_msg [of m dotu tag "[]"] assms by (auto simp: on_wire_def)

interpretation wire: msg_server "wire_srv dotu rmax answer" answer dotu rmax
proof
  fix m :: msg and tc :: Fcall and n m' and e e' :: 'a
  assume m: "on_wire m dotu" and pkt: "fc_Pkt tc = frame m dotu NOTAG" and a: "answer n (wire_msg m dotu) e = (m', e')"
    and m': "on_wire m' dotu" "7 + length (body m' dotu) \<le> unat rmax"
  obtain fc k where "Unpack (frame m dotu NOTAG) dotu = Some (Inr (fc, k))" "read_msg fc = Some (wire_msg m dotu)"
    by (rule Unpack_frame_msg [OF m])
  moreover obtain rc where "pack_msg m' (NewFcall rmax) dotu = Some (Inr rc)" "fc_Pkt rc = frame m' dotu NOTAG"
    using pack_msg_frame [of m' dotu "NewFcall rmax"] m' by (auto simp: on_wire_def NewFcall_def)
  moreover obtain rc' k' where "Unpack (frame m' dotu NOTAG) dotu = Some (Inr (rc', k'))" "read_msg rc' = Some (wire_msg m' dotu)"
    by (rule Unpack_frame_msg [OF m'(1)])
  ultimately show "\<exists>rc. wire_srv dotu rmax answer n tc e = (Inr rc, e') \<and> read_msg rc = Some (wire_msg m' dotu)"
    using pkt a by (simp add: wire_srv_def)
qed

subsection \<open>One request\<close>

lemma read_msg_type: "read_msg fc = Some m \<Longrightarrow> fc_Type fc = mtype m"
  by (auto simp: read_msg_def Let_def split: if_splits)

lemma read_msg_error: "read_msg fc = Some (MRerror s no) \<Longrightarrow> fc_Error fc = s \<and> fc_Errornum fc = no"
  by (auto simp: read_msg_def Let_def split: if_splits)

lemma wire_msg_type [simp]: "mtype (wire_msg m dotu) = mtype m"
  by (cases m) simp_all

context msg_server
begin

lemma exchange:
  assumes m: "on_wire m dotu" "7 + length (body m dotu) \<le> unat msize" and a: "answer n (wire_msg m dotu) e = (m', e')"
    and m': "on_wire m' dotu" "7 + length (body m' dotu) \<le> unat rmax"
  obtains tc rc where "pack_msg m (NewFcall msize) dotu = Some (Inr tc)" "fc_Type tc = mtype m"
    "srv n tc e = (Inr rc, e')" "read_msg rc = Some (wire_msg m' dotu)" "fc_Type rc = mtype m'"
proof -
  obtain tc where tc: "pack_msg m (NewFcall msize) dotu = Some (Inr tc)"
      "fc_Pkt tc = frame m dotu NOTAG" "fc_Type tc = mtype m"
    using pack_msg_frame [of m dotu "NewFcall msize"] m by (auto simp: on_wire_def NewFcall_def)
  obtain rc where rc: "srv n tc e = (Inr rc, e')" "read_msg rc = Some (wire_msg m' dotu)"
    using answers [OF m(1) tc(2) a m'] by blast
  then show ?thesis using that tc read_msg_type [OF rc(2)] by simp
qed

text \<open>The error of a response is the one that was sent.\<close>

lemma error_reply:
  assumes "read_msg rc = Some (wire_msg (MRerror s no) dotu)" "fc_Type tc \<noteq> Terror"
  shows "reply_err (fc_Type tc) rc None = Some (Error s (if dotu then no else 0))"
proof -
  have "fc_Type rc = Rerror" using read_msg_type [OF assms(1)] by simp
  moreover have "fc_Type tc \<noteq> Rerror - 1" using assms(2) by (simp add: msg_type_defs)
  ultimately show ?thesis
    using read_msg_error [of rc s "if dotu then no else 0"] assms(1) by (simp add: reply_err_def)
qed

text \<open>The answer of the right type reaches the continuation, an error becomes the result.\<close>

lemma transact_answer:
  assumes pack: "\<And>fc. pack fc = pack_msg m fc dotu" and m: "on_wire m dotu"
    and fit: "7 + length (body m dotu) \<le> unat (ch_Msize (w_clnts w n))"
    and a: "answer n (wire_msg m dotu) (w_env w) = (m', e')" and m': "on_wire m' dotu" "7 + length (body m' dotu) \<le> unat rmax"
    and ty: "mtype m' = mtype m + 1" "mtype m' \<noteq> Rerror"
  shows "\<exists>rc. read_msg rc = Some (wire_msg m' dotu) \<and> transact srv n pack k w = k rc (w\<lparr>w_env := e'\<rparr>)"
proof -
  obtain tc rc where x: "pack_msg m (NewFcall (ch_Msize (w_clnts w n))) dotu = Some (Inr tc)" "fc_Type tc = mtype m"
      "srv n tc (w_env w) = (Inr rc, e')" "read_msg rc = Some (wire_msg m' dotu)" "fc_Type rc = mtype m'"
    by (rule exchange [OF m fit a m'])
  then have "reply_err (fc_Type tc) rc None = None" "rerror rc = None"
    using ty by (simp_all add: reply_err_None rerror_def)
  then show ?thesis using x by (intro exI [of _ rc]) (simp add: transact_def pack Rpc_def)
qed

lemma transact_error:
  assumes pack: "\<And>fc. pack fc = pack_msg m fc dotu" and m: "on_wire m dotu" and ty: "mtype m \<noteq> Terror"
    and fit: "7 + length (body m dotu) \<le> unat (ch_Msize (w_clnts w n))"
    and a: "answer n (wire_msg m dotu) (w_env w) = (MRerror s no, e')" and m': "on_wire (MRerror s no) dotu"
    and l: "7 + length (body (MRerror s no) dotu) \<le> unat rmax"
  shows "transact srv n pack k w = Some (Inl (Error s (if dotu then no else 0)), w\<lparr>w_env := e'\<rparr>)"
proof -
  obtain tc rc where x: "pack_msg m (NewFcall (ch_Msize (w_clnts w n))) dotu = Some (Inr tc)" "fc_Type tc = mtype m"
      "srv n tc (w_env w) = (Inr rc, e')" "read_msg rc = Some (wire_msg (MRerror s no) dotu)"
    by (rule exchange [OF m fit a m' l])
  then show ?thesis using error_reply [OF x(4), of tc] ty by (simp add: transact_def pack Rpc_def)
qed

end

end
