(* ===== verification/Chan_Io.thy ===== *)
theory Chan_Io
  imports Chan_Serve
begin

section \<open>Reading and writing whole buffers (File.Readn, File.Writen)\<close>

text \<open>
  A server that keeps the contents of a file may write and read less than it is asked for; \<open>Writen\<close> and
  \<open>Readn\<close> repeat their requests until the whole buffer is done.
\<close>

subsection \<open>A file on a server\<close>

text \<open>
  The contract of a file, in states in which \<open>I\<close> holds: a write stores a non-empty prefix of its data, a
  read returns a prefix of what is there, which is empty only at the end of the file.
\<close>

definition stores :: "(nat \<Rightarrow> msg \<Rightarrow> 'e \<Rightarrow> msg \<times> 'e) \<Rightarrow> nat \<Rightarrow> u32 \<Rightarrow> ('e \<Rightarrow> bool) \<Rightarrow> ('e \<Rightarrow> bytes) \<Rightarrow> bool" where
  "stores answer n k I content \<longleftrightarrow> (\<forall>off data e. I e \<and> data \<noteq> [] \<and> length data < 2 ^ 32 \<and> unat off + length data < 2 ^ 64 \<longrightarrow>
     (\<exists>c e'. answer n (MTwrite k off data) e = (MRwrite c, e') \<and> I e' \<and> 0 < unat c \<and> unat c \<le> length data
        \<and> content e' = overwrite (content e) (unat off) (take (unat c) data)))"

definition shows_file :: "(nat \<Rightarrow> msg \<Rightarrow> 'e \<Rightarrow> msg \<times> 'e) \<Rightarrow> nat \<Rightarrow> u32 \<Rightarrow> ('e \<Rightarrow> bool) \<Rightarrow> ('e \<Rightarrow> bytes) \<Rightarrow> bool" where
  "shows_file answer n k I content \<longleftrightarrow> (\<forall>off cnt e. I e \<and> unat off + unat cnt < 2 ^ 64 \<longrightarrow> (\<exists>b.
     answer n (MTread k off cnt) e = (MRread b, e) \<and> length b \<le> unat cnt
     \<and> b = take (length b) (drop (unat off) (content e))
     \<and> (b = [] \<longrightarrow> cnt = 0 \<or> length (content e) \<le> unat off)))"

text \<open>A fid on such a file that is open, with room for the messages.\<close>

definition ready :: "'e world \<Rightarrow> nat \<Rightarrow> nat \<Rightarrow> u32 \<Rightarrow> u32 \<Rightarrow> bool" where
  "ready w a n k rmax \<longleftrightarrow> f_Clnt (w_fids w a) = n \<and> f_Fid (w_fids w a) = k \<and> f_Iounit (w_fids w a) \<noteq> 0
     \<and> unat (f_Iounit (w_fids w a)) + 24 \<le> unat (ch_Msize (w_clnts w n))
     \<and> unat (f_Iounit (w_fids w a)) + 24 \<le> unat rmax"

lemma ready_env [simp]: "ready (w\<lparr>w_env := e\<rparr>) a n k rmax = ready w a n k rmax"
  by (simp add: ready_def)

lemma word_pos: "0 < unat c \<longleftrightarrow> c \<noteq> 0" for c :: u32
  by (simp add: unat_eq_0 neq0_conv [symmetric] del: neq0_conv)

context msg_server
begin

lemma Fid_Write_ok:
  assumes s: "stores answer n k I content" "I (w_env w)" and r: "ready w a n k rmax"
    and d: "data \<noteq> []" "length data < 2 ^ 32" "unat off + length data < 2 ^ 64"
  shows "\<exists>c e. Fid_Write srv a data off w = Some (Inr c, w\<lparr>w_env := e\<rparr>) \<and> I e \<and> 0 < c \<and> c \<le> length data
    \<and> content e = overwrite (content (w_env w)) (unat off) (take c data)"
proof -
  let ?u = "f_Iounit (w_fids w a)"
  define x where "x = (if (of_nat (length data) :: u32) > ?u then take (unat ?u) data else data)"
  have l: "unat (of_nat (length data) :: u32) = length data"
    using d(2) by (simp only: unsigned_of_nat) (simp add: take_bit_nat_eq_self)
  then have x: "x = take (min (unat ?u) (length data)) data" by (auto simp: x_def word_less_nat_alt min_def)
  have u: "0 < unat ?u" "unat ?u + 24 \<le> unat (ch_Msize (w_clnts w n))"
    using r by (simp_all add: ready_def word_pos)
  then have "x \<noteq> []" using d(1) by (simp add: x)
  moreover have "length x < 2 ^ 32" "unat off + length x < 2 ^ 64" using d(2,3) by (auto simp: x)
  ultimately obtain c e where c: "answer n (MTwrite k off x) (w_env w) = (MRwrite c, e)" "0 < unat c" "unat c \<le> length x"
      "content e = overwrite (content (w_env w)) (unat off) (take (unat c) x)" "I e"
    using s unfolding stores_def by metis
  have lx: "length x \<le> unat ?u" "length x \<le> length data" by (auto simp: x)
  have w32: "unat (ch_Msize (w_clnts w n)) < 2 ^ 32" using unsigned_less [of "ch_Msize (w_clnts w n)", where ?'a = nat] by simp
  have "\<exists>rc. read_msg rc = Some (wire_msg (MRwrite c) dotu)
      \<and> transact srv n (\<lambda>tc. PackTwrite tc k off (of_nat (length x)) x) (\<lambda>rc w. Some (Inr (unat (fc_Count rc)), w)) w
        = Some (Inr (unat (fc_Count rc)), w\<lparr>w_env := e\<rparr>)"
  proof (rule transact_answer [where m = "MTwrite k off x" and m' = "MRwrite c"])
    show "on_wire (MTwrite k off x) dotu" using lx u w32 by (simp add: on_wire_def msg_ok_def)
    show "7 + length (body (MTwrite k off x) dotu) \<le> unat (ch_Msize (w_clnts w n))" using lx u by simp
    show "7 + length (body (MRwrite c) dotu) \<le> unat rmax" using r by (simp add: ready_def)
  qed (use c in \<open>simp_all add: on_wire_def msg_ok_def msg_type_defs\<close>)
  then obtain rc where rc: "read_msg rc = Some (MRwrite c)"
      "transact srv n (\<lambda>tc. PackTwrite tc k off (of_nat (length x)) x) (\<lambda>rc w. Some (Inr (unat (fc_Count rc)), w)) w
        = Some (Inr (unat (fc_Count rc)), w\<lparr>w_env := e\<rparr>)"
    by auto
  have "fc_Count rc = c" using rc(1) by (auto simp: read_msg_def Let_def split: if_splits)
  then have "Fid_Write srv a data off w = Some (Inr (unat c), w\<lparr>w_env := e\<rparr>)"
    using rc(2) r by (simp add: Fid_Write_def Let_def ready_def x_def)
  moreover have "take (unat c) x = take (unat c) data" using c(3) by (simp add: x)
  ultimately show ?thesis using c lx by auto
qed

lemma Fid_Read_ok:
  assumes s: "shows_file answer n k I content" "I (w_env w)" "unat off + unat cnt < 2 ^ 64" and r: "ready w a n k rmax"
  shows "\<exists>b. Fid_Read srv a off cnt w = Some (Inr b, w) \<and> length b \<le> unat cnt
    \<and> b = take (length b) (drop (unat off) (content (w_env w)))
    \<and> (b = [] \<longrightarrow> cnt = 0 \<or> length (content (w_env w)) \<le> unat off)"
proof -
  let ?u = "f_Iounit (w_fids w a)"
  define x where "x = (if cnt > ?u then ?u else cnt)"
  have u: "?u \<noteq> 0" "unat ?u + 24 \<le> unat (ch_Msize (w_clnts w n))" "unat ?u + 24 \<le> unat rmax"
    using r by (simp_all add: ready_def)
  have x: "unat x \<le> unat ?u" "unat x \<le> unat cnt" "x = 0 \<longleftrightarrow> cnt = 0"
    using u(1) by (auto simp: x_def word_le_nat_alt word_less_nat_alt)
  obtain b where b: "answer n (MTread k off x) (w_env w) = (MRread b, w_env w)" "length b \<le> unat x"
      "b = take (length b) (drop (unat off) (content (w_env w)))" "b = [] \<longrightarrow> x = 0 \<or> length (content (w_env w)) \<le> unat off"
  proof -
    have "unat off + unat x < 2 ^ 64" using s(3) x(2) by simp
    then show thesis using s(1,2) that unfolding shows_file_def by metis
  qed
  have w32: "unat rmax < 2 ^ 32" using unsigned_less [of rmax, where ?'a = nat] by simp
  have "\<exists>rc. read_msg rc = Some (wire_msg (MRread b) dotu)
      \<and> transact srv n (\<lambda>tc. PackTread tc k off x) (\<lambda>rc w. Some (Inr (fc_Data rc), w)) w = Some (Inr (fc_Data rc), w\<lparr>w_env := w_env w\<rparr>)"
  proof (rule transact_answer [where m = "MTread k off x" and m' = "MRread b"])
    show "on_wire (MRread b) dotu" using b(2) x(1) u(3) w32 by (simp add: on_wire_def msg_ok_def)
    show "7 + length (body (MRread b) dotu) \<le> unat rmax" using b(2) x(1) u(3) by simp
    show "7 + length (body (MTread k off x) dotu) \<le> unat (ch_Msize (w_clnts w n))" using u(2) by simp
  qed (use b in \<open>simp_all add: on_wire_def msg_ok_def msg_type_defs\<close>)
  then obtain rc where rc: "read_msg rc = Some (MRread b)"
      "transact srv n (\<lambda>tc. PackTread tc k off x) (\<lambda>rc w. Some (Inr (fc_Data rc), w)) w = Some (Inr (fc_Data rc), w)"
    by auto
  have "fc_Data rc = b" using rc(1) by (auto simp: read_msg_def Let_def split: if_splits)
  then have "Fid_Read srv a off cnt w = Some (Inr b, w)"
    using rc(2) r by (simp add: Fid_Read_def Let_def ready_def x_def)
  then show ?thesis using b x by auto
qed

lemma Writen_loop_ok:
  assumes "stores answer n k I content" "ready w (fl_Fid fl) n k rmax"
    and "length buf < 2 ^ 32" "unat off + length buf < 2 ^ 64" "I (w_env w)"
  shows "\<exists>e. Writen_loop srv fl ret buf off w = Some ((ret + length buf, None), w\<lparr>w_env := e\<rparr>) \<and> I e
    \<and> (buf \<noteq> [] \<longrightarrow> content e = overwrite (content (w_env w)) (unat off) buf) \<and> (buf = [] \<longrightarrow> e = w_env w)"
  using assms(2-)
proof (induction "length buf" arbitrary: buf ret off w rule: less_induct)
  case less
  show ?case
  proof (cases "buf = []")
    case True
    then show ?thesis using less.prems(4) by (simp add: Writen_loop.simps [of _ _ _ "[]"])
  next
    case False
    obtain c e where c: "Fid_Write srv (fl_Fid fl) buf off w = Some (Inr c, w\<lparr>w_env := e\<rparr>)" "0 < c" "c \<le> length buf"
        "content e = overwrite (content (w_env w)) (unat off) (take c buf)" "I e"
      using Fid_Write_ok [OF assms(1) less.prems(4,1) False less.prems(2,3)] by blast
    have off: "unat (off + of_nat c) = unat off + c"
      using c(3) less.prems(3) by (simp add: unat_word_ariths unsigned_of_nat take_bit_nat_eq_self)
    have lt: "length (drop c buf) < length buf" "length (drop c buf) < 2 ^ 32" "unat off + c + length (drop c buf) < 2 ^ 64"
      using c(2,3) less.prems by simp_all
    obtain e' where e': "Writen_loop srv fl (ret + c) (drop c buf) (off + of_nat c) (w\<lparr>w_env := e\<rparr>)
          = Some ((ret + c + length (drop c buf), None), w\<lparr>w_env := e'\<rparr>)"
        "drop c buf \<noteq> [] \<longrightarrow> content e' = overwrite (content e) (unat off + c) (drop c buf)"
        "drop c buf = [] \<longrightarrow> e' = e" "I e'"
      using less.hyps [of "drop c buf" "w\<lparr>w_env := e\<rparr>" "off + of_nat c" "ret + c"] c(2,3,5) less.prems False lt
      by (auto simp: off)
    have "Writen_loop srv fl ret buf off w = Writen_loop srv fl (ret + c) (drop c buf) (off + of_nat c) (w\<lparr>w_env := e\<rparr>)"
      using False c(1-3) by (subst Writen_loop.simps) (simp add: WriteAt_def)
    moreover have "content e' = overwrite (content (w_env w)) (unat off) buf"
    proof (cases "drop c buf = []")
      case True
      then show ?thesis using e'(3) c(4) by simp
    next
      case False
      then have "content e' = overwrite (overwrite (content (w_env w)) (unat off) (take c buf)) (unat off + length (take c buf)) (drop c buf)"
        using e'(2) c(3,4) by simp
      then show ?thesis by (simp only: overwrite_append append_take_drop_id)
    qed
    ultimately show ?thesis using e'(1,4) c(3) False by auto
  qed
qed

text \<open>Reading stops with an error at the end of the file, whatever was read before.\<close>

lemma Readn_loop_ok:
  assumes "shows_file answer n k I content" "ready w (fl_Fid fl) n k rmax" "I (w_env w)"
    and "length buf < 2 ^ 32" "unat off + length buf < 2 ^ 64"
  shows "Readn_loop srv fl got buf off w = Some
    (if unat off + length buf \<le> length (content (w_env w)) \<or> buf = []
     then Inr (length got + length buf, got @ take (length buf) (drop (unat off) (content (w_env w))))
     else Inl EOF, w)"
  using assms(4-)
proof (induction "length buf" arbitrary: buf got off rule: less_induct)
  case less
  let ?c = "content (w_env w)"
  show ?case
  proof (cases "buf = []")
    case True
    then show ?thesis by (simp add: Readn_loop.simps [of _ _ _ "[]"])
  next
    case False
    have l: "unat (of_nat (length buf) :: u32) = length buf"
      using less.prems(1) by (simp only: unsigned_of_nat) (simp add: take_bit_nat_eq_self)
    then have nz: "(of_nat (length buf) :: u32) \<noteq> 0" using False by (metis length_0_conv unsigned_0)
    obtain b where b: "Fid_Read srv (fl_Fid fl) off (of_nat (length buf)) w = Some (Inr b, w)" "length b \<le> length buf"
        "b = take (length b) (drop (unat off) ?c)" "b = [] \<longrightarrow> length ?c \<le> unat off"
      using Fid_Read_ok [OF assms(1,3) _ assms(2), of off "of_nat (length buf)"] l nz less.prems(2) by auto
    show ?thesis
    proof (cases "b = []")
      case True
      then have "Readn_loop srv fl got buf off w = Some (Inl EOF, w)"
        using False b(1) by (subst Readn_loop.simps) (simp add: ReadAt_def)
      moreover have "\<not> (unat off + length buf \<le> length ?c \<or> buf = [])" using b(4) True False by (cases buf) auto
      ultimately show ?thesis by simp
    next
      case nonempty: False
      let ?r = "drop (length b) buf" and ?off = "off + of_nat (length b)"
      have off: "unat ?off = unat off + length b"
        using b(2) less.prems(2) by (simp add: unat_word_ariths unsigned_of_nat take_bit_nat_eq_self)
      have lb: "unat off + length b \<le> length ?c"
        using b(3) nonempty by (metis length_drop length_take min.cobounded1 min.absorb_iff2 nat_le_linear
            add_diff_inverse_nat add_le_cancel_left drop_all le_add_diff_inverse length_0_conv not_less take_Nil)
      have "Readn_loop srv fl got buf off w = Readn_loop srv fl (got @ b) ?r ?off w"
      proof -
        have "take (length b) (go_copy buf b) = b" "drop (length b) (go_copy buf b) = ?r"
          using take_go_copy [OF b(2)] drop_go_copy [OF b(2)] by simp_all
        then show ?thesis
          using False nonempty b(1,2) by (subst Readn_loop.simps) (simp add: ReadAt_def)
      qed
      also have "\<dots> = Some (if unat ?off + length ?r \<le> length ?c \<or> ?r = []
          then Inr (length (got @ b) + length ?r, (got @ b) @ take (length ?r) (drop (unat ?off) ?c)) else Inl EOF, w)"
        by (rule less.hyps) (use nonempty b(2) less.prems False off in \<open>auto simp: neq_Nil_conv\<close>)
      also have "\<dots> = Some (if unat off + length buf \<le> length ?c \<or> buf = []
          then Inr (length got + length buf, got @ take (length buf) (drop (unat off) ?c)) else Inl EOF, w)"
      proof -
        have "b @ take (length ?r) (drop (unat ?off) ?c) = take (length buf) (drop (unat off) ?c)"
        proof -
          have "take (length buf) (drop (unat off) ?c)
              = take (length b) (drop (unat off) ?c) @ take (length buf - length b) (drop (length b) (drop (unat off) ?c))"
            using b(2) by (metis le_add_diff_inverse take_add)
          then show ?thesis using b(3) by (simp add: off add.commute)
        qed
        moreover have "unat ?off + length ?r = unat off + length buf" using b(2) by (simp add: off)
        moreover have "?r = [] \<Longrightarrow> unat off + length buf \<le> length ?c" using b(2) lb by simp
        ultimately show ?thesis using b(2) False by auto
      qed
      finally show ?thesis .
    qed
  qed
qed

end

subsection \<open>What is written is what is read\<close>

lemma write_read_back:
  assumes "stores answer n k I content" "shows_file answer n k I content" "I (w_env w)" "ready w (fl_Fid fl) n k rmax"
    and "data \<noteq> []" "length data < 2 ^ 32" "unat off + length data < 2 ^ 64" "length buf = length data"
  shows "\<exists>e. Writen (wire_srv dotu rmax answer) fl data off w = Some ((length data, None), w\<lparr>w_env := e\<rparr>)
    \<and> I e \<and> content e = overwrite (content (w_env w)) (unat off) data
    \<and> Readn (wire_srv dotu rmax answer) fl buf off (w\<lparr>w_env := e\<rparr>) = Some (Inr (length data, data), w\<lparr>w_env := e\<rparr>)"
proof -
  obtain e where e: "Writen (wire_srv dotu rmax answer) fl data off w = Some ((length data, None), w\<lparr>w_env := e\<rparr>)"
      "content e = overwrite (content (w_env w)) (unat off) data" "I e"
    using wire.Writen_loop_ok [OF assms(1,4,6,7,3), of dotu 0] assms(5) by (auto simp: Writen_def)
  then have "unat off + length data \<le> length (content e)" by (simp add: length_overwrite)
  then have "Readn (wire_srv dotu rmax answer) fl buf off (w\<lparr>w_env := e\<rparr>) = Some (Inr (length data, data), w\<lparr>w_env := e\<rparr>)"
    using wire.Readn_loop_ok [OF assms(2), of "w\<lparr>w_env := e\<rparr>" fl rmax buf off dotu "[]"] assms(4-8) e(2,3)
    by (simp add: Readn_def read_overwrite)
  with e show ?thesis by blast
qed

text \<open>C32: On a server that keeps the contents of a file, whose writes store some of the data sent and whose
  reads return some of the data asked for, \<open>Writen\<close> writes the whole buffer at its offset, and \<open>Readn\<close> then
  reads it back into a buffer of that length.\<close>

theorem Writen_Readn:
  assumes "stores answer n k I content" "shows_file answer n k I content" "I (w_env w)" "ready w (fl_Fid fl) n k rmax"
    and "data \<noteq> []" "length data < 2 ^ 32" "unat off + length data < 2 ^ 64" "length buf = length data"
  shows "\<exists>e. Writen (wire_srv dotu rmax answer) fl data off w = Some ((length data, None), w\<lparr>w_env := e\<rparr>)
    \<and> I e \<and> content e = overwrite (content (w_env w)) (unat off) data
    \<and> Readn (wire_srv dotu rmax answer) fl buf off (w\<lparr>w_env := e\<rparr>) = Some (Inr (length data, data), w\<lparr>w_env := e\<rparr>)"
  by (rule write_read_back [OF assms])

text \<open>A server that stores two bytes and returns three bytes at a time, and a client of it.\<close>

definition slow_file :: "nat \<Rightarrow> msg \<Rightarrow> bytes \<Rightarrow> msg \<times> bytes" where
  "slow_file n m e = (case m of
     MTwrite k off d \<Rightarrow> (MRwrite (of_nat (min 2 (length d))), overwrite e (unat off) (take (min 2 (length d)) d))
   | MTread k off cnt \<Rightarrow> (MRread (take (min 3 (unat cnt)) (drop (unat off) e)), e)
   | _ \<Rightarrow> (MRerror ''bad message'' 0, e))"

definition one_client :: "'e \<Rightarrow> 'e world" where
  "one_client e = \<lparr>w_fids = (\<lambda>_. zero_cfid\<lparr>f_Fid := 1, f_Iounit := 100\<rparr>), w_fnew = 1,
     w_clnts = (\<lambda>_. \<lparr>ch_Msize = 124, ch_Dotu = False, ch_User = ([], 0), ch_Type = 0, ch_Dev = 0, ch_Subpath = [],
       ch_Id = [], ch_fidpool = 0, ch_ref = 1\<rparr>), w_pools = (\<lambda>_. newPool NOFID), w_env = e\<rparr>"

lemma slow_file_stores: "stores slow_file 0 k (\<lambda>_. True) (\<lambda>e. e)"
proof -
  have "unat (of_nat (min 2 (length d)) :: u32) = min 2 (length d)" for d :: bytes
    by (simp only: unsigned_of_nat) (simp add: take_bit_nat_eq_self min_def)
  moreover have "d \<noteq> [] \<Longrightarrow> 0 < min 2 (length d)" for d :: bytes by (cases d) auto
  ultimately show ?thesis by (simp add: stores_def slow_file_def del: of_nat_min)
qed

lemma slow_file_shows: "shows_file slow_file 0 k (\<lambda>_. True) (\<lambda>e. e)"
  by (auto simp: shows_file_def slow_file_def min_def unat_eq_0)

theorem Writen_Readn_witness:
  "\<exists>e. Writen (wire_srv True 124 slow_file) \<lparr>fl_Fid = 0, fl_Offset = 0\<rparr> [1, 2, 3, 4, 5] 3 (one_client [9, 9, 9, 9])
      = Some ((5, None), (one_client [9, 9, 9, 9])\<lparr>w_env := e\<rparr>)
    \<and> e = [9, 9, 9, 1, 2, 3, 4, 5]
    \<and> Readn (wire_srv True 124 slow_file) \<lparr>fl_Fid = 0, fl_Offset = 0\<rparr> [0, 0, 0, 0, 0] 3 ((one_client [9, 9, 9, 9])\<lparr>w_env := e\<rparr>)
      = Some (Inr (5, [1, 2, 3, 4, 5]), (one_client [9, 9, 9, 9])\<lparr>w_env := e\<rparr>)"
proof -
  have "ready (one_client [9, 9, 9, 9 :: u8]) 0 0 1 124" by (simp add: ready_def one_client_def zero_cfid_def)
  then show ?thesis
    using Writen_Readn [OF slow_file_stores slow_file_shows TrueI, of "one_client [9, 9, 9, 9]" "\<lparr>fl_Fid = 0, fl_Offset = 0\<rparr>" 1 124
        "[1, 2, 3, 4, 5]" 3 "[0, 0, 0, 0, 0]" True]
    by (simp add: overwrite_def one_client_def)
qed

text \<open>At the end of the file the bytes that were read are not counted: the result is the error of the end.\<close>

lemma Readn_end_of_file:
  assumes "shows_file answer n k I content" "ready w (fl_Fid fl) n k rmax" "I (w_env w)" "length buf < 2 ^ 32" "unat off + length buf < 2 ^ 64"
    and "length (content (w_env w)) < unat off + length buf" "buf \<noteq> []"
  shows "Readn (wire_srv dotu rmax answer) fl buf off w = Some (Inl EOF, w)"
  using wire.Readn_loop_ok [OF assms(1-5), of dotu "[]"] assms(6,7) by (simp add: Readn_def)

end
