(* ===== verification/Chan_Own.thy ===== *)
theory Chan_Own
  imports Chan_Ns Chan_Io
begin

section \<open>The fids in use and the numbers of the pools\<close>

text \<open>
  No operation on fids may lose a number of a pool, or a reference to a client.  \<open>owns R w L\<close> says of a
  set \<open>L\<close> of fids that the numbers taken from every pool are those of the fids of \<open>L\<close>, each of one fid, and
  that a client is referenced by its fids in \<open>L\<close>, besides \<open>R\<close> others.  In \<open>chained\<close> sets the unions end,
  and their members are in the set.

  A pool that hands out fewer than \<open>2 ^ 30\<close> numbers at a time stays within \<open>2 ^ 28\<close> bytes.
\<close>

definition pool_of :: "'e world \<Rightarrow> nat \<Rightarrow> nat" where
  "pool_of w a = ch_fidpool (client a w)"

definition pool_holds :: "pool \<Rightarrow> nat set \<Rightarrow> bool" where
  "pool_holds pl N \<longleftrightarrow> pl_need pl = 0 \<and> pl_maxid pl = NOFID \<and> length (pl_imap pl) \<le> 2 ^ 28 \<and> ids (pl_imap pl) = N"

definition owns :: "(nat \<Rightarrow> int) \<Rightarrow> 'e world \<Rightarrow> nat set \<Rightarrow> bool" where
  "owns R w L \<longleftrightarrow> L \<subseteq> {..<w_fnew w} \<and> (\<forall>n. 11 \<le> unat (ch_Msize (w_clnts w n)))
     \<and> (\<forall>p. pool_holds (w_pools w p) ((\<lambda>a. unat (f_Fid (w_fids w a))) ` {a \<in> L. pool_of w a = p}))
     \<and> inj_on (\<lambda>a. (pool_of w a, f_Fid (w_fids w a))) L
     \<and> (\<forall>n. ch_ref (w_clnts w n) = R n + int (card {a \<in> L. f_Clnt (w_fids w a) = n}))"

definition chained :: "'e world \<Rightarrow> nat set \<Rightarrow> bool" where
  "chained w L \<longleftrightarrow> (\<forall>a\<in>L. \<exists>us. path (\<lambda>a. f_next (w_fids w a)) (f_next (w_fids w a)) us \<and> set us \<subseteq> L)"

definition good :: "(nat \<Rightarrow> int) \<Rightarrow> 'e world \<Rightarrow> nat set \<Rightarrow> bool" where
  "good R w L \<longleftrightarrow> owns R w L \<and> chained w L"

text \<open>What an operation leaves alone: the fids of a set, and the clients but for their references.\<close>

definition same :: "nat set \<Rightarrow> 'e world \<Rightarrow> 'e world \<Rightarrow> bool" where
  "same L w w' \<longleftrightarrow> (\<forall>a\<in>L. w_fids w' a = w_fids w a) \<and> w_fnew w \<le> w_fnew w'
     \<and> (\<forall>n. (w_clnts w' n)\<lparr>ch_ref := 0\<rparr> = (w_clnts w n)\<lparr>ch_ref := 0\<rparr>)"

lemma same_refl [simp]: "same L w w"
  by (simp add: same_def)

lemma same_trans: "same L w w' \<Longrightarrow> same L w' w'' \<Longrightarrow> same L w w''"
  by (simp add: same_def)

lemma same_mono: "same L w w' \<Longrightarrow> K \<subseteq> L \<Longrightarrow> same K w w'"
  by (auto simp: same_def)

lemma same_ch:
  assumes "same L w w'"
  shows "ch_Msize (w_clnts w' n) = ch_Msize (w_clnts w n)" "ch_fidpool (w_clnts w' n) = ch_fidpool (w_clnts w n)"
proof -
  have "(w_clnts w' n)\<lparr>ch_ref := 0\<rparr> = (w_clnts w n)\<lparr>ch_ref := 0\<rparr>" using assms by (simp add: same_def)
  then have "ch_Msize ((w_clnts w' n)\<lparr>ch_ref := 0\<rparr>) = ch_Msize ((w_clnts w n)\<lparr>ch_ref := 0\<rparr>)"
    "ch_fidpool ((w_clnts w' n)\<lparr>ch_ref := 0\<rparr>) = ch_fidpool ((w_clnts w n)\<lparr>ch_ref := 0\<rparr>)" by simp_all
  then show "ch_Msize (w_clnts w' n) = ch_Msize (w_clnts w n)" "ch_fidpool (w_clnts w' n) = ch_fidpool (w_clnts w n)" by simp_all
qed

lemma chained_same: "chained w L \<Longrightarrow> same L w w' \<Longrightarrow> chained w' L"
proof (unfold chained_def, rule ballI)
  fix a assume c: "\<forall>a\<in>L. \<exists>us. path (\<lambda>a. f_next (w_fids w a)) (f_next (w_fids w a)) us \<and> set us \<subseteq> L" and s: "same L w w'" and a: "a \<in> L"
  obtain us where us: "path (\<lambda>a. f_next (w_fids w a)) (f_next (w_fids w a)) us" "set us \<subseteq> L" using c a by blast
  have eq: "w_fids w' x = w_fids w x" if "x \<in> L" for x using s that by (simp add: same_def)
  have "path (\<lambda>a. f_next (w_fids w' a)) (f_next (w_fids w' a)) us"
    using us(1) by (rule path_cong [THEN iffD1, rotated -1]) (use us(2) eq a in auto)
  then show "\<exists>us. path (\<lambda>a. f_next (w_fids w' a)) (f_next (w_fids w' a)) us \<and> set us \<subseteq> L" using us(2) by blast
qed

lemma chained_insert:
  "chained w L \<Longrightarrow> path (\<lambda>a. f_next (w_fids w a)) (f_next (w_fids w b)) us \<Longrightarrow> set us \<subseteq> L \<Longrightarrow> chained w (insert b L)"
  by (fastforce simp: chained_def)

subsection \<open>Pools\<close>

lemma getId_holds:
  assumes h: "pool_holds pl N" and c: "card N < 2 ^ 30"
  obtains n pl' where "getId pl = (Some n, pl')" "unat n \<notin> N" "pool_holds pl' (insert (unat n) N)" "n \<noteq> NOFID"
proof -
  have u: "unat NOFID = 4294967295" by (simp add: NOFID_def)
  have i: "length (pl_imap pl) \<le> 2 ^ 28" "pl_maxid pl = NOFID" "ids (pl_imap pl) = N" "pl_need pl = 0"
    using h by (simp_all add: pool_holds_def)
  have ok: "pool_ok pl" using i by (simp add: pool_ok_def u)
  obtain o' pl' where g: "getId pl = (o', pl')" by (cases "getId pl")
  have "o' \<noteq> None"
  proof
    assume "o' = None"
    then have "N = {..<8 * (unat NOFID div 8 + 1)}" using getId_none [OF ok, of pl'] g i by simp
    then show False using c by (simp add: u)
  qed
  then obtain n where n: "getId pl = (Some n, pl')" using g by auto
  note s = getId_some [OF ok n]
  have "length (pl_imap pl') \<le> 2 ^ 28"
  proof (cases "first_free (pl_imap pl) < length (pl_imap pl)")
    case True
    then have "length (pl_imap pl') = length (pl_imap pl)" using n by (auto simp: getId_def Let_def split: if_splits)
    then show ?thesis using i(1) by simp
  next
    case False
    then have f: "first_free (pl_imap pl) = length (pl_imap pl)" using first_free_spec [of "pl_imap pl"] by simp
    then have "card N = 8 * length (pl_imap pl)" using ids_full [OF f] i(3) by simp
    then have "length (pl_imap pl) < 2 ^ 27" using c by simp
    moreover have "length (pl_imap pl') \<le> length (pl_imap pl) + 32"
      using n f grow_length [OF ok] by (auto simp: getId_def Let_def split: if_splits)
    ultimately show ?thesis by simp
  qed
  then have p: "pool_holds pl' (insert (unat n) N)" using s i by (simp add: pool_holds_def)
  have "n \<noteq> NOFID"
  proof
    assume "n = NOFID"
    then have "4294967295 \<in> ids (pl_imap pl')" using s u by simp
    then show False using p by (auto simp: pool_holds_def ids_def)
  qed
  then show thesis using that n s p i by auto
qed

lemma putId_holds:
  assumes "pool_holds pl N" "unat n \<in> N"
  shows "\<exists>pl'. putId n pl = Some (None, pl') \<and> pool_holds pl' (N - {unat n})"
proof -
  have "n \<noteq> NOFID"
  proof
    assume "n = NOFID"
    then show False using assms by (auto simp: pool_holds_def ids_def NOFID_def)
  qed
  then show ?thesis using putId_some [of n pl] assms by (auto simp: pool_holds_def)
qed

subsection \<open>Allocating and clunking\<close>

lemma Collect_insert: "{a \<in> insert b L. P a} = (if P b then insert b {a \<in> L. P a} else {a \<in> L. P a})"
  by auto

lemma good_finite: "good R w L \<Longrightarrow> finite L"
  by (auto simp: good_def owns_def intro: finite_subset)

lemma good_fresh: "good R w L \<Longrightarrow> w_fnew w \<notin> L"
  by (auto simp: good_def owns_def)

lemma pool_of_same: "same L w w' \<Longrightarrow> a \<in> L \<Longrightarrow> pool_of w' a = pool_of w a"
  by (simp add: pool_of_def client_def same_ch) (simp add: same_def)

text \<open>\<open>FidAlloc\<close> always returns, with a new fid of the client.\<close>

lemma FidAlloc_good:
  assumes g: "good R w L" and c: "card L < 2 ^ 30"
  obtains w' where "FidAlloc n w = Some (w_fnew w, w')" "good R w' (insert (w_fnew w) L)" "same L w w'"
    "f_Clnt (w_fids w' (w_fnew w)) = n" "f_next (w_fids w' (w_fnew w)) = None"
proof -
  let ?b = "w_fnew w" and ?p = "ch_fidpool (w_clnts w n)"
  let ?N = "\<lambda>w L q. (\<lambda>a. unat (f_Fid (w_fids w a))) ` {a \<in> L. pool_of w a = q}"
  have o: "owns R w L" using g by (simp add: good_def)
  have nb: "?b \<notin> L" and fin: "finite L" using good_fresh [OF g] good_finite [OF g] by auto
  have "card (?N w L ?p) \<le> card {a \<in> L. pool_of w a = ?p}" using fin by (intro card_image_le) simp
  also have "\<dots> \<le> card L" using fin by (intro card_mono) auto
  finally have cN: "card (?N w L ?p) < 2 ^ 30" using c by simp
  have h: "pool_holds (w_pools w ?p) (?N w L ?p)" using o by (simp add: owns_def)
  obtain k pl where k: "getId (w_pools w ?p) = (Some k, pl)" "unat k \<notin> ?N w L ?p"
      "pool_holds pl (insert (unat k) (?N w L ?p))" "k \<noteq> NOFID"
    by (rule getId_holds [OF h cN])
  define w' where "w' = snd (the (FidAlloc n w))"
  have w': "FidAlloc n w = Some (?b, w')" using k(1) by (simp add: FidAlloc_def Let_def w'_def)
  have s: "same L w w'" using nb k(1) by (auto simp: w'_def FidAlloc_def Let_def same_def)
  have b: "f_Clnt (w_fids w' ?b) = n" "f_next (w_fids w' ?b) = None" "f_Fid (w_fids w' ?b) = k" "pool_of w' ?b = ?p"
    using k(1) by (simp_all add: w'_def FidAlloc_def Let_def zero_cfid_def pool_of_def client_def)
  have sb: "w_fids w' a = w_fids w a" "pool_of w' a = pool_of w a" if "a \<in> L" for a
    using s that pool_of_same [OF s that] by (simp_all add: same_def)
  have N: "?N w' (insert ?b L) q = (if q = ?p then insert (unat k) (?N w L q) else ?N w L q)" for q
  proof -
    have "{a \<in> L. pool_of w' a = q} = {a \<in> L. pool_of w a = q}" using sb(2) by auto
    moreover have "(\<lambda>a. unat (f_Fid (w_fids w' a))) ` {a \<in> L. pool_of w a = q} = ?N w L q"
      by (rule image_cong) (simp_all add: sb(1))
    ultimately show ?thesis unfolding Collect_insert b(4) by (cases "q = ?p") (simp_all add: b(3))
  qed
  have "pool_holds (w_pools w' q) (?N w' (insert ?b L) q)" for q
    using k(1,3) o unfolding N owns_def by (simp add: w'_def FidAlloc_def Let_def)
  moreover have "inj_on (\<lambda>a. (pool_of w' a, f_Fid (w_fids w' a))) (insert ?b L)"
  proof -
    let ?g = "\<lambda>w a. (pool_of w a, f_Fid (w_fids w a))"
    have eq: "?g w' a = ?g w a" if "a \<in> L" for a using that sb by simp
    have "inj_on (?g w') L" using o unfolding owns_def by (simp add: eq cong: inj_on_cong)
    moreover have "?g w' ?b \<notin> ?g w' ` L"
    proof
      assume "?g w' ?b \<in> ?g w' ` L"
      then obtain a where "a \<in> L" "(?p, k) = ?g w a" using eq b(3,4) by (metis (no_types, lifting) imageE)
      then show False using k(2) by auto
    qed
    ultimately show ?thesis using nb by simp
  qed
  moreover have "ch_ref (w_clnts w' m) = R m + int (card {a \<in> insert ?b L. f_Clnt (w_fids w' a) = m})" for m
  proof -
    have "{a \<in> L. f_Clnt (w_fids w' a) = m} = {a \<in> L. f_Clnt (w_fids w a) = m}" using sb by auto
    moreover have "ch_ref (w_clnts w' m) = ch_ref (w_clnts w m) + (if m = n then 1 else 0)"
      using k(1) by (simp add: w'_def FidAlloc_def Let_def)
    ultimately show ?thesis using o nb fin unfolding Collect_insert b(1) by (auto simp: owns_def)
  qed
  moreover have "insert ?b L \<subseteq> {..<w_fnew w'}"
    using o k(1) by (auto simp: owns_def w'_def FidAlloc_def Let_def)
  ultimately have "owns R w' (insert ?b L)" using o s by (simp add: owns_def same_ch)
  moreover have "chained w' (insert ?b L)"
    using chained_insert [OF chained_same [OF _ s], of ?b "[]"] g b(2) by (simp add: good_def)
  ultimately show thesis using that w' s b by (simp add: good_def)
qed

lemma PackTclunk_ok: "11 \<le> unat m \<Longrightarrow> \<exists>tc. PackTclunk (NewFcall m) f = Some (Inr tc)"
  using packs_T_small(4) [of "NewFcall m" f] by (simp add: packs_def NewFcall_def) (metis)

text \<open>A clunk gives the number and the reference back.\<close>

lemma Clunk_good:
  assumes g: "good R w (insert b L)" and b: "b \<notin> L" and c: "chained w L"
  obtains w' where "Clunk srv b w = Some (None, w')" "good R w' L" "same L w w'" "same (- {b}) w w'"
proof -
  let ?n = "f_Clnt (w_fids w b)"
  let ?p = "ch_fidpool (w_clnts w ?n)" and ?k = "f_Fid (w_fids w b)"
  let ?N = "\<lambda>w L q. (\<lambda>a. unat (f_Fid (w_fids w a))) ` {a \<in> L. pool_of w a = q}"
  have o: "owns R w (insert b L)" using g by (simp add: good_def)
  have fin: "finite L" using good_finite [OF g] by simp
  have pb: "pool_of w b = ?p" by (simp add: pool_of_def client_def)
  have kN: "unat ?k \<in> ?N w (insert b L) ?p" using pb by auto
  have "11 \<le> unat (ch_Msize (w_clnts w ?n))" using o by (simp add: owns_def)
  then obtain tc where tc: "PackTclunk (NewFcall (ch_Msize (w_clnts w ?n))) ?k = Some (Inr tc)"
    using PackTclunk_ok by blast
  have h: "pool_holds (w_pools w ?p) (?N w (insert b L) ?p)" using o by (simp add: owns_def)
  obtain pl where pl: "putId ?k (w_pools w ?p) = Some (None, pl)" "pool_holds pl (?N w (insert b L) ?p - {unat ?k})"
    using putId_holds [OF h kN] by blast
  define e where "e = (if f_walked (w_fids w b) then snd (srv ?n tc (w_env w)) else w_env w)"
  define w' where "w' = set_f b (\<lambda>f. f\<lparr>f_walked := False, f_Fid := NOFID\<rparr>) (set_ch ?n (\<lambda>ch. ch\<lparr>ch_ref := ch_ref ch - 1\<rparr>)
    (w\<lparr>w_env := e, w_pools := (w_pools w)(?p := pl)\<rparr>))"
  have W: "Clunk srv b w = Some (None, w')"
    using tc pl(1) by (simp add: Clunk_def Let_def Rpc_def split_beta w'_def e_def)
  have s: "same L w w'" "same (- {b}) w w'" using b by (auto simp: w'_def same_def)
  have sb: "w_fids w' a = w_fids w a" "pool_of w' a = pool_of w a" if "a \<in> L" for a
    using s(1) that pool_of_same [OF s(1) that] by (simp_all add: same_def)
  have inj: "inj_on (\<lambda>a. (pool_of w a, f_Fid (w_fids w a))) (insert b L)" using o by (simp add: owns_def)
  have N: "?N w' L q = (if q = ?p then ?N w (insert b L) q - {unat ?k} else ?N w (insert b L) q)" for q
  proof -
    have "{a \<in> L. pool_of w' a = q} = {a \<in> L. pool_of w a = q}" using sb(2) by auto
    moreover have "(\<lambda>a. unat (f_Fid (w_fids w' a))) ` {a \<in> L. pool_of w a = q} = ?N w L q"
      by (rule image_cong) (simp_all add: sb(1))
    moreover have "unat ?k \<notin> ?N w L ?p"
    proof
      assume "unat ?k \<in> ?N w L ?p"
      then obtain a where "a \<in> L" "pool_of w a = ?p" "?k = f_Fid (w_fids w a)" by (auto simp: word_unat_eq_iff)
      then have "a = b" using inj_onD [OF inj, of a b] pb by simp
      then show False using b \<open>a \<in> L\<close> by simp
    qed
    ultimately show ?thesis unfolding Collect_insert pb by (cases "q = ?p") simp_all
  qed
  have "pool_holds (w_pools w' q) (?N w' L q)" for q
    using pl(2) o unfolding N owns_def by (simp add: w'_def)
  moreover have "inj_on (\<lambda>a. (pool_of w' a, f_Fid (w_fids w' a))) L"
    using inj by (simp add: sb cong: inj_on_cong)
  moreover have "ch_ref (w_clnts w' m) = R m + int (card {a \<in> L. f_Clnt (w_fids w' a) = m})" for m
  proof -
    have "{a \<in> L. f_Clnt (w_fids w' a) = m} = {a \<in> L. f_Clnt (w_fids w a) = m}" using sb by auto
    moreover have "ch_ref (w_clnts w' m) = ch_ref (w_clnts w m) - (if m = ?n then 1 else 0)" by (simp add: w'_def)
    moreover have "ch_ref (w_clnts w m) = R m + int (card {a \<in> insert b L. f_Clnt (w_fids w a) = m})" using o by (simp add: owns_def)
    ultimately show ?thesis using b fin unfolding Collect_insert by auto
  qed
  moreover have "L \<subseteq> {..<w_fnew w'}" using o by (simp add: owns_def w'_def)
  ultimately have "owns R w' L" using o s(1) by (simp add: owns_def same_ch)
  then show thesis using that W s chained_same [OF c s(1)] by (simp add: good_def)
qed

subsection \<open>Walking on one server\<close>

text \<open>A server that keeps to the protocol: no more qids than names.\<close>

definition modest :: "'e server \<Rightarrow> bool" where
  "modest srv \<longleftrightarrow> (\<forall>n tc e rc e'. srv n tc e = (Inr rc, e') \<and> fc_Type tc = Twalk \<and> fc_Type rc = Rwalk
     \<longrightarrow> length (fc_Wqid rc) \<le> length (fc_Wname tc))"

lemma PackTwalk_ok:
  assumes "list_all str_ok ws"
  obtains err where "PackTwalk fc f nf ws = Some (Inl err)"
  | tc where "PackTwalk fc f nf ws = Some (Inr tc)" "fc_Type tc = Twalk" "fc_Wname tc = ws"
proof -
  have "packs fc Twalk (body (MTwalk f nf ws) False) (PackTwalk fc f nf ws)" by (rule packs_PackTwalk [OF assms])
  moreover have "fc_Wname tc = ws" if "PackTwalk fc f nf ws = Some (Inr tc)" for tc
    using that by (auto simp: PackTwalk_def packThen_def Let_def seal_def split: Option.bind_splits sum.splits)
  ultimately show thesis using that by (auto simp: packs_def is_packed_def split: if_splits)
qed

lemma good_cong: "w_fids w' = w_fids w \<Longrightarrow> w_fnew w' = w_fnew w \<Longrightarrow> w_clnts w' = w_clnts w \<Longrightarrow> w_pools w' = w_pools w \<Longrightarrow>
    good R w' L = good R w L"
  by (simp add: good_def owns_def chained_def pool_of_def client_def)

lemma good_env [simp]: "good R (w\<lparr>w_env := e\<rparr>) L = good R w L"
  by (rule good_cong) simp_all

lemma same_env [simp]: "same L w (w\<lparr>w_env := e\<rparr>)"
  by (simp add: same_def)

lemma set_f_good:
  assumes g: "good R w (insert b L)" "b \<notin> L" "chained w L" and f: "f_Clnt (h (w_fids w b)) = f_Clnt (w_fids w b)" "f_Fid (h (w_fids w b)) = f_Fid (w_fids w b)"
    and n: "path (\<lambda>a. f_next (w_fids w a)) (f_next (h (w_fids w b))) us" "set us \<subseteq> L"
  shows "good R (set_f b h w) (insert b L)" "same (- {b}) w (set_f b h w)"
proof -
  show s: "same (- {b}) w (set_f b h w)" by (simp add: same_def)
  have e: "f_Clnt (w_fids (set_f b h w) a) = f_Clnt (w_fids w a)" "f_Fid (w_fids (set_f b h w) a) = f_Fid (w_fids w a)" for a
    using f by simp_all
  then have p: "pool_of (set_f b h w) a = pool_of w a" for a by (simp add: pool_of_def client_def)
  have "owns R w (insert b L)" using g(1) by (simp add: good_def)
  then have "owns R (set_f b h w) (insert b L)" unfolding owns_def e p by simp
  moreover have "same L w (set_f b h w)" using s g(2) by (auto simp: same_def)
  then have "chained (set_f b h w) L" by (rule chained_same [OF g(3)])
  moreover have "path (\<lambda>a. f_next (w_fids (set_f b h w) a)) (f_next (w_fids (set_f b h w) b)) us"
    using n(1) by (rule path_cong [THEN iffD1, rotated -1]) (use n(2) g(2) in auto)
  ultimately show "good R (set_f b h w) (insert b L)" using n(2) unfolding good_def by (intro conjI chained_insert) auto
qed

lemma chainedE:
  assumes "chained w L" "a \<in> L"
  obtains us where "path (\<lambda>a. f_next (w_fids w a)) (f_next (w_fids w a)) us" "set us \<subseteq> L"
  using assms unfolding chained_def by blast

lemma good_insert_chain:
  assumes "good R w (insert b L)" "b \<notin> L" "chained w L" "f_next (w_fids w b) = None \<or> f_next (w_fids w b) = f_next (w_fids w a)" "a \<in> L"
  obtains us where "path (\<lambda>a. f_next (w_fids w a)) (f_next (w_fids w b)) us" "set us \<subseteq> L"
proof (cases "f_next (w_fids w b) = None")
  case True
  then show thesis using that [of "[]"] by simp
next
  case False
  then show thesis using chainedE [OF assms(3,5)] assms(4) that by metis
qed

text \<open>A walk changes nothing but the new fid, and there neither its number nor its union.\<close>

lemma Fid_Walk_cases:
  assumes "list_all str_ok ws"
  shows "\<exists>r w' h. Fid_Walk srv (Some a) b ws w = Some (r, w') \<and> (\<exists>e. w' = set_f b h (w\<lparr>w_env := e\<rparr>))
    \<and> (\<forall>x. f_Fid (h x) = f_Fid x \<and> f_next (h x) = f_next x \<and> (f_Clnt (h x) = f_Clnt x \<or> f_Clnt (h x) = f_Clnt (w_fids w a)))
    \<and> (\<forall>qs. modest srv \<and> r = Inr qs \<longrightarrow> length qs \<le> length ws)"
proof -
  let ?n = "f_Clnt (w_fids w a)" and ?f = "w_fids w a"
  let ?P = "PackTwalk (NewFcall (ch_Msize (w_clnts w ?n))) (f_Fid ?f) (f_Fid (w_fids w b)) ws"
  have same: "set_f b (\<lambda>x. x) (w\<lparr>w_env := e\<rparr>) = w\<lparr>w_env := e\<rparr>" for e by (simp add: set_f_def)
  have fail: ?thesis if "Fid_Walk srv (Some a) b ws w = Some (Inl err, w\<lparr>w_env := e\<rparr>)" for err e
    using that same [symmetric, of e]
    by (intro exI [of _ "Inl err"] exI [of _ "w\<lparr>w_env := e\<rparr>"] exI [of _ "\<lambda>x. x"] conjI) (auto intro: exI [of _ e])
  consider err where "?P = Some (Inl err)" | tc where "?P = Some (Inr tc)" "fc_Type tc = Twalk" "fc_Wname tc = ws"
    by (rule PackTwalk_ok [OF assms])
  then show ?thesis
  proof cases
    case (1 err)
    then show ?thesis using fail [of err "w_env w"] by (simp add: Fid_Walk_def transact_def)
  next
    case (2 tc)
    obtain r e where s: "srv ?n tc (w_env w) = (r, e)" by (cases "srv ?n tc (w_env w)")
    show ?thesis
    proof (cases "fst (Rpc srv ?n tc w)")
      fix err assume "fst (Rpc srv ?n tc w) = Inl err"
      then show ?thesis using 2(1) s fail [of err e] by (simp add: Fid_Walk_def transact_def Rpc_def)
    next
      fix rc assume rc: "fst (Rpc srv ?n tc w) = Inr rc"
      then have R: "Rpc srv ?n tc w = (Inr rc, w\<lparr>w_env := e\<rparr>)" "r = Inr rc" "fc_Type rc = Rwalk"
        using s 2(2) reply_err_None [of Twalk rc] by (auto simp: Rpc_def msg_type_defs split: sum.splits option.splits)
      have le: "modest srv \<Longrightarrow> length (fc_Wqid rc) \<le> length ws" using 2(2,3) R(2,3) s unfolding modest_def by metis
      show ?thesis
      proof (cases "length (fc_Wqid rc) = length ws")
        case True
        let ?J = "PathJoin (f_Cname ?f) ws (f_Path ?f) (fileid_list (fi_Type (f_ID ?f) AND NOT NOREMAP) (fi_Dev (f_ID ?f)) (fc_Wqid rc))"
        define h :: "cfid \<Rightarrow> cfid" where "h = (\<lambda>x. x\<lparr>f_Clnt := f_Clnt ?f, f_ID := \<lparr>fi_Type = fi_Type (f_ID ?f) AND NOT NOREMAP, fi_Dev = fi_Dev (f_ID ?f),
            fi_Qid = (if fc_Wqid rc \<noteq> [] then last (fc_Wqid rc) else fi_Qid (f_ID ?f))\<rparr>,
          f_Cname := fst ?J, f_Path := snd ?J, f_walked := True\<rparr>)"
        have "Fid_Walk srv (Some a) b ws w = Some (Inr (fc_Wqid rc), set_f b h (w\<lparr>w_env := e\<rparr>))"
          using 2(1) R True by (simp add: Fid_Walk_def transact_def rerror_def msg_type_defs Let_def split_beta h_def)
        then show ?thesis
          using True by (intro exI [of _ "Inr (fc_Wqid rc)"] exI [of _ "set_f b h (w\<lparr>w_env := e\<rparr>)"] exI [of _ h])
            (auto simp: h_def)
      next
        case False
        then show ?thesis
          using 2 R le same [symmetric, of e] by (intro exI [of _ "Inr (fc_Wqid rc)"] exI [of _ "w\<lparr>w_env := e\<rparr>"] exI [of _ "\<lambda>x. x"] conjI)
            (auto intro: exI [of _ e] simp: Fid_Walk_def transact_def rerror_def msg_type_defs)
      qed
    qed
  qed
qed

lemma Fid_Walk_good:
  assumes g: "good R w (insert b L)" "b \<notin> L" "chained w L" and ab: "f_Clnt (w_fids w b) = f_Clnt (w_fids w a)"
    and nx: "f_next (w_fids w b) = None" and ws: "list_all str_ok ws"
  obtains r w' where "Fid_Walk srv (Some a) b ws w = Some (r, w')" "good R w' (insert b L)" "same (- {b}) w w'"
    "f_Clnt (w_fids w' b) = f_Clnt (w_fids w b)" "f_next (w_fids w' b) = None"
    "\<And>qs. modest srv \<Longrightarrow> r = Inr qs \<Longrightarrow> length qs \<le> length ws"
proof -
  obtain r w' h e where W: "Fid_Walk srv (Some a) b ws w = Some (r, w')" "w' = set_f b h (w\<lparr>w_env := e\<rparr>)"
      "\<forall>x. f_Fid (h x) = f_Fid x \<and> f_next (h x) = f_next x \<and> (f_Clnt (h x) = f_Clnt x \<or> f_Clnt (h x) = f_Clnt (w_fids w a))"
      "\<forall>qs. modest srv \<and> r = Inr qs \<longrightarrow> length qs \<le> length ws"
    using Fid_Walk_cases [OF ws, of srv a b w] by blast
  have h: "f_Clnt (h (w_fids w b)) = f_Clnt (w_fids w b)" using W(3) ab by metis
  have c: "chained (w\<lparr>w_env := e\<rparr>) L" using g(3) by (rule chained_same) simp
  have "good R w' (insert b L)" "same (- {b}) (w\<lparr>w_env := e\<rparr>) w'"
    unfolding W(2) using set_f_good [of R "w\<lparr>w_env := e\<rparr>" b L h "[]"] g c h W(3) nx by simp_all
  moreover from this(2) have "same (- {b}) w w'" by (rule same_trans [OF same_env])
  moreover have "f_Clnt (w_fids w' b) = f_Clnt (w_fids w b)" "f_next (w_fids w' b) = None" using W(2,3) h nx by simp_all
  ultimately show thesis using that W(1,4) by blast
qed

text \<open>
  A new fid: it may be a view into the union of a fid in use, and no fid leads to it.  The operations
  return one, or an error, in which case they have taken nothing.
\<close>

definition new_fid :: "(nat \<Rightarrow> int) \<Rightarrow> nat set \<Rightarrow> 'e world \<Rightarrow> nat \<Rightarrow> bool" where
  "new_fid R L w b \<longleftrightarrow> b \<notin> L \<and> good R w (insert b L) \<and> chained w L
     \<and> (f_next (w_fids w b) = None \<or> (\<exists>a\<in>L. f_next (w_fids w b) = f_next (w_fids w a)))"

definition yields :: "(nat \<Rightarrow> int) \<Rightarrow> nat set \<Rightarrow> 'e world \<Rightarrow> (perror + nat) \<Rightarrow> 'e world \<Rightarrow> bool" where
  "yields R L w r w' \<longleftrightarrow> same L w w' \<and> (case r of Inl _ \<Rightarrow> good R w' L | Inr b \<Rightarrow> new_fid R L w' b)"

lemma good_chained: "good R w L \<Longrightarrow> chained w L"
  by (simp add: good_def)

lemma same_compl: "same (- {b}) w w' \<Longrightarrow> b \<notin> L \<Longrightarrow> same L w w'"
  by (rule same_mono) auto

lemma same_fid: "same L w w' \<Longrightarrow> a \<in> L \<Longrightarrow> w_fids w' a = w_fids w a"
  by (simp add: same_def)

lemma new_fid_chain:
  assumes "new_fid R L w b"
  obtains us where "path (\<lambda>a. f_next (w_fids w a)) (f_next (w_fids w b)) us" "set us \<subseteq> L"
proof -
  let ?f = "\<lambda>a. f_next (w_fids w a)"
  have "chained w (insert b L)" using assms by (simp add: new_fid_def good_def)
  then obtain us where us: "path ?f (?f b) us" "set us \<subseteq> insert b L" by (rule chainedE [OF _ insertI1])
  moreover have "b \<notin> set us" using us path_distinct [of ?f "Some b" "b # us"] by simp
  ultimately show thesis using that by auto
qed

lemma new_fid_set:
  assumes n: "new_fid R L w b" and h: "f_Clnt (h (w_fids w b)) = f_Clnt (w_fids w b)" "f_Fid (h (w_fids w b)) = f_Fid (w_fids w b)"
      "f_next (h (w_fids w b)) = f_next (w_fids w b)" and s: "same L w0 w"
  shows "new_fid R L (set_f b h w) b" "same L w0 (set_f b h w)"
proof -
  have g: "good R w (insert b L)" "b \<notin> L" "chained w L" using n by (simp_all add: new_fid_def)
  obtain us where us: "path (\<lambda>a. f_next (w_fids w a)) (f_next (w_fids w b)) us" "set us \<subseteq> L" by (rule new_fid_chain [OF n])
  have f: "good R (set_f b h w) (insert b L)" "same (- {b}) w (set_f b h w)"
    using set_f_good [where h = h, OF g h(1,2), of us] us h(3) by simp_all
  have s': "same L w (set_f b h w)" by (rule same_compl [OF f(2) g(2)])
  then show "same L w0 (set_f b h w)" by (rule same_trans [OF s])
  have "f_next (w_fids (set_f b h w) b) = None \<or> (\<exists>a\<in>L. f_next (w_fids (set_f b h w) b) = f_next (w_fids (set_f b h w) a))"
    using n h(3) g(2) unfolding new_fid_def by (auto simp del: set_f_simps(2-))
  then show "new_fid R L (set_f b h w) b" using f(1) g chained_same [OF g(3) s'] by (simp add: new_fid_def)
qed

lemma Clone_good:
  assumes g: "good R w L" and a: "a \<in> L" and c: "card L < 2 ^ 30"
  obtains r w' where "Clone srv (Some a) mntsem w = Some (r, w')" "yields R L w r w'"
proof -
  let ?b = "w_fnew w"
  have nb: "?b \<notin> L" using good_fresh [OF g] .
  obtain w1 where 1: "FidAlloc (f_Clnt (w_fids w a)) w = Some (?b, w1)" "good R w1 (insert ?b L)" "same L w w1"
      "f_Clnt (w_fids w1 ?b) = f_Clnt (w_fids w a)" "f_next (w_fids w1 ?b) = None"
    by (rule FidAlloc_good [OF g c])
  have c1: "chained w1 L" using chained_same [OF good_chained [OF g] 1(3)] .
  have fw: "f_Clnt (w_fids w1 ?b) = f_Clnt (w_fids w1 a)" using 1(4) same_fid [OF 1(3) a] by simp
  have nil: "list_all str_ok []" by simp
  obtain r w2 where 2: "Fid_Walk srv (Some a) ?b [] w1 = Some (r, w2)" "good R w2 (insert ?b L)" "same (- {?b}) w1 w2"
      "f_next (w_fids w2 ?b) = None"
    by (rule Fid_Walk_good [OF 1(2) nb c1 fw 1(5) nil]) blast
  have s2: "same L w1 w2" using same_compl [OF 2(3) nb] .
  have c2: "chained w2 L" using chained_same [OF c1 s2] .
  have s: "same L w w2" using same_trans [OF 1(3) s2] .
  show thesis
  proof (cases r)
    case (Inl err)
    obtain w3 where 3: "Clunk srv ?b w2 = Some (None, w3)" "good R w3 L" "same L w2 w3"
      by (rule Clunk_good [OF 2(2) nb c2])
    then have "Clone srv (Some a) mntsem w = Some (Inl err, w3)" using 1 2 Inl by (simp add: Clone_def clunk_then_def)
    then show thesis using that same_trans [OF s 3(3)] 3(2) by (simp add: yields_def)
  next
    case (Inr qs)
    let ?h = "\<lambda>x. x\<lparr>f_prev := f_prev (w_fids w2 a), f_next := f_next (w_fids w2 a)\<rparr>"
    define w3 where "w3 = (if mntsem then set_f ?b ?h w2 else w2)"
    have C: "Clone srv (Some a) mntsem w = Some (Inr ?b, w3)" using 1 2 Inr by (simp add: Clone_def w3_def)
    obtain us where us: "path (\<lambda>a. f_next (w_fids w2 a)) (f_next (w_fids w2 a)) us" "set us \<subseteq> L" by (rule chainedE [OF c2 a])
    have h: "good R (set_f ?b ?h w2) (insert ?b L)" "same (- {?b}) w2 (set_f ?b ?h w2)"
      using set_f_good [OF 2(2) nb c2, of ?h us] us by simp_all
    then have g3: "good R w3 (insert ?b L)" "same L w2 w3" using 2(2) same_compl [OF h(2) nb] by (simp_all add: w3_def)
    have "f_next (w_fids w3 ?b) = None \<or> f_next (w_fids w3 ?b) = f_next (w_fids w3 a)"
      using 2(4) same_fid [OF g3(2) a] by (simp add: w3_def)
    then have "new_fid R L w3 ?b" using nb g3(1) a chained_same [OF c2 g3(2)] by (auto simp: new_fid_def)
    then show thesis using that C same_trans [OF s g3(2)] by (simp add: yields_def)
  qed
qed

text \<open>In a union the walk ends, after as many rounds as there are members left.\<close>

lemma Fid_WalkOne_good:
  assumes "good R w L" "a \<in> L" "card L < 2 ^ 30" "str_ok nm" "path (\<lambda>a. f_next (w_fids w a)) (f_next (w_fids w a)) us" "set us \<subseteq> L"
    and "length us < k"
  shows "\<exists>r w'. Fid_WalkOne k srv (Some a) nm w = Some (r, w') \<and> yields R L w r w'"
  using assms
proof (induction k arbitrary: us a w)
  case 0
  then show ?case by simp
next
  case (Suc k us a w)
  let ?b = "w_fnew w"
  have nb: "?b \<notin> L" using good_fresh [OF Suc.prems(1)] .
  obtain w1 where 1: "FidAlloc (f_Clnt (w_fids w a)) w = Some (?b, w1)" "good R w1 (insert ?b L)" "same L w w1"
      "f_Clnt (w_fids w1 ?b) = f_Clnt (w_fids w a)" "f_next (w_fids w1 ?b) = None"
    by (rule FidAlloc_good [OF Suc.prems(1,3)])
  have c1: "chained w1 L" using chained_same [OF good_chained [OF Suc.prems(1)] 1(3)] .
  have fw: "f_Clnt (w_fids w1 ?b) = f_Clnt (w_fids w1 a)" using 1(4) same_fid [OF 1(3) Suc.prems(2)] by simp
  have ok: "list_all str_ok [nm]" using Suc.prems(4) by simp
  obtain r w2 where 2: "Fid_Walk srv (Some a) ?b [nm] w1 = Some (r, w2)" "good R w2 (insert ?b L)" "same (- {?b}) w1 w2"
      "f_next (w_fids w2 ?b) = None"
    by (rule Fid_Walk_good [OF 1(2) nb c1 fw 1(5) ok]) blast
  have s: "same L w w2" using same_trans [OF 1(3) same_compl [OF 2(3) nb]] .
  have c2: "chained w2 L" using chained_same [OF good_chained [OF Suc.prems(1)] s] .
  obtain w3 where 3: "Clunk srv ?b w2 = Some (None, w3)" "good R w3 L" "same L w2 w3"
    by (rule Clunk_good [OF 2(2) nb c2])
  have s3: "same L w w3" using same_trans [OF s 3(3)] .
  have a2: "f_next (w_fids w2 a) = f_next (w_fids w a)" using same_fid [OF s Suc.prems(2)] by simp
  show ?case
  proof (cases "\<exists>q. r = Inr [q]")
    case True
    then show ?thesis using 1(1) 2 nb s c2 by (auto simp: yields_def new_fid_def)
  next
    case False
    then have one: "(case r of Inr [q] \<Rightarrow> x | _ \<Rightarrow> y) = y" for x y :: "((perror + nat) \<times> 'a world) option"
      by (auto split: sum.split list.split)
    show ?thesis
    proof (cases us)
      case Nil
      then show ?thesis using 1(1) 2 3 a2 one Suc.prems(5) s3 by (simp add: clunk_then_def yields_def)
    next
      case (Cons u vs)
      have p: "path (\<lambda>a. f_next (w_fids w3 a)) (f_next (w_fids w3 u)) vs" "u \<in> L" "set vs \<subseteq> L" "f_next (w_fids w a) = Some u"
        using Suc.prems(5,6) same_fid [OF s3] Cons
        by (auto elim!: path_cong [THEN iffD1, rotated -1])
      then obtain r' w' where "Fid_WalkOne k srv (Some u) nm w3 = Some (r', w')" "yields R L w3 r' w'"
        using Suc.IH [OF 3(2) p(2) Suc.prems(3,4) p(1,3)] Suc.prems(7) Cons by auto
      then show ?thesis
        using 1(1) 2 3 a2 one p(4) same_trans [OF s3] by (auto simp: yields_def)
    qed
  qed
qed

lemma chain_length:
  assumes "good R w L" "path f p us" "set us \<subseteq> L"
  shows "length us \<le> card L" "card L \<le> w_fnew w"
proof -
  have "length us = card (set us)" using path_distinct [OF assms(2)] by (simp add: distinct_card)
  then show "length us \<le> card L" using card_mono [OF good_finite [OF assms(1)] assms(3)] by simp
  have "L \<subseteq> {..<w_fnew w}" using assms(1) by (simp add: good_def owns_def)
  then show "card L \<le> w_fnew w" using card_mono [of "{..<w_fnew w}" L] by simp
qed

lemma chain_of:
  assumes "good R w L" "a \<in> L"
  obtains us where "path (\<lambda>a. f_next (w_fids w a)) (f_next (w_fids w a)) us" "set us \<subseteq> L" "length us < card L" "card L \<le> w_fnew w"
proof -
  obtain us where us: "path (\<lambda>a. f_next (w_fids w a)) (f_next (w_fids w a)) us" "set us \<subseteq> L"
    by (rule chainedE [OF good_chained [OF assms(1)] assms(2)])
  then have "path (\<lambda>a. f_next (w_fids w a)) (Some a) (a # us)" "set (a # us) \<subseteq> L" using assms(2) by simp_all
  from chain_length [OF assms(1) this] show thesis using that us by simp
qed

lemma Fid_WalkOne_fuel:
  assumes "good R w L" "a \<in> L" "card L < 2 ^ 30" "str_ok nm"
  obtains r w' where "Fid_WalkOne (w_fnew w) srv (Some a) nm w = Some (r, w')" "yields R L w r w'"
proof -
  obtain us where "path (\<lambda>a. f_next (w_fids w a)) (f_next (w_fids w a)) us" "set us \<subseteq> L" "length us < w_fnew w"
    using chain_of [OF assms(1,2)] by (metis order_less_le_trans)
  then show thesis using Fid_WalkOne_good [OF assms] that by blast
qed

subsection \<open>Walking through the mount table\<close>

text \<open>The fids in the mount table are in use.\<close>

definition table_ok :: "mnttab \<Rightarrow> nat set \<Rightarrow> bool" where
  "table_ok m L \<longleftrightarrow> (\<forall>i. case children m i of Some c \<Rightarrow> c \<in> L | None \<Rightarrow> True) \<and> (\<forall>i. set (m_Parents m i) \<subseteq> L)"

lemma table_ok_mono: "table_ok m L \<Longrightarrow> L \<subseteq> M \<Longrightarrow> table_ok m M"
  unfolding table_ok_def by (metis (no_types, lifting) option.case_eq_if subset_iff)

lemma CheckParent_in: "CheckParent m w p c = Some a \<Longrightarrow> table_ok m L \<Longrightarrow> a \<in> L"
  by (auto simp: CheckParent_def Let_def table_ok_def find_Some_iff dest: nth_mem)

lemma WalkDotDot_good:
  assumes g: "good R w L" "a \<in> L" "card L < 2 ^ 30" and t: "table_ok m L"
  obtains r w' where "WalkDotDot srv m (Some a) w = Some (r, w')" "yields R L w r w'"
proof -
  have dd: "str_ok ''..''" by (simp add: str_ok_def)
  let ?pth = "f_Path (w_fids w a)"
  obtain r0 w0 where C: "Clone srv (Some a) True w = Some (r0, w0)" "yields R L w r0 w0" by (rule Clone_good [OF g])
  show thesis
  proof (cases "length ?pth < 2")
    case True
    then show thesis using that C by (simp add: WalkDotDot_def Let_def)
  next
    case l: False
    show thesis
    proof (cases "CheckParent m w (?pth ! (length ?pth - 1)) (f_ID (w_fids w a))")
      case None
      obtain r w' where "Fid_WalkOne (w_fnew w) srv (Some a) ''..'' w = Some (r, w')" "yields R L w r w'"
        by (rule Fid_WalkOne_fuel [OF g dd])
      then show thesis using that l None by (simp add: WalkDotDot_def Let_def)
    next
      case (Some p)
      obtain r w' where W: "Fid_WalkOne (w_fnew w) srv (Some p) ''..'' w = Some (r, w')" "yields R L w r w'"
        by (rule Fid_WalkOne_fuel [OF g(1) CheckParent_in [OF Some t] g(3) dd])
      show thesis
      proof (cases r)
        case (Inl err)
        then show thesis using that l Some W by (simp add: WalkDotDot_def Let_def)
      next
        case (Inr b)
        let ?h = "\<lambda>f. f\<lparr>f_Path := take (length ?pth - 1) ?pth\<rparr>"
        have b: "new_fid R L w' b" "same L w w'" using W(2) Inr by (simp_all add: yields_def)
        have h: "new_fid R L (set_f b ?h w') b" "same L w (set_f b ?h w')" by (rule new_fid_set [OF b(1) _ _ _ b(2)]; simp)+
        have "WalkDotDot srv m (Some a) w = Some (Inr b, set_f b ?h w')"
          using l Some W(1) Inr by (simp add: WalkDotDot_def Let_def)
        then show thesis using that h by (simp add: yields_def)
      qed
    qed
  qed
qed

lemma first_mount_in: "first_mount m ty dev qs = Some (i, c) \<Longrightarrow> table_ok m L \<Longrightarrow> i < length qs \<and> c \<in> L"
proof (induction qs arbitrary: i)
  case (Cons q qs)
  then show ?case
    by (auto simp: CheckMount_def table_ok_def split: option.splits)
qed simp

text \<open>The result of a walk: a new fid, or nothing taken.\<close>

definition walked :: "(nat \<Rightarrow> int) \<Rightarrow> nat set \<Rightarrow> 'e world \<Rightarrow> (perror + nat option) \<Rightarrow> 'e world \<Rightarrow> bool" where
  "walked R L w r w' \<longleftrightarrow> same L w w' \<and>
     (case r of Inr (Some b) \<Rightarrow> new_fid R L w' b | _ \<Rightarrow> good R w' L)"

text \<open>The state at the head of the loop: \<open>b\<close> is the new fid, \<open>us\<close> are the members of the union behind \<open>a\<close>.\<close>

definition walking :: "(nat \<Rightarrow> int) \<Rightarrow> nat set \<Rightarrow> nat \<Rightarrow> nat \<Rightarrow> nat list \<Rightarrow> 'e world \<Rightarrow> bool" where
  "walking R L a b us w \<longleftrightarrow> good R w (insert b L) \<and> b \<notin> L \<and> chained w L \<and> a \<in> insert b L
     \<and> f_Clnt (w_fids w b) = f_Clnt (w_fids w a) \<and> f_next (w_fids w b) = None
     \<and> path (\<lambda>a. f_next (w_fids w a)) (f_next (w_fids w a)) us \<and> set us \<subseteq> L"

text \<open>The new fid is clunked and another one allocated for a fid in use.\<close>

lemma walking_restart:
  assumes g: "good R w (insert b L)" "b \<notin> L" "chained w L" and c: "c \<in> L" "card L < 2 ^ 30"
    and us: "path (\<lambda>a. f_next (w_fids w a)) (f_next (w_fids w c)) us" "set us \<subseteq> L"
  obtains w' w'' b' where "Clunk srv b w = Some (None, w')" "FidAlloc (f_Clnt (w_fids w' c)) w' = Some (b', w'')"
    "walking R L c b' us w''" "same L w w'" "same L w w''"
proof -
  obtain w' where 1: "Clunk srv b w = Some (None, w')" "good R w' L" "same L w w'" by (rule Clunk_good [OF g])
  obtain w'' where 2: "FidAlloc (f_Clnt (w_fids w' c)) w' = Some (w_fnew w', w'')" "good R w'' (insert (w_fnew w') L)" "same L w' w''"
      "f_Clnt (w_fids w'' (w_fnew w')) = f_Clnt (w_fids w' c)" "f_next (w_fids w'' (w_fnew w')) = None"
    by (rule FidAlloc_good [OF 1(2) c(2)])
  have s: "same L w w''" using same_trans [OF 1(3) 2(3)] .
  have "path (\<lambda>a. f_next (w_fids w'' a)) (f_next (w_fids w'' c)) us"
    using us(1) by (rule path_cong [THEN iffD1, rotated -1]) (use us(2) c(1) same_fid [OF s] in auto)
  then have "walking R L c (w_fnew w') us w''"
    using 2 good_fresh [OF 1(2)] chained_same [OF g(3) s] c(1) us(2) same_fid [OF 2(3) c(1)] by (simp add: walking_def)
  then show thesis using that 1 2 s by blast
qed

lemma walking_start:
  assumes g: "good R w L" "a \<in> L" "card L < 2 ^ 30"
  obtains us w' b where "FidAlloc (f_Clnt (w_fids w a)) w = Some (b, w')" "walking R L a b us w'" "same L w w'" "length us < card L"
proof -
  obtain w' where 2: "FidAlloc (f_Clnt (w_fids w a)) w = Some (w_fnew w, w')" "good R w' (insert (w_fnew w) L)" "same L w w'"
      "f_Clnt (w_fids w' (w_fnew w)) = f_Clnt (w_fids w a)" "f_next (w_fids w' (w_fnew w)) = None"
    by (rule FidAlloc_good [OF g(1,3)])
  obtain us where us: "path (\<lambda>a. f_next (w_fids w a)) (f_next (w_fids w a)) us" "set us \<subseteq> L" "length us < card L"
    by (rule chain_of [OF g(1,2)])
  have "path (\<lambda>a. f_next (w_fids w' a)) (f_next (w_fids w' a)) us"
    using us(1) by (rule path_cong [THEN iffD1, rotated -1]) (use us(2) g(2) same_fid [OF 2(3)] in auto)
  then have "walking R L a (w_fnew w) us w'"
    using 2 good_fresh [OF g(1)] chained_same [OF good_chained [OF g(1)] 2(3)] g(2) us(2) same_fid [OF 2(3) g(2)] by (simp add: walking_def)
  then show thesis using that 2 us by blast
qed

lemma walked_trans: "same L w w' \<Longrightarrow> walked R L w' r w'' \<Longrightarrow> walked R L w r w''"
  by (auto simp: walked_def intro: same_trans)

lemma walked_clunk:
  assumes "good R w (insert b L)" "b \<notin> L" "chained w L" "\<And>x. r \<noteq> Inr (Some x)"
  obtains w' where "clunk_then srv b r w = Some (r, w')" "walked R L w r w'"
proof -
  obtain w' where "Clunk srv b w = Some (None, w')" "good R w' L" "same L w w'" by (rule Clunk_good [OF assms(1-3)])
  then show thesis using that assms(4) by (auto simp: clunk_then_def walked_def split: sum.splits option.splits)
qed

text \<open>Every round that goes on has fewer names left, or is at a later member of the union.\<close>

lemma walk_blocks_good:
  assumes m: "table_ok m L" "modest srv" "card L < 2 ^ 30"
  shows "walking R L a b us w \<Longrightarrow> list_all str_ok ws \<Longrightarrow>
    \<exists>r w'. (\<forall>k > length ws * (card L + 1) + length us. walk_blocks k srv m a b pth ws w = Some (r, w')) \<and> walked R L w r w'"
proof (induction "length ws * (card L + 1) + length us" arbitrary: a b us w ws pth rule: less_induct)
  case less
  let ?B = "length ws * (card L + 1) + length us" and ?n = "min (length ws) 16"
  have W: "good R w (insert b L)" "b \<notin> L" "chained w L" "a \<in> insert b L" "f_Clnt (w_fids w b) = f_Clnt (w_fids w a)"
      "f_next (w_fids w b) = None" "path (\<lambda>a. f_next (w_fids w a)) (f_next (w_fids w a)) us" "set us \<subseteq> L"
    using less.prems(1) by (simp_all add: walking_def)
  have ok: "list_all str_ok (take ?n ws)" using less.prems(2) by (auto simp: list_all_iff dest: in_set_takeD)
  obtain r1 w1 where F: "Fid_Walk srv (Some a) b (take ?n ws) w = Some (r1, w1)" "good R w1 (insert b L)" "same (- {b}) w w1"
      "f_Clnt (w_fids w1 b) = f_Clnt (w_fids w b)" "f_next (w_fids w1 b) = None"
      "\<And>qs. r1 = Inr qs \<Longrightarrow> length qs \<le> ?n"
    by (rule Fid_Walk_good [OF W(1-3,5,6) ok, of srv]) (use m(2) in auto)
  have s1: "same L w w1" by (rule same_compl [OF F(3) W(2)])
  have c1: "chained w1 L" by (rule chained_same [OF W(3) s1])
  have n1: "f_next (w_fids w1 a) = f_next (w_fids w a)" using F(3,5) W(6) by (cases "a = b") (auto simp: same_def)
  have p1: "path (\<lambda>a. f_next (w_fids w1 a)) (f_next (w_fids w1 a)) us"
    using W(7) by (rule path_cong [THEN iffD1, rotated -1]) (use W(8) same_fid [OF s1] n1 in auto)
  note unfold = walk_blocks.simps(2) [of _ srv m a b pth ws w]
  have stop: ?case if "\<And>j. walk_blocks (Suc j) srv m a b pth ws w = Some (r, w')" "walked R L w r w'" for r w'
    using that by (intro exI [of _ r] exI [of _ w'] conjI allI impI) (metis Suc_pred bot_nat_0.not_eq_extremum not_less_zero, simp)
  have go: ?case
    if "\<And>j. walk_blocks (Suc j) srv m a b pth ws w = walk_blocks j srv m a' b' pth' ws' w'" "walking R L a' b' us' w'" "same L w w'"
      "length ws' * (card L + 1) + length us' < ?B" "list_all str_ok ws'" for a' b' us' w' ws' pth'
  proof -
    note G = that
    obtain r w'' where IH: "\<forall>k > length ws' * (card L + 1) + length us'. walk_blocks k srv m a' b' pth' ws' w' = Some (r, w'')"
        "walked R L w' r w''"
      using less.hyps [OF G(4,2,5)] by blast
    have "walk_blocks k srv m a b pth ws w = Some (r, w'')" if "k > ?B" for k
      using IH(1) that G(1,4) by (cases k) auto
    then show ?thesis using walked_trans [OF G(3) IH(2)] by blast
  qed
  show ?case
  proof (cases "case r1 of Inl _ \<Rightarrow> True | Inr qs \<Rightarrow> ?n > 0 \<and> qs = []")
    case fail: True
    show ?thesis
    proof (cases us)
      case Nil
      let ?r = "(case r1 of Inl err \<Rightarrow> Inl err | Inr _ \<Rightarrow> Inr None) :: perror + nat option"
      have nr: "?r \<noteq> Inr (Some x)" for x by (simp split: sum.split)
      obtain w' where C: "clunk_then srv b ?r w1 = Some (?r, w')" "walked R L w1 ?r w'"
        by (rule walked_clunk [OF F(2) W(2) c1 nr])
      show ?thesis
        by (rule stop [of ?r w']) (use unfold F(1) fail n1 Nil W(7) C walked_trans [OF s1 C(2)] in \<open>simp_all add: Let_def\<close>)
    next
      case (Cons u vs)
      have u: "u \<in> L" "path (\<lambda>a. f_next (w_fids w1 a)) (f_next (w_fids w1 u)) vs" "set vs \<subseteq> L" using p1 W(8) Cons by auto
      obtain w' w'' b' where N: "Clunk srv b w1 = Some (None, w')" "FidAlloc (f_Clnt (w_fids w' u)) w' = Some (b', w'')"
          "walking R L u b' vs w''" "same L w1 w''"
        by (rule walking_restart [OF F(2) W(2) c1 u(1) m(3) u(2,3)]) blast
      have nx: "f_next (w_fids w1 a) = Some u" using p1 Cons by simp
      show ?thesis
        by (rule go [OF _ N(3) same_trans [OF s1 N(4)], of pth ws])
          (use unfold F(1) fail nx N(1,2) Cons less.prems(2) in \<open>simp_all add: Let_def\<close>)
    qed
  next
    case ok: False
    then obtain qs where qs: "r1 = Inr qs" "length qs \<le> ?n" "?n = 0 \<or> qs \<noteq> []" using F(6) by (cases r1) auto
    then have nf: "(ws \<noteq> [] \<and> qs = []) = False" by (cases ws) auto
    define w2 where "w2 = (if ws = [] then set_f b (\<lambda>x. x\<lparr>f_next := f_next (w_fids w1 a), f_prev := f_prev (w_fids w1 a)\<rparr>) w1 else w1)"
    have 2: "good R w2 (insert b L)" "same (- {b}) w1 w2" 
      using F(2) set_f_good [OF F(2) W(2) c1, of "\<lambda>x. x\<lparr>f_next := f_next (w_fids w1 a), f_prev := f_prev (w_fids w1 a)\<rparr>" us] p1 W(8)
      by (simp_all add: w2_def)
    have s2: "same L w w2" using same_trans [OF s1 same_compl [OF 2(2) W(2)]] .
    have c2: "chained w2 L" by (rule chained_same [OF W(3) s2])
    let ?ty = "fi_Type (f_ID (w_fids w a)) AND NOT NOREMAP" and ?dev = "fi_Dev (f_ID (w_fids w a))"
    let ?M = "first_mount m (fi_Type (f_ID (w_fids w2 a))) (fi_Dev (f_ID (w_fids w2 a))) qs"
    show ?thesis
    proof (cases ?M)
      case (Some ic)
      obtain i c where ic: "ic = (i, c)" by (cases ic)
      have i: "i < length qs" "c \<in> L" using first_mount_in [OF Some [unfolded ic] m(1)] by auto
      have g2: "good R w2 (insert b L)" "c \<in> insert b L" using 2(1) i(2) by auto
      obtain us' where us': "path (\<lambda>a. f_next (w_fids w2 a)) (f_next (w_fids w2 c)) us'" "set us' \<subseteq> L"
        by (rule chainedE [OF c2 i(2)])
      obtain w' w'' b' where N: "Clunk srv b w2 = Some (None, w')" "FidAlloc (f_Clnt (w_fids w' c)) w' = Some (b', w'')"
          "walking R L c b' us' w''" "same L w2 w''"
        by (rule walking_restart [OF 2(1) W(2) c2 i(2) m(3) us']) blast
      have le: "length us' \<le> card L"
      proof -
        have "good R w' L" using Clunk_good [OF 2(1) W(2) c2, of srv] N(1) by (metis option.inject prod.inject)
        then show ?thesis using card_mono [OF good_finite us'(2)] path_distinct [OF us'(1)] by (metis distinct_card)
      qed
      obtain z zs where ws: "ws = z # zs" using i(1) qs(2) by (cases ws) auto
      have li: "\<not> length zs < i" using i(1) qs(2) ws by simp
      let ?ws = "drop (i + 1) ws"
      have "length ?ws * (card L + 1) \<le> length zs * (card L + 1)" using ws by (intro mult_le_mono1) simp
      then have B: "length ?ws * (card L + 1) + length us' < ?B" using le ws by simp
      have okw: "list_all str_ok ?ws" using less.prems(2) by (auto simp: list_all_iff dest: in_set_dropD)
      show ?thesis
        by (rule go [OF _ N(3) same_trans [OF s2 N(4)] B okw, where pth' = "pth @ fileid_list ?ty ?dev (take (i + 1) qs)"])
          (use unfold F(1) qs li Some ic N(1,2) ws in \<open>simp add: Let_def w2_def\<close>)
    next
      case None
      show ?thesis
      proof (cases "length qs = ?n")
        case False
        let ?r = "Inl Enofile :: perror + nat option"
        have nr: "?r \<noteq> Inr (Some x)" for x by simp
        obtain w' where C: "clunk_then srv b ?r w2 = Some (?r, w')" "walked R L w2 ?r w'"
          by (rule walked_clunk [OF 2(1) W(2) c2 nr])
        show ?thesis
          by (rule stop [of ?r w']) (use unfold F(1) qs None False C walked_trans [OF s2 C(2)] in \<open>simp_all add: Let_def nf w2_def [symmetric]\<close>)
      next
        case True
        let ?h = "\<lambda>x. x\<lparr>f_Path := pth @ fileid_list ?ty ?dev qs\<rparr>"
        show ?thesis
        proof (cases "drop ?n ws = []")
          case True
          have "f_next (w_fids w2 b) = None \<or> (a \<in> L \<and> f_next (w_fids w2 b) = f_next (w_fids w2 a))"
            using F(5) n1 same_fid [OF s2] same_fid [OF s1] W(4) by (cases "a = b") (auto simp: w2_def)
          then have n: "new_fid R L w2 b" using 2(1) W(2) c2 by (auto simp: new_fid_def)
          have h: "new_fid R L (set_f b ?h w2) b" "same L w (set_f b ?h w2)"
            by (rule new_fid_set [OF n _ _ _ s2]; simp)+
          show ?thesis
            by (rule stop [of "Inr (Some b)" "set_f b ?h w2"])
              (use unfold F(1) qs None True h \<open>length qs = ?n\<close> in \<open>simp_all add: Let_def nf w2_def [symmetric] walked_def\<close>)
        next
          case False
          then have w2: "w2 = w1" and lw: "length ws > 16" "ws \<noteq> []" by (auto simp: w2_def)
          have "(length ws - 16) * (card L + 1) < length ws * (card L + 1)" using lw by (intro mult_less_mono1) auto
          then have B: "length (drop ?n ws) * (card L + 1) + length [] < ?B" using lw by simp
          have okw: "list_all str_ok (drop ?n ws)" using less.prems(2) by (auto simp: list_all_iff dest: in_set_dropD)
          have wk: "walking R L b b [] w1" using F W(2) c1 by (simp add: walking_def)
          show ?thesis
            by (rule go [OF _ wk s1 B okw, where pth' = "pth @ fileid_list ?ty ?dev qs"])
              (use unfold F(1) qs None w2 lw \<open>length qs = ?n\<close> in \<open>simp add: Let_def nf\<close>)
        qed
      qed
    qed
  qed
qed

lemma new_fid_back:
  assumes c: "new_fid R (insert b L) w c" and b: "new_fid R L w0 b" and s: "same (insert b L) w0 w"
  obtains w' where "Clunk srv b w = Some (None, w')" "same L w w'" "new_fid R L w' c"
proof -
  let ?f = "\<lambda>w a. f_next (w_fids w a)"
  have bL: "b \<notin> L" "chained w0 L" and cL: "c \<notin> insert b L" "good R w (insert c (insert b L))" "chained w (insert b L)"
    using b c by (simp_all add: new_fid_def)
  have sL: "same L w0 w" using same_mono [OF s] by auto
  have ch: "chained w L" by (rule chained_same [OF bL(2) sL])
  have b0: "?f w b = None \<or> (\<exists>a\<in>L. ?f w b = ?f w a)"
    using b same_fid [OF s] same_fid [OF sL] unfolding new_fid_def by (metis insertI1)
  then have c0: "?f w c = None \<or> (\<exists>a\<in>L. ?f w c = ?f w a)" using c unfolding new_fid_def by auto
  obtain us where us: "path (?f w) (?f w c) us" "set us \<subseteq> L"
  proof (cases "?f w c = None")
    case True
    then show thesis using that [of "[]"] by simp
  next
    case False
    then obtain a where "a \<in> L" "?f w c = ?f w a" using c0 by auto
    then show thesis using that chainedE [OF ch] by metis
  qed
  have g: "good R w (insert b (insert c L))" "b \<notin> insert c L" using cL bL(1) by (auto simp: insert_commute)
  have cc: "chained w (insert c L)" by (rule chained_insert [OF ch us])
  obtain w' where w': "Clunk srv b w = Some (None, w')" "good R w' (insert c L)" "same (insert c L) w w'"
    by (rule Clunk_good [OF g cc])
  have s': "same L w w'" using same_mono [OF w'(3)] by auto
  have "?f w' c = None \<or> (\<exists>a\<in>L. ?f w' c = ?f w' a)" using c0 same_fid [OF w'(3)] same_fid [OF s'] by auto
  then have "new_fid R L w' c" using w'(2) cL(1) chained_same [OF ch s'] by (simp add: new_fid_def)
  then show thesis using that w'(1) s' by blast
qed


text \<open>A new client has no fids.\<close>

lemma good_start:
  assumes "\<And>n. 11 \<le> unat (ch_Msize (w_clnts w n))" "\<And>p. w_pools w p = newPool NOFID" "\<And>n. ch_ref (w_clnts w n) = R n"
  shows "good R w {}"
  using assms by (simp add: good_def owns_def chained_def pool_holds_def newPool_def ids_def)

definition echo_walk :: "'e server" where
  "echo_walk n tc e = (Inr ((NewFcall 24)\<lparr>fc_Type := Rwalk, fc_Wqid := map (\<lambda>_. zero_Qid) (fc_Wname tc)\<rparr>), e)"

definition attached :: "unit world" where
  "attached = snd (the (FidAlloc 0 (one_client ())))"

lemma attached_good: "good (\<lambda>_. 1) attached {1}"
proof -
  have "good (\<lambda>_. 1) (one_client ()) {}" by (rule good_start) (simp_all add: one_client_def)
  then obtain w where "FidAlloc 0 (one_client ()) = Some (w_fnew (one_client ()), w)" "good (\<lambda>_. 1) w (insert (w_fnew (one_client ())) {})"
    by (rule FidAlloc_good [of _ _ "{}" 0]) auto
  then show ?thesis by (simp add: attached_def one_client_def)
qed


subsection \<open>What goes wrong\<close>

text \<open>An \<open>Attach\<close> that fails has taken a fid, which is lost to the caller.\<close>

lemma transact_Inl:
  assumes "transact srv n pack k w = Some (Inl err, w')" "\<And>rc w. \<exists>b w'. k rc w = Some (Inr b, w')"
  shows "\<exists>e. w' = w\<lparr>w_env := e\<rparr>"
proof -
  have R: "\<exists>e. w'' = w\<lparr>w_env := e\<rparr>" if "Rpc srv n tc w = (r, w'')" for tc r w''
    using that by (intro exI [of _ "snd (srv n tc (w_env w))"]) (auto simp: Rpc_def split_beta)
  moreover have "k rc w'' \<noteq> Some (Inl err, w')" for rc w'' using assms(2) [of rc w''] by auto
  moreover have "\<exists>e. w = w\<lparr>w_env := e\<rparr>" by (rule exI [of _ "w_env w"]) simp
  ultimately show ?thesis
    using assms(1) by (auto simp: transact_def dest: R split: Option.bind_splits sum.splits prod.splits option.splits)
qed

lemma Attach_error_leaks:
  assumes "good R w L" "card L < 2 ^ 30" "Attach srv n afid user aname w = Some (Inl err, w')"
  shows "w_fnew w \<notin> L \<and> good R w' (insert (w_fnew w) L)"
proof -
  obtain w1 where 1: "FidAlloc n w = Some (w_fnew w, w1)" "good R w1 (insert (w_fnew w) L)"
    by (rule FidAlloc_good [OF assms(1,2)])
  have "\<exists>e. w' = w1\<lparr>w_env := e\<rparr>"
    by (rule transact_Inl) (use assms(3) 1(1) in \<open>auto simp: Attach_def Let_def\<close>)
  then show ?thesis using 1(2) good_fresh [OF assms(1)] by auto
qed

end
