(* ===== verification/Chan_Mount.thy ===== *)
theory Chan_Mount
  imports Chan_Own
begin

section \<open>Unions of directories as lists\<close>

text \<open>
  The union mounted on a directory is the list of fids reached from its head by \<open>next\<close>.  \<open>Mount\<close> refines
  what the manual of Plan 9 says of \<open>bind\<close>: replace, before and after.  The last part is about the other
  link, \<open>prev\<close>, by which a member is taken out of its union.
\<close>

definition union_list :: "mnttab \<Rightarrow> 'e world \<Rightarrow> FileID \<Rightarrow> nat list \<Rightarrow> bool" where
  "union_list m w pid us \<longleftrightarrow> path (\<lambda>a. f_next (w_fids w a)) (children m pid) us"

definition mount_op :: "u32 \<Rightarrow> nat \<Rightarrow> nat \<Rightarrow> nat list \<Rightarrow> nat list" where
  "mount_op flags ch par us = (if flags AND MORDER = MREPL then [ch]
     else (let us = (if us = [] then [par] else us) in
       if flags AND MORDER = MAFTER then us @ [ch] else if flags AND MORDER = MBEFORE then ch # us else us))"

lemma push_dups_none:
  assumes "path (\<lambda>a. f_next (h a)) (Some c) (us @ [l])" "length us < k" "\<forall>x\<in>set us. f_ID (h x) \<noteq> cid"
  shows "push_dups k h pid cid c s m = Some (l, s, m)"
  using assms
proof (induction us arbitrary: k c)
  case Nil
  then show ?case by (cases k) auto
next
  case (Cons u us)
  obtain j where k: "k = Suc j" using Cons.prems(2) by (cases k) auto
  obtain nx where nx: "f_next (h u) = Some nx" using Cons.prems(1) by (cases us) auto
  then have "push_dups j h pid cid nx s m = Some (l, s, m)" using Cons.prems k by (intro Cons.IH) auto
  then show ?case using Cons.prems k nx by simp
qed

lemma push_tables [simp]:
  "m_Children (snd (push s p c m)) = m_Children m" "m_Parents (snd (push s p c m)) = m_Parents m"
  by (simp_all add: push_def Let_def split: option.split)

lemma enter_mount_tables [simp]:
  "m_Children (enter_mount par pid cid m) = m_Children m"
  "m_Parents (enter_mount par pid cid m) = (m_Parents m)(cid := m_Parents m cid @ [par])"
  by (simp_all add: enter_mount_def Let_def split_beta)

lemma or_Type_simps [simp]:
  "f_next (or_Type t f) = f_next f" "f_prev (or_Type t f) = f_prev f"
  "f_ID (or_Type t f) = (f_ID f)\<lparr>fi_Type := fi_Type (f_ID f) OR t\<rparr>"
  by (simp_all add: or_Type_def)

lemma children_upd [simp]:
  "children (m\<lparr>m_Children := f(p := Some c)\<rparr>) q = (if q = p then c else children (m\<lparr>m_Children := f\<rparr>) q)"
  "children (m\<lparr>m_Children := m_Children n\<rparr>) q = children n q"
  by (simp_all add: children_def)

lemma children_enter [simp]: "children (enter_mount par pid cid m) q = children m q"
  by (simp add: children_def)

lemma mount_check_single:
  "mount_check m c p flags = None \<Longrightarrow> f_next c = None \<and> f_prev c = None \<and> f_next p = None \<and> f_prev p = None"
  by (simp add: mount_check_def Let_def split: if_splits)

lemma children_some: "path f (children m pid) us \<Longrightarrow> us \<noteq> [] \<Longrightarrow> children m pid = Some (hd us)"
  by (cases us) auto

abbreviation masked :: "FileID \<Rightarrow> FileID" where
  "masked i \<equiv> i\<lparr>fi_Type := fi_Type i OR NOREMAP\<rparr>"

text \<open>The three ways to link the new mount, after the checks.\<close>

lemma Mount_replace:
  assumes "mount_check m (w_fids w ch) (w_fids w par) flags = None" "flags AND MORDER = MREPL"
    and "children m (f_ID (w_fids w par)) = None" "ch \<noteq> par"
  shows "\<exists>m' w'. Mnt_Mount k srv (Some ch) (Some par) flags (m, w) = Some (None, m', w')
    \<and> m_Children m' = (m_Children m)(f_ID (w_fids w par) := Some (Some ch))
    \<and> m_Parents m' = (m_Parents m)(f_ID (w_fids w ch) := m_Parents m (f_ID (w_fids w ch)) @ [par])
    \<and> (\<forall>a. f_next (w_fids w' a) = f_next (w_fids w a) \<and> f_prev (w_fids w' a) = f_prev (w_fids w a))
    \<and> f_ID (w_fids w' par) = f_ID (w_fids w par) \<and> (\<forall>a. a \<noteq> ch \<longrightarrow> w_fids w' a = w_fids w a)
    \<and> w_pools w' = w_pools w \<and> w_env w' = w_env w"
  using assms by (simp add: Mnt_Mount_def Let_def)

lemma Mount_first:
  assumes "mount_check m (w_fids w ch) (w_fids w par) flags = None" "flags AND MORDER \<noteq> MREPL"
    and "children m (f_ID (w_fids w par)) = None" "ch \<noteq> par"
  shows "\<exists>m' w'. Mnt_Mount k srv (Some ch) (Some par) flags (m, w) = Some (None, m', w')
    \<and> union_list m' w' (f_ID (w_fids w par)) (mount_op flags ch par [])
    \<and> (\<forall>q. q \<noteq> f_ID (w_fids w par) \<longrightarrow> children m' q = children m q)
    \<and> m_Parents m' = (m_Parents m)(f_ID (w_fids w ch) := m_Parents m (f_ID (w_fids w ch)) @ [par])
    \<and> (\<forall>a. a \<noteq> ch \<and> a \<noteq> par \<longrightarrow> w_fids w' a = w_fids w a) \<and> masked (f_ID (w_fids w' par)) = masked (f_ID (w_fids w par))
    \<and> w_pools w' = w_pools w \<and> w_env w' = w_env w"
  using assms mount_check_single [OF assms(1)]
  by (auto simp: Mnt_Mount_def Let_def union_list_def mount_op_def or.assoc)

lemma Mount_again:
  assumes "mount_check m (w_fids w ch) (w_fids w par) flags = None" "flags AND MORDER \<noteq> MREPL"
    and us: "union_list m w (f_ID (w_fids w par)) us" "us \<noteq> []" and n: "ch \<noteq> par" "ch \<notin> set us" "set us \<subseteq> {..<w_fnew w}"
    and dup: "\<forall>u\<in>set (butlast us). f_ID (w_fids w u) \<noteq> f_ID (w_fids w ch)"
  shows "\<exists>m' w'. Mnt_Mount k srv (Some ch) (Some par) flags (m, w) = Some (None, m', w')
    \<and> union_list m' w' (f_ID (w_fids w par)) (mount_op flags ch par us)
    \<and> (\<forall>q. q \<noteq> f_ID (w_fids w par) \<longrightarrow> children m' q = children m q)
    \<and> m_Parents m' = (m_Parents m)(f_ID (w_fids w ch) := m_Parents m (f_ID (w_fids w ch)) @ [par])
    \<and> (\<forall>a. a \<noteq> ch \<and> a \<notin> set us \<longrightarrow> w_fids w' a = w_fids w a)
    \<and> w_pools w' = w_pools w \<and> w_env w' = w_env w"
proof -
  let ?pid = "f_ID (w_fids w par)" and ?cid = "f_ID (w_fids w ch)"
  define w1 where "w1 = set_f ch (\<lambda>f. f\<lparr>f_MayCreate := (flags AND MCREATE \<noteq> 0), f_MayCache := (flags AND MCACHE \<noteq> 0)\<rparr>) w"
  define m1 where "m1 = enter_mount par ?pid ?cid m"
  obtain vs l where l: "us = vs @ [l]" using us(2) by (metis append_butlast_last_id)
  have ch: "children m ?pid = Some (hd us)" using us unfolding union_list_def by (rule children_some)
  have nx: "f_next (w_fids w1 a) = f_next (w_fids w a)" "f_prev (w_fids w1 a) = f_prev (w_fids w a)" for a by (simp_all add: w1_def)
  have p: "path (\<lambda>a. f_next (w_fids w1 a)) (Some (hd us)) (vs @ [l])"
    using us(1) ch l by (simp add: union_list_def nx)
  have "length us \<le> w_fnew w" using path_length [OF us(1) [unfolded union_list_def] n(3)] .
  then have "push_dups (w_fnew w1) (w_fids w1) ?pid ?cid (hd us) None m1 = Some (l, None, m1)"
    using dup l n(2) by (intro push_dups_none [OF p]) (auto simp: w1_def)
  moreover have "l \<noteq> ch" using n(2) l by auto
  moreover have "MREPL \<noteq> MAFTER" "MREPL \<noteq> MBEFORE" "MAFTER \<noteq> MBEFORE" by (simp_all add: MREPL_def MAFTER_def MBEFORE_def)
  moreover have "union_list m1 (set_f l (\<lambda>f. f\<lparr>f_next := Some ch\<rparr>) (set_f ch (\<lambda>f. f\<lparr>f_prev := Some l\<rparr>) w1)) ?pid (us @ [ch])"
  proof -
    have "path ((\<lambda>a. f_next (w_fids w1 a))(l := Some ch, ch := None)) (Some (hd us)) (vs @ [l, ch])"
      using path_snoc [OF p] n(2) l by auto
    moreover have "f_next (w_fids w1 ch) = None" using mount_check_single [OF assms(1)] nx by simp
    ultimately show ?thesis
      using l ch \<open>l \<noteq> ch\<close> by (auto simp: union_list_def m1_def elim!: path_cong [THEN iffD1, rotated -1])
  qed
  moreover have "union_list (m1\<lparr>m_Children := (m_Children m1)(?pid \<mapsto> Some ch)\<rparr>) (set_f ch (\<lambda>f. f\<lparr>f_next := Some (hd us)\<rparr>) w1) ?pid (ch # us)"
    using p n(2) l by (auto simp: union_list_def elim!: path_cong [THEN iffD1, rotated -1])
  moreover have "union_list m1 w1 ?pid us" using p ch l by (simp add: union_list_def m1_def)
  moreover have "children m1 q = children m q" "m_Parents m1 = (m_Parents m)(?cid := m_Parents m ?cid @ [par])" for q
    by (simp_all add: m1_def)
  moreover have "a \<noteq> ch \<Longrightarrow> w_fids w1 a = w_fids w a" "w_pools w1 = w_pools w" "w_env w1 = w_env w" for a by (simp_all add: w1_def)
  ultimately show ?thesis
    using assms(1,2) us(2) ch l n
    by (cases "flags AND MORDER = MAFTER"; cases "flags AND MORDER = MBEFORE")
      (simp_all add: Mnt_Mount_def Let_def w1_def [symmetric] m1_def [symmetric] mount_op_def)
qed

lemma CheckParent_last: "masked (f_ID (w_fids w par)) = masked pid \<Longrightarrow> m_Parents m cid = ps @ [par] \<Longrightarrow> CheckParent m w pid cid \<noteq> None"
  by (auto simp: CheckParent_def Let_def find_None_iff)


text \<open>Directories 0, 1, 2 and 3 of one device; directory 0 has the union of the fid 2.\<close>

definition dir_fid :: "nat \<Rightarrow> cfid" where
  "dir_fid a = zero_cfid\<lparr>f_ID := zero_FileID\<lparr>fi_Qid := \<lparr>qid_Type = QTDIR, qid_Version = 0, qid_Path = of_nat a\<rparr>\<rparr>\<rparr>"

definition dirs :: "unit world" where
  "dirs = (one_client ())\<lparr>w_fids := dir_fid, w_fnew := 4\<rparr>"

definition table1 :: mnttab where
  "table1 = (NewMnttab 0)\<lparr>m_Children := (\<lambda>_. None)(f_ID (dir_fid 0) := Some (Some 2))\<rparr>"

lemmas dirs_defs = dirs_def one_client_def dir_fid_def zero_cfid_def zero_FileID_def table1_def NewMnttab_def


subsection \<open>What goes wrong\<close>

text \<open>
  A mount before the head of a union does not set the head's \<open>prev\<close>, by which \<open>remove_from_union\<close> would
  unlink it: when it is unmounted later, its fid is clunked and stays in the union.
\<close>

lemma Mount_before_keeps_prev:
  assumes "mount_check m (w_fids w ch) (w_fids w par) MBEFORE = None" "children m (f_ID (w_fids w par)) = Some h" "f_next (w_fids w h) = None"
    and "ch \<noteq> h" "0 < w_fnew w" "f_prev (w_fids w h) = None"
  shows "\<exists>m' w'. Mnt_Mount k srv (Some ch) (Some par) MBEFORE (m, w) = Some (None, m', w')
    \<and> union_list m' w' (f_ID (w_fids w par)) [ch, h] \<and> f_prev (w_fids w' h) = None \<and> w_fids w' h = w_fids w h"
proof -
  obtain j where j: "w_fnew w = Suc j" using assms(5) by (cases "w_fnew w") auto
  have "MBEFORE AND MORDER = MBEFORE" "MBEFORE \<noteq> MREPL" "MBEFORE \<noteq> MAFTER" by code_simp+
  then show ?thesis
    using assms j by (simp add: Mnt_Mount_def Let_def union_list_def)
qed

lemma clunked_stays_in_union:
  assumes "f_next (w_fids w ch) = Some h" "f_ID (w_fids w ch) \<noteq> f_ID (w_fids w h)" "f_next (w_fids w h) = None" "f_prev (w_fids w h) = None" "0 < w_fnew w"
  shows "remove_from_union srv (Some ch) (f_ID (w_fids w h)) True w = map_option (\<lambda>(_, w). (Some ch, w)) (Clunk srv h w)"
proof -
  obtain j where j: "w_fnew w = Suc j" using assms(5) by (cases "w_fnew w") auto
  show ?thesis
    using assms j by (cases "Clunk srv h w") (auto simp: remove_from_union_def clunk_if_def)
qed

text \<open>\<open>Umount\<close> of all mounts on a directory puts only the head of the union on the list of mounts to remove.\<close>

lemma umount_all_removes_head:
  assumes "m_Children m (f_ID (w_fids w p)) = Some (Some h)" "Clunk srv p w = Some (r, w')"
  shows "\<exists>m'. Umount k srv None (Some p) (m, w) = map_option (Pair None) (rm_mnt k srv (Some (m_nnew m)) (m', w'))
    \<and> m_nodes m' (m_nnew m) = \<lparr>s_parent = f_ID (w_fids w p), s_child = f_ID (w_fids w' h), s_next = None, s_prev = None\<rparr>"
  using assms by (intro exI [of _ "snd (push None (f_ID (w_fids w p)) (f_ID (w_fids w' h)) m)"]) (simp add: Umount_def Let_def push_def)

end
