(* ===== verification/Clnt_Fid.thy ===== *)
theory Clnt_Fid
  imports Chan_File P9_Fmt
begin

section \<open>The package clnt: a client of one server, without a namespace (p/clnt)\<close>

text \<open>
  The older client: a \<open>Clnt\<close> has the fids of one connection, its own pool of numbers and a root fid.  The
  state \<open>lclnt\<close> is what the operations on fids and files need; \<open>srv\<close> is the other end, as in \<open>Chan_Fid\<close>.  The
  methods \<open>Auth\<close> and \<open>Attach\<close> call \<open>fid.Clunk()\<close>, which the package does not define; it is read as
  \<open>clnt.Clunk(fid)\<close>.  Loops that are the same as in \<open>chan9\<close> are the definitions made there.
\<close>

subsection \<open>State\<close>

record lfid =
  lf_Iounit :: u32
  lf_Qid :: Qid
  lf_Mode :: u8
  lf_Fid :: u32
  lf_User :: "(string \<times> u32) option"
  lf_walked :: bool

record 'e lclnt =
  lc_Msize :: u32
  lc_Dotu :: bool
  lc_Root :: "nat option"
  lc_Id :: string
  lc_fidpool :: pool
  lc_err :: "perror option"
  lc_fids :: "nat \<Rightarrow> lfid"
  lc_new :: nat
  lc_env :: 'e

type_synonym 'e lserver = "Fcall \<Rightarrow> 'e \<Rightarrow> (perror + Fcall) \<times> 'e"

type_synonym ('a, 'e) lact = "'e lclnt \<Rightarrow> ((perror + 'a) \<times> 'e lclnt) option"

definition zero_lfid :: lfid where
  "zero_lfid = \<lparr>lf_Iounit = 0, lf_Qid = zero_Qid, lf_Mode = 0, lf_Fid = 0, lf_User = None, lf_walked = False\<rparr>"

definition set_lf :: "nat \<Rightarrow> (lfid \<Rightarrow> lfid) \<Rightarrow> 'e lclnt \<Rightarrow> 'e lclnt" where
  "set_lf a g c = c\<lparr>lc_fids := (lc_fids c)(a := g (lc_fids c a))\<rparr>"

lemma set_lf_simps [simp]:
  "lc_fids (set_lf a g c) = (lc_fids c)(a := g (lc_fids c a))" "lc_new (set_lf a g c) = lc_new c"
  "lc_Msize (set_lf a g c) = lc_Msize c" "lc_Dotu (set_lf a g c) = lc_Dotu c" "lc_fidpool (set_lf a g c) = lc_fidpool c"
  "lc_err (set_lf a g c) = lc_err c" "lc_env (set_lf a g c) = lc_env c" "lc_Root (set_lf a g c) = lc_Root c"
  by (simp_all add: set_lf_def)

text \<open>This \<open>putId\<close> does not know \<open>NOFID\<close>.\<close>

definition clnt_putId :: "u32 \<Rightarrow> pool \<Rightarrow> (u32 option \<times> pool) option" where
  "clnt_putId n pl = (if pl_need pl > 0 then Some (Some n, pl\<lparr>pl_need := pl_need pl - 1\<rparr>)
     else (let i = unat (n div 8) in
       if i < length (pl_imap pl) then
         Some (None, pl\<lparr>pl_imap := (pl_imap pl)[i := (pl_imap pl ! i) AND NOT (push_bit (unat (n mod 8)) 1)]\<rparr>)
       else None))"

subsection \<open>Requests\<close>

text \<open>The result of \<open>Rpc\<close> is the error, and the response when there is one.\<close>

definition lRpc :: "'e lserver \<Rightarrow> Fcall \<Rightarrow> 'e lclnt \<Rightarrow> (perror option \<times> Fcall option) \<times> 'e lclnt" where
  "lRpc srv tc c = (case lc_err c of
     Some err \<Rightarrow> ((Some err, None), c)
   | None \<Rightarrow> (case srv tc (lc_env c) of (r, e) \<Rightarrow>
       (case r of Inl err \<Rightarrow> (Some err, None) | Inr rc \<Rightarrow> (reply_err (fc_Type tc) rc None, Some rc), c\<lparr>lc_env := e\<rparr>)))"

definition ltransact :: "'e lserver \<Rightarrow> (Fcall \<Rightarrow> (perror + Fcall) option) \<Rightarrow> (Fcall \<Rightarrow> ('a, 'e) lact) \<Rightarrow> ('a, 'e) lact" where
  "ltransact srv pack k c = do {
     tc \<leftarrow> pack (NewFcall (lc_Msize c));
     (case tc of
        Inl err \<Rightarrow> Some (Inl err, c)
      | Inr tc \<Rightarrow> (case lRpc srv tc c of
          ((Some err, _), c) \<Rightarrow> Some (Inl err, c)
        | ((None, rc), c) \<Rightarrow> do {
            rc \<leftarrow> rc;
            (case rerror rc of Some err \<Rightarrow> Some (Inl err, c) | None \<Rightarrow> k rc c) })) }"

definition lFidAlloc :: "'e lclnt \<Rightarrow> (nat \<times> 'e lclnt) option" where
  "lFidAlloc c = (case getId (lc_fidpool c) of
     (None, pl) \<Rightarrow> None
   | (Some k, pl) \<Rightarrow> Some (lc_new c, c\<lparr>lc_fidpool := pl, lc_new := Suc (lc_new c),
       lc_fids := (lc_fids c)(lc_new c := zero_lfid\<lparr>lf_Fid := k\<rparr>)\<rparr>))"

definition lput :: "nat \<Rightarrow> 'e lclnt \<Rightarrow> 'e lclnt option" where
  "lput a c = map_option (\<lambda>(_, pl). set_lf a (\<lambda>f. f\<lparr>lf_Fid := NOFID\<rparr>) (c\<lparr>lc_fidpool := pl\<rparr>))
     (clnt_putId (lf_Fid (lc_fids c a)) (lc_fidpool c))"

text \<open>The error of the \<open>Rpc\<close> is assigned to an inner variable and lost.\<close>

definition lClunk :: "'e lserver \<Rightarrow> nat \<Rightarrow> 'e lclnt \<Rightarrow> (perror option \<times> 'e lclnt) option" where
  "lClunk srv a c = do {
     (err, c) \<leftarrow> (if lf_walked (lc_fids c a) then do {
         tc \<leftarrow> PackTclunk (NewFcall (lc_Msize c)) (lf_Fid (lc_fids c a));
         (case tc of Inl err \<Rightarrow> Some (Some err, c) | Inr tc \<Rightarrow> Some (None, snd (lRpc srv tc c))) }
       else Some (None, c));
     (case err of
        Some err \<Rightarrow> Some (Some err, c)
      | None \<Rightarrow> map_option (Pair None) (lput a (set_lf a (\<lambda>f. f\<lparr>lf_walked := False\<rparr>) c))) }"

definition lclunk_then :: "'e lserver \<Rightarrow> nat \<Rightarrow> (perror + 'a) \<Rightarrow> ('a, 'e) lact" where
  "lclunk_then srv a r c = map_option (\<lambda>(_, c). (r, c)) (lClunk srv a c)"

subsection \<open>Walking\<close>

definition lWalk :: "'e lserver \<Rightarrow> nat \<Rightarrow> nat \<Rightarrow> string list \<Rightarrow> (Qid list, 'e) lact" where
  "lWalk srv fid newfid wnames c = ltransact srv
     (\<lambda>tc. PackTwalk tc (lf_Fid (lc_fids c fid)) (lf_Fid (lc_fids c newfid)) wnames)
     (\<lambda>rc c. Some (Inr (fc_Wqid rc),
        if length (fc_Wqid rc) = length wnames then
          set_lf newfid (\<lambda>f. f\<lparr>lf_Qid := (if fc_Wqid rc \<noteq> [] then last (fc_Wqid rc) else lf_Qid (lc_fids c fid)),
            lf_walked := True\<rparr>) c
        else c)) c"

text \<open>The names of a path: it is split at the slashes, and the empty names are dropped.\<close>

definition path_names :: "string \<Rightarrow> string list" where
  "path_names s = filter (\<lambda>n. n \<noteq> []) (split_at CHR ''/'' (dropWhile (\<lambda>c. c = CHR ''/'') s))"

function lwalk_chunks :: "'e lserver \<Rightarrow> nat \<Rightarrow> nat \<Rightarrow> string list \<Rightarrow> (unit, 'e) lact" where
  "lwalk_chunks srv fid newfid wnames c = (let n = min 16 (length wnames) in do {
     (r, c) \<leftarrow> lWalk srv fid newfid (take n wnames) c;
     (case r of
        Inl err \<Rightarrow> Some (Inl err, c)
      | Inr wqid \<Rightarrow>
          if length wqid \<noteq> n then Some (Inl Enofile, c)
          else if drop n wnames = [] then Some (Inr (), c)
          else lwalk_chunks srv newfid newfid (drop n wnames) c) })"
  by pat_completeness auto
termination by (relation "measure (\<lambda>(srv, fid, newfid, wnames, c). length wnames)") auto

declare lwalk_chunks.simps [simp del]

definition lFWalk :: "'e lserver \<Rightarrow> string \<Rightarrow> (nat, 'e) lact" where
  "lFWalk srv pth c = do {
     (newfid, c) \<leftarrow> lFidAlloc c;
     fid \<leftarrow> lc_Root c;
     let c = set_lf newfid (\<lambda>f. f\<lparr>lf_User := lf_User (lc_fids c fid)\<rparr>) c;
     (r, c) \<leftarrow> lwalk_chunks srv fid newfid (path_names pth) c;
     (case r of
        Inl err \<Rightarrow> lclunk_then srv newfid (Inl err) c
      | Inr _ \<Rightarrow> Some (Inr newfid, c)) }"

subsection \<open>Connecting (p/clnt/mount.go, and NewClnt and Connect of clnt.go)\<close>

definition new_lclnt :: "u32 \<Rightarrow> bool \<Rightarrow> 'e \<Rightarrow> 'e lclnt" where
  "new_lclnt msize dotu e = \<lparr>lc_Msize = msize, lc_Dotu = dotu, lc_Root = None, lc_Id = [], lc_fidpool = newPool NOFID,
     lc_err = None, lc_fids = (\<lambda>_. zero_lfid), lc_new = 0, lc_env = e\<rparr>"

definition lConnect :: "'e lserver \<Rightarrow> string \<Rightarrow> u32 \<Rightarrow> bool \<Rightarrow> 'e \<Rightarrow> ((perror + unit) \<times> 'e lclnt) option" where
  "lConnect srv addr msize dotu e = (let c = (new_lclnt msize dotu e)\<lparr>lc_Id := addr @ '':''\<rparr> in do {
     tc \<leftarrow> PackTversion (NewFcall (lc_Msize c)) (lc_Msize c) (if lc_Dotu c then ''9P2000.u'' else ''9P2000'');
     (case tc of
        Inl err \<Rightarrow> Some (Inl err, c)
      | Inr tc \<Rightarrow> (case lRpc srv tc c of
          ((Some err, _), c) \<Rightarrow> Some (Inl err, c)
        | ((None, rc), c) \<Rightarrow> do {
            rc \<leftarrow> rc;
            let c = c\<lparr>lc_Msize := (if fc_Msize rc < lc_Msize c then fc_Msize rc else lc_Msize c)\<rparr>;
            Some (Inr (), c\<lparr>lc_Dotu := (fc_Version rc = ''9P2000.u'' \<and> lc_Dotu c)\<rparr>) })) })"

definition lAuth :: "'e lserver \<Rightarrow> string \<times> u32 \<Rightarrow> string \<Rightarrow> (nat, 'e) lact" where
  "lAuth srv user aname c = do {
     (a, c) \<leftarrow> lFidAlloc c;
     tc \<leftarrow> PackTauth (NewFcall (lc_Msize c)) (lf_Fid (lc_fids c a)) (fst user) aname (snd user) (lc_Dotu c);
     (case tc of
        Inl err \<Rightarrow> lclunk_then srv a (Inl err) c
      | Inr tc \<Rightarrow> (case lRpc srv tc c of
          ((Some err, _), c) \<Rightarrow> lclunk_then srv a (Inl err) c
        | ((None, rc), c) \<Rightarrow> do {
            rc \<leftarrow> rc;
            Some (Inr a, set_lf a (\<lambda>f. f\<lparr>lf_Qid := fc_Qid rc, lf_User := Some user, lf_walked := True\<rparr>) c) })) }"

definition lAttach :: "'e lserver \<Rightarrow> nat option \<Rightarrow> string \<times> u32 \<Rightarrow> string \<Rightarrow> (nat, 'e) lact" where
  "lAttach srv afid user aname c = do {
     let afno = (case afid of Some x \<Rightarrow> lf_Fid (lc_fids c x) | None \<Rightarrow> NOFID);
     (a, c) \<leftarrow> lFidAlloc c;
     let dotu = lc_Dotu c;
     (r, c) \<leftarrow> ltransact srv (\<lambda>tc. PackTattach tc (lf_Fid (lc_fids c a)) afno (fst user) aname (snd user) dotu)
       (\<lambda>rc c. Some (Inr (), set_lf a (\<lambda>f. f\<lparr>lf_Qid := fc_Qid rc, lf_User := Some user, lf_walked := True\<rparr>) c)) c;
     (case r of Inl err \<Rightarrow> lclunk_then srv a (Inl err) c | Inr _ \<Rightarrow> Some (Inr a, c)) }"

definition lUnmount :: "'e lclnt \<Rightarrow> 'e lclnt" where
  "lUnmount c = c\<lparr>lc_err := Some (Error ''connection closed'' ECONNRESET)\<rparr>"

definition lMountConn :: "'e lserver \<Rightarrow> string \<Rightarrow> string \<Rightarrow> string \<times> u32 \<Rightarrow> 'e \<Rightarrow> ((perror + unit) \<times> 'e lclnt) option" where
  "lMountConn srv addr aname user e = do {
     (r, c) \<leftarrow> lConnect srv addr (8192 + IOHDRSZ) True e;
     (case r of
        Inl err \<Rightarrow> Some (Inl err, c)
      | Inr _ \<Rightarrow> do {
          (r, c) \<leftarrow> lAttach srv None user aname c;
          (case r of
             Inl err \<Rightarrow> Some (Inl err, lUnmount c)
           | Inr a \<Rightarrow> Some (Inr (), c\<lparr>lc_Root := Some a\<rparr>)) }) }"

subsection \<open>Opening and creating (p/clnt/open.go)\<close>

definition lopened :: "nat \<Rightarrow> u8 \<Rightarrow> Fcall \<Rightarrow> (unit, 'e) lact" where
  "lopened a mode rc c = (let lim = lc_Msize c - IOHDRSZ; iounit = fc_Iounit rc in
     Some (Inr (), set_lf a (\<lambda>f. f\<lparr>lf_Qid := fc_Qid rc, lf_Iounit := (if iounit = 0 \<or> iounit > lim then lim else iounit),
       lf_Mode := mode\<rparr>) c))"

definition lOpen :: "'e lserver \<Rightarrow> nat \<Rightarrow> u8 \<Rightarrow> (unit, 'e) lact" where
  "lOpen srv a mode c = ltransact srv (\<lambda>tc. PackTopen tc (lf_Fid (lc_fids c a)) mode) (lopened a mode) c"

definition lCreate :: "'e lserver \<Rightarrow> nat \<Rightarrow> string \<Rightarrow> u32 \<Rightarrow> u8 \<Rightarrow> string \<Rightarrow> (unit, 'e) lact" where
  "lCreate srv a nm perm mode ext c = ltransact srv
     (\<lambda>tc. PackTcreate tc (lf_Fid (lc_fids c a)) nm perm mode ext (lc_Dotu c)) (lopened a mode) c"

definition lFOpen :: "'e lserver \<Rightarrow> string \<Rightarrow> u8 \<Rightarrow> (cfile, 'e) lact" where
  "lFOpen srv pth mode c = do {
     (r, c) \<leftarrow> lFWalk srv pth c;
     (case r of
        Inl err \<Rightarrow> Some (Inl err, c)
      | Inr a \<Rightarrow> do {
          (r, c) \<leftarrow> lOpen srv a mode c;
          (case r of Inl err \<Rightarrow> lclunk_then srv a (Inl err) c | Inr _ \<Rightarrow> Some (Inr \<lparr>fl_Fid = a, fl_Offset = 0\<rparr>, c)) }) }"

text \<open>\<open>strings.LastIndex(path, "/")\<close>, with 0 for no slash; an empty path has no character at that index.\<close>

definition last_slash :: "string \<Rightarrow> nat" where
  "last_slash s = length (dropWhile (\<lambda>c. c \<noteq> CHR ''/'') (rev s)) - 1"

definition lFCreate :: "'e lserver \<Rightarrow> string \<Rightarrow> u32 \<Rightarrow> u8 \<Rightarrow> (cfile, 'e) lact" where
  "lFCreate srv pth perm mode c = (let n = last_slash pth in do {
     (r, c) \<leftarrow> lFWalk srv (take n pth) c;
     (case r of
        Inl err \<Rightarrow> Some (Inl err, c)
      | Inr a \<Rightarrow>
          if n \<ge> length pth then None
          else do {
            let n = (if pth ! n = CHR ''/'' then n + 1 else n);
            (r, c) \<leftarrow> lCreate srv a (drop n pth) perm mode [] c;
            (case r of Inl err \<Rightarrow> lclunk_then srv a (Inl err) c | Inr _ \<Rightarrow> Some (Inr \<lparr>fl_Fid = a, fl_Offset = 0\<rparr>, c)) }) })"

subsection \<open>Reading and writing (p/clnt/read.go, write.go)\<close>

definition lRead :: "'e lserver \<Rightarrow> nat \<Rightarrow> u64 \<Rightarrow> u32 \<Rightarrow> (bytes, 'e) lact" where
  "lRead srv a offset n c = (let f = lc_fids c a; cnt = (if n > lf_Iounit f then lf_Iounit f else n) in
     ltransact srv (\<lambda>tc. PackTread tc (lf_Fid f) offset cnt) (\<lambda>rc c. Some (Inr (fc_Data rc), c)) c)"

definition lWrite :: "'e lserver \<Rightarrow> nat \<Rightarrow> bytes \<Rightarrow> u64 \<Rightarrow> (nat, 'e) lact" where
  "lWrite srv a data offset c = (let f = lc_fids c a;
       data = (if (of_nat (length data) :: u32) > lf_Iounit f then take (unat (lf_Iounit f)) data else data) in
     ltransact srv (\<lambda>tc. PackTwrite tc (lf_Fid f) offset (of_nat (length data)) data)
       (\<lambda>rc c. Some (Inr (unat (fc_Count rc)), c)) c)"

type_synonym ('a, 'e) lfile_act = "'e lclnt \<Rightarrow> ((file_err + 'a) \<times> 'e lclnt) option"

definition lReadAt :: "'e lserver \<Rightarrow> cfile \<Rightarrow> bytes \<Rightarrow> u64 \<Rightarrow> (nat \<times> bytes, 'e) lfile_act" where
  "lReadAt srv fl buf offset c = do {
     (r, c) \<leftarrow> lRead srv (fl_Fid fl) offset (of_nat (length buf)) c;
     Some (case r of
         Inl err \<Rightarrow> Inl (FErr err)
       | Inr b \<Rightarrow> if b = [] then Inl EOF else Inr (length b, go_copy buf b), c) }"

definition lFile_Read :: "'e lserver \<Rightarrow> cfile \<Rightarrow> bytes \<Rightarrow> 'e lclnt \<Rightarrow> ((file_err + nat \<times> bytes) \<times> cfile \<times> 'e lclnt) option" where
  "lFile_Read srv fl buf c = do {
     (r, c) \<leftarrow> lReadAt srv fl buf (fl_Offset fl) c;
     Some (r, (case r of Inr (n, _) \<Rightarrow> fl\<lparr>fl_Offset := fl_Offset fl + of_nat n\<rparr> | Inl _ \<Rightarrow> fl), c) }"

function lReadn_loop :: "'e lserver \<Rightarrow> cfile \<Rightarrow> bytes \<Rightarrow> bytes \<Rightarrow> u64 \<Rightarrow> (nat \<times> bytes, 'e) lfile_act" where
  "lReadn_loop srv fl got buf offset c = (if buf = [] then Some (Inr (length got, got), c)
     else do {
       (r, c) \<leftarrow> lReadAt srv fl buf offset c;
       (case r of
          Inl err \<Rightarrow> Some (Inl err, c)
        | Inr (n, buf) \<Rightarrow>
            if n = 0 then Some (Inr (length got, got @ buf), c)
            else if n > length buf then None
            else lReadn_loop srv fl (got @ take n buf) (drop n buf) (offset + of_nat n) c) })"
  by pat_completeness auto
termination
  by (relation "measure (\<lambda>(srv, fl, got, buf, offset, c). length buf)")
     (auto simp: lReadAt_def split: Option.bind_splits sum.splits if_splits)

definition lReadn :: "'e lserver \<Rightarrow> cfile \<Rightarrow> bytes \<Rightarrow> u64 \<Rightarrow> (nat \<times> bytes, 'e) lfile_act" where
  "lReadn srv fl buf offset c = lReadn_loop srv fl [] buf offset c"

definition lWriteAt :: "'e lserver \<Rightarrow> cfile \<Rightarrow> bytes \<Rightarrow> u64 \<Rightarrow> (nat, 'e) lact" where
  "lWriteAt srv fl buf offset c = lWrite srv (fl_Fid fl) buf offset c"

definition lFile_Write :: "'e lserver \<Rightarrow> cfile \<Rightarrow> bytes \<Rightarrow> 'e lclnt \<Rightarrow> ((perror + nat) \<times> cfile \<times> 'e lclnt) option" where
  "lFile_Write srv fl buf c = do {
     (r, c) \<leftarrow> lWriteAt srv fl buf (fl_Offset fl) c;
     Some (r, (case r of Inr n \<Rightarrow> fl\<lparr>fl_Offset := fl_Offset fl + of_nat n\<rparr> | Inl _ \<Rightarrow> fl), c) }"

function lWriten_loop :: "'e lserver \<Rightarrow> cfile \<Rightarrow> nat \<Rightarrow> bytes \<Rightarrow> u64 \<Rightarrow> 'e lclnt \<Rightarrow> ((nat \<times> perror option) \<times> 'e lclnt) option" where
  "lWriten_loop srv fl ret buf offset c = (if buf = [] then Some ((ret, None), c)
     else do {
       (r, c) \<leftarrow> lWriteAt srv fl buf offset c;
       (case r of
          Inl err \<Rightarrow> Some ((ret, Some err), c)
        | Inr n \<Rightarrow>
            if n = 0 then Some ((ret, None), c)
            else if n > length buf then None
            else lWriten_loop srv fl (ret + n) (drop n buf) (offset + of_nat n) c) })"
  by pat_completeness auto
termination by (relation "measure (\<lambda>(srv, fl, ret, buf, offset, c). length buf)") auto

declare lReadn_loop.simps [simp del] lWriten_loop.simps [simp del]

definition lWriten :: "'e lserver \<Rightarrow> cfile \<Rightarrow> bytes \<Rightarrow> u64 \<Rightarrow> 'e lclnt \<Rightarrow> ((nat \<times> perror option) \<times> 'e lclnt) option" where
  "lWriten srv fl buf offset c = lWriten_loop srv fl 0 buf offset c"

text \<open>The rounds of \<open>Readdir\<close> are bounded by fuel, since the server decides when the directory ends.\<close>

fun lReaddir_loop :: "nat \<Rightarrow> 'e lserver \<Rightarrow> nat \<Rightarrow> Dir list \<Rightarrow> cfile \<Rightarrow> bytes \<Rightarrow> 'e lclnt \<Rightarrow> ((perror + Dir list) \<times> cfile \<times> 'e lclnt) option" where
  "lReaddir_loop 0 srv num dirs fl buf c = None"
| "lReaddir_loop (Suc k) srv num dirs fl buf c = do {
     (r, fl, c) \<leftarrow> lFile_Read srv fl buf c;
     (case r of
        Inl (FErr err) \<Rightarrow> Some (Inl err, fl, c)
      | Inl EOF \<Rightarrow> Some (Inr dirs, fl, c)
      | Inr (n, buf) \<Rightarrow>
          if n > length buf then None
          else do {
            r \<leftarrow> unpack_entries (lc_Dotu c) num dirs (take n buf);
            (case r of
               Inl err \<Rightarrow> Some (Inl err, fl, c)
             | Inr dirs \<Rightarrow> lReaddir_loop k srv num dirs fl buf c) }) }"

definition lReaddir :: "nat \<Rightarrow> 'e lserver \<Rightarrow> nat \<Rightarrow> cfile \<Rightarrow> 'e lclnt \<Rightarrow> ((perror + Dir list) \<times> cfile \<times> 'e lclnt) option" where
  "lReaddir k srv num fl c = lReaddir_loop k srv num [] fl (replicate (unat (lc_Msize c - IOHDRSZ)) 0) c"

subsection \<open>Stat, remove, close (p/clnt/stat.go, remove.go, close.go)\<close>

definition lStat :: "'e lserver \<Rightarrow> nat \<Rightarrow> (Dir, 'e) lact" where
  "lStat srv a c = ltransact srv (\<lambda>tc. PackTstat tc (lf_Fid (lc_fids c a))) (\<lambda>rc c. Some (Inr (fc_Dir rc), c)) c"

definition lFStat :: "'e lserver \<Rightarrow> string \<Rightarrow> (Dir, 'e) lact" where
  "lFStat srv pth c = do {
     (r, c) \<leftarrow> lFWalk srv pth c;
     (case r of
        Inl err \<Rightarrow> Some (Inl err, c)
      | Inr a \<Rightarrow> do { (r, c) \<leftarrow> lStat srv a c; lclunk_then srv a r c }) }"

definition lWstat :: "'e lserver \<Rightarrow> nat \<Rightarrow> Dir \<Rightarrow> (unit, 'e) lact" where
  "lWstat srv a dir c = ltransact srv (\<lambda>tc. PackTwstat tc (lf_Fid (lc_fids c a)) dir (lc_Dotu c)) (\<lambda>rc c. Some (Inr (), c)) c"

text \<open>The number is given back whatever the outcome; without a response the code looks at the type of nil.\<close>

definition lRemove :: "'e lserver \<Rightarrow> nat \<Rightarrow> (unit, 'e) lact" where
  "lRemove srv a c = do {
     tc \<leftarrow> PackTremove (NewFcall (lc_Msize c)) (lf_Fid (lc_fids c a));
     (case tc of
        Inl err \<Rightarrow> Some (Inl err, c)
      | Inr tc \<Rightarrow> (case lRpc srv tc c of ((err, rc), c) \<Rightarrow> do {
          c \<leftarrow> lput a c;
          rc \<leftarrow> rc;
          (case rerror rc of
             Some err \<Rightarrow> Some (Inl err, c)
           | None \<Rightarrow> Some (case err of Some err \<Rightarrow> Inl err | None \<Rightarrow> Inr (), c)) })) }"

definition lFRemove :: "'e lserver \<Rightarrow> string \<Rightarrow> (unit, 'e) lact" where
  "lFRemove srv pth c = do {
     (r, c) \<leftarrow> lFWalk srv pth c;
     (case r of Inl err \<Rightarrow> Some (Inl err, c) | Inr a \<Rightarrow> lRemove srv a c) }"

definition lClose :: "'e lserver \<Rightarrow> cfile \<Rightarrow> 'e lclnt \<Rightarrow> (perror option \<times> 'e lclnt) option" where
  "lClose srv fl c = lClunk srv (fl_Fid fl) c"

end
