(* ===== verification/Clnt_Like.thy ===== *)
theory Clnt_Like
  imports Clnt_Fid Chan_Io
begin

section \<open>The two clients do the same\<close>

text \<open>
  \<open>like n c w\<close>: the client \<open>c\<close> of the package \<open>clnt\<close> is client \<open>n\<close> of a world of \<open>chan9\<close> in which no fid is
  in a union.  The operations on fids and files have the same results on both, and keep the relation.
\<close>

definition same_fid :: "nat \<Rightarrow> lfid \<Rightarrow> cfid \<Rightarrow> bool" where
  "same_fid n f g \<longleftrightarrow> f_Clnt g = n \<and> f_next g = None \<and> f_prev g = None \<and> f_Iounit g = lf_Iounit f \<and> f_Fid g = lf_Fid f
     \<and> f_Mode g = lf_Mode f \<and> f_walked g = lf_walked f \<and> fi_Qid (f_ID g) = lf_Qid f"

definition like :: "nat \<Rightarrow> 'e lclnt \<Rightarrow> 'e world \<Rightarrow> bool" where
  "like n c w \<longleftrightarrow> lc_err c = None \<and> ch_Msize (w_clnts w n) = lc_Msize c \<and> ch_Dotu (w_clnts w n) = lc_Dotu c
     \<and> w_pools w (ch_fidpool (w_clnts w n)) = lc_fidpool c \<and> w_env w = lc_env c \<and> w_fnew w = lc_new c
     \<and> (\<forall>a. same_fid n (lc_fids c a) (w_fids w a))"

definition agree :: "nat \<Rightarrow> ('r \<times> 'e lclnt) option \<Rightarrow> ('r \<times> 'e world) option \<Rightarrow> bool" where
  "agree n = rel_option (\<lambda>(r, c) (s, w). r = s \<and> like n c w)"

lemma agree_simps [simp]: "agree n None y \<longleftrightarrow> y = None" "agree n x None \<longleftrightarrow> x = None"
  "agree n (Some (r, c)) (Some (s, w)) \<longleftrightarrow> r = s \<and> like n c w"
  by (auto simp: agree_def)

lemma agree_bind:
  assumes "agree n x y" "\<And>r c w. like n c w \<Longrightarrow> agree n (f (r, c)) (g (r, w))"
  shows "agree n (Option.bind x f) (Option.bind y g)"
  using assms by (cases x; cases y) (auto simp: agree_def)

lemma agree_pure: "(\<And>x. agree n (f x) (g x)) \<Longrightarrow> agree n (Option.bind m f) (Option.bind m g)"
  by (cases m) simp_all

lemma likeD:
  assumes "like n c w"
  shows "lc_err c = None" "ch_Msize (w_clnts w n) = lc_Msize c" "ch_Dotu (w_clnts w n) = lc_Dotu c"
    "w_pools w (ch_fidpool (w_clnts w n)) = lc_fidpool c" "w_env w = lc_env c" "w_fnew w = lc_new c"
    "f_Clnt (w_fids w a) = n" "f_next (w_fids w a) = None" "f_prev (w_fids w a) = None"
    "f_Iounit (w_fids w a) = lf_Iounit (lc_fids c a)" "f_Fid (w_fids w a) = lf_Fid (lc_fids c a)"
    "f_walked (w_fids w a) = lf_walked (lc_fids c a)" "fi_Qid (f_ID (w_fids w a)) = lf_Qid (lc_fids c a)"
    "same_fid n (lc_fids c a) (w_fids w a)"
  using assms by (auto simp: like_def same_fid_def)

lemma like_env: "like n c w \<Longrightarrow> like n (c\<lparr>lc_env := e\<rparr>) (w\<lparr>w_env := e\<rparr>)"
  by (simp add: like_def)

lemma like_set: "like n c w \<Longrightarrow> (\<And>x y. same_fid n x y \<Longrightarrow> same_fid n (f x) (g y)) \<Longrightarrow> like n (set_lf a f c) (set_f a g w)"
  by (simp add: like_def)

lemma lRpc_like:
  assumes "like n c w"
  shows "case lRpc (srv n) tc c of ((e, rc), c') \<Rightarrow> (case Rpc srv n tc w of
      (Inl err, w') \<Rightarrow> e = Some err \<and> like n c' w' | (Inr rc', w') \<Rightarrow> e = None \<and> rc = Some rc' \<and> like n c' w')"
  using likeD(1,5) [OF assms] like_env [OF assms]
  by (auto simp: lRpc_def Rpc_def split: prod.splits sum.splits option.splits)

lemma ltransact_like:
  assumes "like n c w" "\<And>rc c w. like n c w \<Longrightarrow> agree n (k rc c) (k' rc w)"
  shows "agree n (ltransact (srv n) pack k c) (transact srv n pack k' w)"
  unfolding ltransact_def transact_def likeD(2) [OF assms(1)]
proof (rule agree_pure)
  fix x :: "perror + Fcall"
  show "agree n (case x of Inl err \<Rightarrow> Some (Inl err, c)
      | Inr tc \<Rightarrow> (case lRpc (srv n) tc c of ((Some err, _), c) \<Rightarrow> Some (Inl err, c)
        | ((None, rc), c) \<Rightarrow> Option.bind rc (\<lambda>rc. case rerror rc of Some err \<Rightarrow> Some (Inl err, c) | None \<Rightarrow> k rc c)))
     (case x of Inl err \<Rightarrow> Some (Inl err, w)
      | Inr tc \<Rightarrow> (case Rpc srv n tc w of (Inl err, w) \<Rightarrow> Some (Inl err, w)
        | (Inr rc, w) \<Rightarrow> (case rerror rc of Some err \<Rightarrow> Some (Inl err, w) | None \<Rightarrow> k' rc w)))"
  proof (cases x)
    case (Inr tc)
    obtain e rc c1 where l: "lRpc (srv n) tc c = ((e, rc), c1)" by (metis surj_pair)
    obtain r w1 where R: "Rpc srv n tc w = (r, w1)" by (metis surj_pair)
    note a = lRpc_like [OF assms(1), of srv tc, unfolded l R]
    show ?thesis
    proof (cases r)
      case (Inl err)
      then show ?thesis using a Inr l R by simp
    next
      case (Inr rc')
      then show ?thesis using a \<open>x = Inr tc\<close> l R assms(2) by (cases "rerror rc'") simp_all
    qed
  qed (simp add: assms(1))
qed

lemma opened_like:
  assumes "like n c w"
  shows "agree n (lopened a mode rc c) (opened a mode rc w)"
proof -
  have "limit_Iounit (client a w) i = (if i = 0 \<or> i > lc_Msize c - IOHDRSZ then lc_Msize c - IOHDRSZ else i)" for i
    by (simp add: limit_Iounit_def client_def likeD [OF assms])
  then show ?thesis
    by (auto simp: lopened_def opened_def Let_def intro!: like_set [OF assms]) (auto simp: same_fid_def)
qed

lemma open_like: "like n c w \<Longrightarrow> agree n (lOpen (srv n) a mode c) (Open srv (Some a) mode w)"
  unfolding lOpen_def Open_def Open_one_def
  by (simp add: likeD) (rule ltransact_like, assumption, rule opened_like)

lemma create_like: "like n c w \<Longrightarrow> agree n (lCreate (srv n) a nm perm mode ext c) (Create srv (Some a) nm perm mode ext w)"
  unfolding lCreate_def Create_def Create_one_def
  by (simp add: likeD client_def) (rule ltransact_like, assumption, rule opened_like)

lemma read_like: "like n c w \<Longrightarrow> agree n (lRead (srv n) a off cnt c) (Fid_Read srv a off cnt w)"
  unfolding lRead_def Fid_Read_def Let_def by (simp add: likeD) (rule conjI impI ltransact_like | assumption | simp)+

lemma write_like: "like n c w \<Longrightarrow> agree n (lWrite (srv n) a data off c) (Fid_Write srv a data off w)"
  unfolding lWrite_def Fid_Write_def Let_def by (simp add: likeD) (rule conjI impI ltransact_like | assumption | simp)+

lemma stat_like: "like n c w \<Longrightarrow> agree n (lStat (srv n) a c) (Fid_Stat srv a w)"
  unfolding lStat_def Fid_Stat_def Let_def by (simp add: likeD) (rule ltransact_like | assumption | simp)+

lemma wstat_like: "like n c w \<Longrightarrow> agree n (lWstat (srv n) a dir c) (Fid_Wstat srv a dir w)"
  unfolding lWstat_def Fid_Wstat_def Let_def by (simp add: likeD client_def) (rule ltransact_like | assumption | simp)+

lemma putId_like: "k \<noteq> NOFID \<Longrightarrow> clnt_putId k pl = putId k pl"
  by (simp add: clnt_putId_def putId_def)

lemma alloc_like:
  assumes "like n c w"
  shows "agree n (lFidAlloc c) (FidAlloc n w)"
proof -
  obtain r pl where g: "getId (lc_fidpool c) = (r, pl)" by (metis surj_pair)
  have "same_fid n (zero_lfid\<lparr>lf_Fid := k\<rparr>) (zero_cfid\<lparr>f_Fid := k, f_Clnt := n, f_User := u,
      f_ID := \<lparr>fi_Type = t, fi_Dev = d, fi_Qid = zero_Qid\<rparr>\<rparr>)" for k u t d
    by (simp add: same_fid_def zero_lfid_def zero_cfid_def)
  then show ?thesis
    using assms g unfolding lFidAlloc_def FidAlloc_def Let_def by (cases r) (simp_all add: likeD [OF assms] like_def)
qed

lemma lput_like:
  assumes "like n c w" "lf_Fid (lc_fids c a) \<noteq> NOFID"
  shows "agree n (map_option (Pair None) (lput a (set_lf a (\<lambda>f. f\<lparr>lf_walked := False\<rparr>) c)))
    (do {
          let p = ch_fidpool (w_clnts w n);
          (_, pl) \<leftarrow> putId (f_Fid (w_fids w a)) (w_pools w p);
          let w = w\<lparr>w_pools := (w_pools w)(p := pl)\<rparr>;
          let w = set_ch n (\<lambda>ch. ch\<lparr>ch_ref := ch_ref ch - 1\<rparr>) w;
          Some (None, set_f a (\<lambda>f. f\<lparr>f_walked := False, f_Fid := NOFID\<rparr>) w) })"
proof (cases "putId (lf_Fid (lc_fids c a)) (lc_fidpool c)")
  case None
  then show ?thesis using assms(2) by (simp add: lput_def putId_like Let_def likeD [OF assms(1)])
next
  case (Some y)
  then show ?thesis using assms
    by (cases y) (auto simp: lput_def putId_like Let_def likeD [OF assms(1)] like_def same_fid_def)
qed

lemma clunk_like:
  assumes "like n c w" "lf_Fid (lc_fids c a) \<noteq> NOFID"
  shows "agree n (lClunk (srv n) a c) (Clunk srv a w)"
proof -
  have d: "f_Clnt (w_fids w a) = n" "f_walked (w_fids w a) = lf_walked (lc_fids c a)" "f_Fid (w_fids w a) = lf_Fid (lc_fids c a)"
      "ch_Msize (w_clnts w n) = lc_Msize c"
    using likeD [OF assms(1)] by simp_all
  have rpc: "like n (snd (lRpc (srv n) tc c)) (snd (Rpc srv n tc w))" "lc_fids (snd (lRpc (srv n) tc c)) = lc_fids c" for tc
    using likeD(1,5) [OF assms(1)] like_env [OF assms(1)]
    by (auto simp: lRpc_def Rpc_def split: prod.splits sum.splits option.splits)
  have fin: "agree n (map_option (Pair None) (lput a (set_lf a (\<lambda>f. f\<lparr>lf_walked := False\<rparr>) c1)))
    (Option.bind (putId (f_Fid (w_fids w a)) (w_pools w1 (ch_fidpool (w_clnts w1 n)))) (\<lambda>(_, pl).
        Some (None, set_f a (\<lambda>f. f\<lparr>f_walked := False, f_Fid := NOFID\<rparr>) (set_ch n (\<lambda>ch. ch\<lparr>ch_ref := ch_ref ch - 1\<rparr>)
          (w1\<lparr>w_pools := (w_pools w1)(ch_fidpool (w_clnts w1 n) := pl)\<rparr>)))))"
    if "like n c1 w1" "lc_fids c1 = lc_fids c" for c1 w1
    using lput_like [OF that(1), of a] assms(2) that(2) d(3) likeD(11) [OF that(1), of a] by (simp add: Let_def)
  show ?thesis
  proof (cases "lf_walked (lc_fids c a)")
    case False
    then show ?thesis using fin [OF assms(1) refl] by (simp add: lClunk_def Clunk_def d Let_def)
  next
    case True
    show ?thesis
    proof (cases "PackTclunk (NewFcall (lc_Msize c)) (lf_Fid (lc_fids c a))")
      case None
      then show ?thesis using True by (simp add: lClunk_def Clunk_def d Let_def)
    next
      case (Some x)
      then show ?thesis using True fin [OF rpc] assms(1) by (cases x) (simp_all add: lClunk_def Clunk_def d Let_def)
    qed
  qed
qed

lemma walk_like: "like n c w \<Longrightarrow> agree n (lWalk (srv n) a b names c) (Fid_Walk srv (Some a) b names w)"
  unfolding lWalk_def Fid_Walk_def
  apply (simp add: likeD)
  apply (rule ltransact_like, assumption)
  apply (auto simp: Let_def likeD split: prod.split intro!: like_set)
  apply (auto simp: same_fid_def likeD)
  done

lemma remove_like:
  assumes "like n c w" "lf_Fid (lc_fids c a) \<noteq> NOFID"
  shows "agree n (lRemove (srv n) a c) (Fid_Remove srv a w)"
proof -
  have L: "like n (set_lf a (\<lambda>f. f\<lparr>lf_Fid := NOFID\<rparr>) (c\<lparr>lc_env := e, lc_fidpool := pl\<rparr>))
       (set_f a (\<lambda>f. f\<lparr>f_Fid := NOFID\<rparr>) (w\<lparr>w_env := e, w_pools := (w_pools w)(ch_fidpool (w_clnts w n) := pl)\<rparr>))" for e pl
    using assms(1) by (auto simp: like_def same_fid_def)
  have d: "f_Clnt (w_fids w a) = n" "f_Fid (w_fids w a) = lf_Fid (lc_fids c a)" "ch_Msize (w_clnts w n) = lc_Msize c" "lc_err c = None"
      "w_env w = lc_env c" "w_pools w (ch_fidpool (w_clnts w n)) = lc_fidpool c"
    using likeD [OF assms(1)] by simp_all
  have "agree n (case x of Inl err \<Rightarrow> Some (Inl err, c)
      | Inr tc \<Rightarrow> (case lRpc (srv n) tc c of ((err, rc), c) \<Rightarrow> Option.bind (lput a c) (\<lambda>c. Option.bind rc (\<lambda>rc.
          case rerror rc of Some err \<Rightarrow> Some (Inl err, c) | None \<Rightarrow> Some (case err of Some err \<Rightarrow> Inl err | None \<Rightarrow> Inr (), c)))))
     (case x of Inl err \<Rightarrow> Some (Inl err, w)
      | Inr tc \<Rightarrow> (case srv n tc (lc_env c) of (rc, e) \<Rightarrow> Option.bind (putId (lf_Fid (lc_fids c a)) (lc_fidpool c)) (\<lambda>(_, pl).
          let w = set_f a (\<lambda>f. f\<lparr>f_Fid := NOFID\<rparr>) (w\<lparr>w_env := e, w_pools := (w_pools w)(ch_fidpool (w_clnts w n) := pl)\<rparr>) in
          (case rc of Inl _ \<Rightarrow> None
           | Inr rc \<Rightarrow> (case rerror rc of Some err \<Rightarrow> Some (Inl err, w)
             | None \<Rightarrow> Some (case reply_err (fc_Type tc) rc None of Some err \<Rightarrow> Inl err | None \<Rightarrow> Inr (), w))))))" for x
  proof (cases x)
    case (Inr tc)
    obtain rc e where s: "srv n tc (lc_env c) = (rc, e)" by (metis surj_pair)
    show ?thesis
    proof (cases "putId (lf_Fid (lc_fids c a)) (lc_fidpool c)")
      case None
      then show ?thesis using Inr s assms(2) d(4) by (cases rc) (simp_all add: lRpc_def lput_def putId_like)
    next
      case (Some y)
      obtain u pl where y: "y = (u, pl)" by (cases y)
      show ?thesis
      proof (cases rc)
        case (Inl err)
        then show ?thesis using \<open>x = Inr tc\<close> s assms(2) d(4) Some y by (simp add: lRpc_def lput_def putId_like)
      next
        case (Inr rc')
        then show ?thesis using \<open>x = Inr tc\<close> s assms(2) d(4) Some y L
          by (cases "rerror rc'") (simp_all add: lRpc_def lput_def putId_like Let_def)
      qed
    qed
  qed (simp add: assms(1))
  then show ?thesis
    unfolding lRemove_def Fid_Remove_def Let_def d by (intro agree_pure) (simp add: Let_def)
qed

subsection \<open>Files\<close>

lemma read_at_like: "like n c w \<Longrightarrow> agree n (lReadAt (srv n) fl buf off c) (ReadAt srv fl buf off w)"
  unfolding lReadAt_def ReadAt_def by (rule agree_bind [OF read_like]) (auto split: sum.split)

lemma lReadAt_length: "lReadAt srv fl buf off c = Some (Inr (m, b), c') \<Longrightarrow> length b = length buf"
  by (auto simp: lReadAt_def split: Option.bind_splits sum.splits if_splits)

lemma write_at_like: "like n c w \<Longrightarrow> agree n (lWriteAt (srv n) fl buf off c) (WriteAt srv fl buf off w)"
  unfolding lWriteAt_def WriteAt_def by (rule write_like)

lemma readn_like: "like n c w \<Longrightarrow> agree n (lReadn_loop (srv n) fl got buf off c) (Readn_loop srv fl got buf off w)"
proof (induction "length buf" arbitrary: got buf off c w rule: less_induct)
  case less
  show ?case
  proof (cases "lReadAt (srv n) fl buf off c")
    case None
    then show ?thesis using read_at_like [OF less.prems, of srv fl buf off] less.prems
      by (simp add: lReadn_loop.simps [of _ _ got buf] Readn_loop.simps [of _ _ got buf])
  next
    case (Some x)
    obtain r c1 where x: "x = (r, c1)" by (cases x)
    obtain w1 where w1: "ReadAt srv fl buf off w = Some (r, w1)" "like n c1 w1"
      using read_at_like [OF less.prems, of srv fl buf off] Some x by (cases "ReadAt srv fl buf off w") (auto simp: agree_def)
    show ?thesis
    proof (cases r)
      case (Inl e)
      then show ?thesis using Some x w1 less.prems
        by (simp add: lReadn_loop.simps [of _ _ got buf] Readn_loop.simps [of _ _ got buf])
    next
      case (Inr y)
      obtain m b where y: "y = (m, b)" by (cases y)
      have l: "length b = length buf" using lReadAt_length Some x Inr y by blast
      then have "agree n (lReadn_loop (srv n) fl (got @ take m b) (drop m b) (off + of_nat m) c1)
          (Readn_loop srv fl (got @ take m b) (drop m b) (off + of_nat m) w1)" if "0 < m" "buf \<noteq> []"
        using that less.hyps [OF _ w1(2), of "drop m b"] by simp
      then show ?thesis using Some x w1 less.prems Inr y
        by (simp add: lReadn_loop.simps [of _ _ got buf] Readn_loop.simps [of _ _ got buf])
    qed
  qed
qed

lemma writen_like: "like n c w \<Longrightarrow> agree n (lWriten_loop (srv n) fl ret buf off c) (Writen_loop srv fl ret buf off w)"
proof (induction "length buf" arbitrary: ret buf off c w rule: less_induct)
  case less
  show ?case
    unfolding lWriten_loop.simps [of _ _ ret buf] Writen_loop.simps [of _ _ ret buf]
    by (cases "buf = []", simp add: less.prems)
      (simp, rule agree_bind [OF write_at_like [OF less.prems]], auto split: sum.split intro!: less.hyps)
qed

text \<open>For the operations that also return the file.\<close>

definition agree3 :: "nat \<Rightarrow> ('r \<times> cfile \<times> 'e lclnt) option \<Rightarrow> ('r \<times> cfile \<times> 'e world) option \<Rightarrow> bool" where
  "agree3 n = rel_option (\<lambda>(r, fl, c) (s, fm, w). r = s \<and> fl = fm \<and> like n c w)"

lemma agree3_simps [simp]: "agree3 n None y \<longleftrightarrow> y = None" "agree3 n x None \<longleftrightarrow> x = None"
  "agree3 n (Some (r, fl, c)) (Some (s, fm, w)) \<longleftrightarrow> r = s \<and> fl = fm \<and> like n c w"
  by (auto simp: agree3_def)

lemma file_read_like: "like n c w \<Longrightarrow> agree3 n (lFile_Read (srv n) fl buf c) (File_Read srv fl buf w)"
  using read_at_like [of n c w srv fl buf "fl_Offset fl"] unfolding lFile_Read_def File_Read_def
  by (cases "lReadAt (srv n) fl buf (fl_Offset fl) c"; cases "ReadAt srv fl buf (fl_Offset fl) w") (auto simp: agree_def split: sum.split)

lemma file_write_like: "like n c w \<Longrightarrow> agree3 n (lFile_Write (srv n) fl buf c) (File_Write srv fl buf w)"
  using write_at_like [of n c w srv fl buf "fl_Offset fl"] unfolding lFile_Write_def File_Write_def
  by (cases "lWriteAt (srv n) fl buf (fl_Offset fl) c"; cases "WriteAt srv fl buf (fl_Offset fl) w") (auto simp: agree_def split: sum.split)

lemma readdir_loop_like: "like n c w \<Longrightarrow> agree3 n (lReaddir_loop k (srv n) num dirs fl buf c) (Readdir_loop k srv num dirs fl buf w)"
proof (induction k arbitrary: dirs fl buf c w)
  case (Suc k)
  show ?case
  proof (cases "lFile_Read (srv n) fl buf c")
    case None
    then show ?thesis using file_read_like [OF Suc.prems, of srv fl buf] by simp
  next
    case (Some x)
    obtain r fl1 c1 where x: "x = (r, fl1, c1)" by (metis surj_pair)
    obtain w1 where w1: "File_Read srv fl buf w = Some (r, fl1, w1)" "like n c1 w1"
      using file_read_like [OF Suc.prems, of srv fl buf] Some x
      by (cases "File_Read srv fl buf w") (auto simp: agree3_def)
    have d: "ch_Dotu (client a w1) = lc_Dotu c1" "f_next (w_fids w1 a) = None" for a
      using likeD [OF w1(2)] by (simp_all add: client_def)
    show ?thesis
    proof (cases r)
      case (Inl e)
      then show ?thesis using Some x w1 d by (cases e) simp_all
    next
      case (Inr y)
      obtain m b where y: "y = (m, b)" by (cases y)
      show ?thesis
      proof (cases "m > length b")
        case True
        then show ?thesis using Some x w1 d Inr y by simp
      next
        case False
        have "agree3 n (Option.bind z (\<lambda>r. case r of Inl err \<Rightarrow> Some (Inl err, fl1, c1)
              | Inr dirs \<Rightarrow> lReaddir_loop k (srv n) num dirs fl1 b c1))
            (Option.bind z (\<lambda>r. case r of Inl err \<Rightarrow> Some (Inl err, fl1, w1)
              | Inr dirs \<Rightarrow> Readdir_loop k srv num dirs fl1 b w1))" for z :: "(perror + Dir list) option"
          using Suc.IH [OF w1(2)] w1(2) by (cases z) (auto split: sum.split)
        then show ?thesis using Some x w1 d Inr y False by simp
      qed
    qed
  qed
qed simp


definition two_clients :: "bytes lclnt \<times> bytes world" where
  "two_clients = ((new_lclnt 124 False [9, 9, 9, 9])\<lparr>lc_fids := (\<lambda>_. zero_lfid\<lparr>lf_Fid := 1, lf_Iounit := 100\<rparr>), lc_new := 1\<rparr>,
     one_client [9, 9, 9, 9])"

lemma two_clients_like: "like 0 (fst two_clients) (snd two_clients)"
  by (simp add: two_clients_def like_def same_fid_def new_lclnt_def one_client_def zero_lfid_def zero_cfid_def zero_FileID_def)


end
