(* ===== verification/Ex_Ramfs.thy ===== *)
theory Ex_Ramfs
  imports Srv_Tree
begin

section \<open>A file server that keeps its files in memory (p/srv/examples/ramfs/ramfs.go)\<close>

text \<open>
  An \<open>RFile\<close> is a \<open>File\<close> with its contents in blocks of \<open>blksz\<close> bytes; an empty block reads as zeros, and
  \<open>dir_Length\<close> is the length of the contents.  Blocks of files that shrink go to \<open>blkchan\<close>, from which a
  write takes its new blocks.  The method object of a file is its own address, so that \<open>ram_ops\<close> is the
  parameter \<open>fops\<close> of \<open>Fsrv\<close>.  Memory is taken to be unlimited.
\<close>

record ramfs =
  ram_user :: "User option"
  ram_group :: "Group option"
  ram_blksz :: nat
  ram_blkchan :: "bytes list"
  ram_zero :: bytes
  ram_data :: "nat \<Rightarrow> bytes list"

subsection \<open>Reading\<close>

text \<open>The loop over the blocks: \<open>len\<close> bytes from offset \<open>off\<close> of block \<open>n\<close> on.\<close>

function read_blocks :: "nat \<Rightarrow> bytes \<Rightarrow> bytes list \<Rightarrow> nat \<Rightarrow> nat \<Rightarrow> nat \<Rightarrow> bytes option" where
  "read_blocks B zero data n off len = (if len = 0 then Some []
     else if n \<ge> length data then None
     else let m = min (B - off) len; blk = (if data ! n \<noteq> [] then data ! n else zero) in
       if off + m > length blk then None
       else do {
         bs \<leftarrow> read_blocks B zero data (n + 1) 0 (len - m);
         Some (take m (drop off blk) @ bs) })"
  by pat_completeness auto
termination by (relation "measure (\<lambda>(B, zero, data, n, off, len). length data - n)") auto

definition RFile_Read :: "nat \<Rightarrow> FFid \<Rightarrow> nat \<Rightarrow> u64 \<Rightarrow> ramfs Fs \<Rightarrow> ((go_error + nat \<times> bytes) \<times> ramfs Fs) option" where
  "RFile_Read f ff n offset fs = (let L = dir_Length (f_Dir (fs_files fs f)); rs = fs_user fs; B = ram_blksz rs in
     if offset > L then Some (Inr (0, []), fs)
     else let count = of_nat n :: u32;
              count = (if offset + ucast count > L then ucast (L - offset) else count) in do {
       bs \<leftarrow> read_blocks B (ram_zero rs) (ram_data rs f) (unat offset div B) (unat offset mod B) (unat count);
       Some (Inr (unat count, bs), fs) })"

subsection \<open>Growing and shrinking\<close>

definition set_data :: "nat \<Rightarrow> bytes list \<Rightarrow> ramfs Fs \<Rightarrow> ramfs Fs" where
  "set_data f d fs = fs\<lparr>fs_user := (fs_user fs)\<lparr>ram_data := (ram_data (fs_user fs))(f := d)\<rparr>\<rparr>"

definition set_chan :: "bytes list \<Rightarrow> ramfs Fs \<Rightarrow> ramfs Fs" where
  "set_chan c fs = fs\<lparr>fs_user := (fs_user fs)\<lparr>ram_blkchan := c\<rparr>\<rparr>"

definition set_length :: "nat \<Rightarrow> u64 \<Rightarrow> ramfs Fs \<Rightarrow> ramfs Fs" where
  "set_length f l = set_file f (\<lambda>x. x\<lparr>f_Dir := (f_Dir x)\<lparr>dir_Length := l\<rparr>\<rparr>)"

definition expand :: "nat \<Rightarrow> u64 \<Rightarrow> ramfs Fs \<Rightarrow> ramfs Fs" where
  "expand f sz fs = (let B = ram_blksz (fs_user fs);
       blknum = unat sz div B + (if unat sz mod B \<noteq> 0 then 1 else 0)
     in set_length f sz (set_data f (go_copy (replicate blknum []) (ram_data (fs_user fs) f)) fs))"

text \<open>The channel of spare blocks has room for 2048; what does not fit is left to the garbage collector.\<close>

definition spare :: "bytes list \<Rightarrow> bytes list \<Rightarrow> bytes list" where
  "spare chan blks = chan @ take (2048 - length chan) (filter (\<lambda>b. b \<noteq> []) blks)"

definition shrink :: "nat \<Rightarrow> u64 \<Rightarrow> ramfs Fs \<Rightarrow> ramfs Fs option" where
  "shrink f sz fs = (let rs = fs_user fs; B = ram_blksz rs; data = ram_data rs f;
       blknum = unat sz div B; off = unat sz mod B in do {
     (data, blknum) \<leftarrow> (if off > 0 then
         if blknum \<ge> length data then None
         else Some (if data ! blknum \<noteq> [] then data[blknum := take off (data ! blknum) @ go_copy (drop off (data ! blknum)) (ram_zero rs)]
                    else data, blknum + 1)
       else Some (data, blknum));
     if blknum > length data then None
     else Some (set_length f sz (set_data f (take blknum data)
       (set_chan (spare (ram_blkchan rs) (drop blknum data)) fs))) })"

definition trunc :: "nat \<Rightarrow> u64 \<Rightarrow> ramfs Fs \<Rightarrow> ramfs Fs option" where
  "trunc f sz fs = (let L = dir_Length (f_Dir (fs_files fs f)) in
     if L = sz then Some fs else if L > sz then shrink f sz fs else Some (expand f sz fs))"

subsection \<open>Writing\<close>

text \<open>A block to write to: the one there is, a spare one or a new one, filled with zeros.\<close>

definition take_block :: "nat \<Rightarrow> bytes \<Rightarrow> bytes list \<Rightarrow> bytes \<Rightarrow> bytes \<times> bytes list" where
  "take_block B zero chan blk = (if blk \<noteq> [] then (blk, chan)
     else case chan of b # chan \<Rightarrow> (go_copy b zero, chan) | [] \<Rightarrow> (go_copy (replicate B 0) zero, []))"

function write_blocks :: "nat \<Rightarrow> bytes \<Rightarrow> bytes list \<Rightarrow> bytes list \<Rightarrow> nat \<Rightarrow> nat \<Rightarrow> bytes \<Rightarrow> (bytes list \<times> bytes list) option" where
  "write_blocks B zero chan data n off buf = (if buf = [] then Some (chan, data)
     else if n \<ge> length data then None
     else case take_block B zero chan (data ! n) of (blk, chan) \<Rightarrow>
       if off > length blk then None
       else let m = min (length blk - off) (length buf);
                blk = take off blk @ take m buf @ drop (off + m) blk in
         write_blocks B zero chan (data[n := blk]) (n + 1) 0 (drop m buf))"
  by pat_completeness auto
termination by (relation "measure (\<lambda>(B, zero, chan, data, n, off, buf). length data - n)") auto

declare read_blocks.simps [simp del] write_blocks.simps [simp del]

text \<open>The count is the length of the data, since the loop ends only when all of it is written.\<close>

definition RFile_Write :: "nat \<Rightarrow> FFid \<Rightarrow> bytes \<Rightarrow> u64 \<Rightarrow> ramfs Fs \<Rightarrow> ((go_error + nat) \<times> ramfs Fs) option" where
  "RFile_Write f ff buf offset fs = (let sz = offset + of_nat (length buf);
       fs = (if dir_Length (f_Dir (fs_files fs f)) < sz then expand f sz fs else fs);
       rs = fs_user fs; B = ram_blksz rs in do {
     (chan, data) \<leftarrow> write_blocks B (ram_zero rs) (ram_blkchan rs) (ram_data rs f) (unat offset div B) (unat offset mod B) buf;
     Some (Inr (length buf), set_data f data (set_chan chan fs)) })"

subsection \<open>Creating, removing and changing files\<close>

definition zero_File :: File where
  "zero_File = \<lparr>f_Dir = zero_Dir, f_removed = False, f_Parent = None, f_next = None, f_prev = None,
     f_cfirst = None, f_clast = None, f_ops = 0\<rparr>"

definition RFile_Create :: "u32 \<Rightarrow> nat \<Rightarrow> FFid \<Rightarrow> string \<Rightarrow> u32 \<Rightarrow> u8 \<Rightarrow> ramfs Fs \<Rightarrow> ((go_error + nat) \<times> ramfs Fs) option" where
  "RFile_Create now f ff nm perm mode fs = (let a = fs_new fs;
       fs = set_data a [] (fs\<lparr>fs_new := Suc a, fs_files := (fs_files fs)(a := zero_File)\<rparr>) in do {
     (err, fs) \<leftarrow> Add a (Some f) nm (ram_user (fs_user fs)) (ram_group (fs_user fs)) perm a now fs;
     Some (case err of Some e \<Rightarrow> Inl (PErr e) | None \<Rightarrow> Inr a, fs) })"

definition RFile_Remove :: "nat \<Rightarrow> FFid \<Rightarrow> ramfs Fs \<Rightarrow> (go_error option \<times> ramfs Fs) option" where
  "RFile_Remove f ff fs = map_option (Pair None) (trunc f 0 fs)"

text \<open>
  \<open>uname\<close> and \<open>gname\<close> are the user tables.  What was changed before an error stays changed.  \<open>Rename\<close> locks
  the parent, which of the root is the root itself, whose lock is held.
\<close>

definition upd_Dir :: "nat \<Rightarrow> (Dir \<Rightarrow> Dir) \<Rightarrow> ramfs Fs \<Rightarrow> ramfs Fs" where
  "upd_Dir f g = set_file f (\<lambda>x. x\<lparr>f_Dir := g (f_Dir x)\<rparr>)"

definition wstat_ids :: "(string \<Rightarrow> User option) \<Rightarrow> (string \<Rightarrow> Group option) \<Rightarrow> nat \<Rightarrow> Dir \<Rightarrow> ramfs Fs \<Rightarrow> go_error option \<times> ramfs Fs" where
  "wstat_ids uname gname f dir fs = (case (if dir_Uidnum dir = NOUID \<and> dir_Uid dir \<noteq> [] then
        (case uname (dir_Uid dir) of
           None \<Rightarrow> Inl (PErr Enouser)
         | Some u \<Rightarrow> Inr (upd_Dir f (\<lambda>d. d\<lparr>dir_Uidnum := of_int (usr_Id u)\<rparr>) fs))
      else Inr fs) of
     Inl err \<Rightarrow> (Some err, fs)
   | Inr fs \<Rightarrow>
       if dir_Gidnum dir = NOUID \<and> dir_Gid dir \<noteq> [] then
         (case gname (dir_Gid dir) of
            None \<Rightarrow> (Some (PErr Enouser), fs)
          | Some g \<Rightarrow> (None, upd_Dir f (\<lambda>d. d\<lparr>dir_Gidnum := of_int (grp_Id g)\<rparr>) fs))
       else (None, fs))"

definition RFile_Wstat :: "(string \<Rightarrow> User option) \<Rightarrow> (string \<Rightarrow> Group option) \<Rightarrow> nat \<Rightarrow> FFid \<Rightarrow> Dir \<Rightarrow> ramfs Fs
    \<Rightarrow> (go_error option \<times> ramfs Fs) option" where
  "RFile_Wstat uname gname f ff dir fs = (case wstat_ids uname gname f dir fs of
     (Some err, fs) \<Rightarrow> Some (Some err, fs)
   | (None, fs) \<Rightarrow> (let
       fs = (if dir_Mode dir \<noteq> 0xFFFFFFFF
             then upd_Dir f (\<lambda>d. d\<lparr>dir_Mode := (dir_Mode d AND NOT 0x1FF) OR (dir_Mode dir AND 0x1FF)\<rparr>) fs else fs) in do {
       (err, fs) \<leftarrow> (if dir_Name dir = [] then Some (None, fs)
         else if f_Parent (fs_files fs f) = Some f then None
         else Rename f (dir_Name dir) fs);
       (case err of
          Some e \<Rightarrow> Some (Some (PErr e), fs)
        | None \<Rightarrow> if dir_Length dir = 0xFFFFFFFFFFFFFFFF then Some (None, fs)
                  else map_option (Pair None) (trunc f (dir_Length dir) fs)) }))"

text \<open>The methods an \<open>RFile\<close> has.\<close>

definition ram_ops :: "(string \<Rightarrow> User option) \<Rightarrow> (string \<Rightarrow> Group option) \<Rightarrow> u32 \<Rightarrow> nat \<Rightarrow> ramfs FileOps" where
  "ram_ops uname gname now f = \<lparr>fo_Stat = None, fo_Wstat = Some (RFile_Wstat uname gname f),
     fo_Read = Some (RFile_Read f), fo_Write = Some (RFile_Write f), fo_Create = Some (RFile_Create now f),
     fo_Remove = Some (RFile_Remove f), fo_Open = None, fo_Clunk = None, fo_Destroy = None\<rparr>"

text \<open>What \<open>main\<close> sets up before it listens: the root directory of a server with blocks of \<open>B\<close> bytes.\<close>

definition ram_start :: "User option \<Rightarrow> Group option \<Rightarrow> nat \<Rightarrow> u32 \<Rightarrow> ramfs Fs option" where
  "ram_start user grp B now = (let rs = \<lparr>ram_user = user, ram_group = grp, ram_blksz = B, ram_blkchan = [],
       ram_zero = replicate B 0, ram_data = (\<lambda>_. [])\<rparr> in do {
     (_, fs) \<leftarrow> Add 0 None ''/'' user None (DMDIR OR 0x1FF) 0 now
       \<lparr>fs_files = (\<lambda>_. zero_File), fs_new = 1, fs_Root = 0, fs_qnext = 0, fs_user = rs\<rparr>;
     Some (NewFileSrv 0 fs) })"

end
