(* ===== verification/Ex_Store.thy ===== *)
theory Ex_Store
  imports Ex_Ramfs Chan_Io
begin

section \<open>The memory file server as a store of byte strings\<close>

text \<open>
  The blocks of a file refine its contents: reading, writing, growing and shrinking are the operations on
  byte strings.  The proofs compare byte strings position by position; behind the end of a file its blocks
  hold zeros, which every operation keeps.
\<close>

subsection \<open>The blocks of a file as its contents\<close>

definition flat :: "bytes \<Rightarrow> bytes list \<Rightarrow> bytes" where
  "flat zero data = concat (map (\<lambda>b. if b = [] then zero else b) data)"

definition blocks_ok :: "nat \<Rightarrow> bytes list \<Rightarrow> bool" where
  "blocks_ok B data \<longleftrightarrow> (\<forall>b\<in>set data. b = [] \<or> length b = B)"

lemma length_flat: "length zero = B \<Longrightarrow> blocks_ok B data \<Longrightarrow> length (flat zero data) = length data * B"
  by (induction data) (auto simp: flat_def blocks_ok_def)

lemma flat_split:
  assumes "length zero = B" "blocks_ok B data" "n < length data"
  shows "flat zero data = flat zero (take n data) @ (if data ! n = [] then zero else data ! n) @ flat zero (drop (Suc n) data)"
    "length (flat zero (take n data)) = n * B" "length (if data ! n = [] then zero else data ! n) = B"
proof -
  have "data = take n data @ data ! n # drop (Suc n) data" using assms(3) by (simp add: id_take_nth_drop)
  then have "flat zero data = flat zero (take n data @ data ! n # drop (Suc n) data)" by (rule arg_cong)
  then show "flat zero data = flat zero (take n data) @ (if data ! n = [] then zero else data ! n) @ flat zero (drop (Suc n) data)"
    by (simp add: flat_def)
  have "blocks_ok B (take n data)" using assms(2) by (auto simp: blocks_ok_def dest: in_set_takeD)
  then show "length (flat zero (take n data)) = n * B" using length_flat [OF assms(1), of "take n data"] assms(3) by simp
  show "length (if data ! n = [] then zero else data ! n) = B" using assms by (auto simp: blocks_ok_def)
qed

lemma flat_update:
  assumes "length zero = B" "blocks_ok B data" "n < length data" "length b = B" "0 < B"
  shows "flat zero (data[n := b]) = take (n * B) (flat zero data) @ b @ drop (n * B + B) (flat zero data)" "blocks_ok B (data[n := b])"
proof -
  show ok: "blocks_ok B (data[n := b])" using assms(2,4) by (auto simp: blocks_ok_def dest: set_update_subset_insert [THEN subsetD])
  have "b \<noteq> []" using assms(4,5) by auto
  then show "flat zero (data[n := b]) = take (n * B) (flat zero data) @ b @ drop (n * B + B) (flat zero data)"
    using flat_split [OF assms(1-3)] flat_split(1) [OF assms(1) ok, of n] assms(3) by simp
qed

lemma read_blocks_flat:
  assumes "length zero = B" "blocks_ok B data" "0 < B"
  shows "off < B \<Longrightarrow> n * B + off + len \<le> length data * B \<Longrightarrow>
    read_blocks B zero data n off len = Some (take len (drop (n * B + off) (flat zero data)))"
proof (induction len arbitrary: n off rule: less_induct)
  case (less len)
  show ?case
  proof (cases "len = 0")
    case False
    define b where "b = (if data ! n = [] then zero else data ! n)"
    let ?m = "min (B - off) len"
    have "n * B < length data * B" using less.prems False by linarith
    then have n: "n < length data" by simp
    have b': "(if data ! n \<noteq> [] then data ! n else zero) = b" by (simp add: b_def)
    note f = flat_split [OF assms(1,2) n, folded b_def]
    have 1: "drop (n * B + off) (flat zero data) = drop off b @ flat zero (drop (Suc n) data)"
      using f(2,3) less.prems(1) by (simp add: f(1))
    have 2: "drop (Suc n * B) (flat zero data) = flat zero (drop (Suc n) data)"
      using f(2,3) by (simp add: f(1))
    have 3: "read_blocks B zero data (n + 1) 0 (len - ?m) = Some (take (len - ?m) (flat zero (drop (Suc n) data)))"
    proof (cases "len \<le> B - off")
      case True
      then show ?thesis by (simp add: read_blocks.simps [of _ _ _ _ _ 0])
    next
      case le: False
      then have "(n + 1) * B + 0 + (len - ?m) \<le> length data * B" using less.prems by simp
      then show ?thesis
        using less.IH [of "len - ?m" 0 "n + 1"] le False assms(3) less.prems(1) 2 by simp
    qed
    show ?thesis
      by (subst read_blocks.simps) (use 1 3 f(3) False n less.prems(1) in \<open>auto simp: Let_def b' min_def\<close>)
  qed (simp add: read_blocks.simps)
qed

lemma take_block_view:
  assumes "length zero = B" "blk = [] \<or> length blk = B" "\<forall>b\<in>set chan. length b = B" "take_block B zero chan blk = (b, chan')"
  shows "b = (if blk = [] then zero else blk)" "\<forall>b\<in>set chan'. length b = B"
  using assms by (auto simp: take_block_def go_copy_exact split: if_splits list.splits)

lemma write_blocks_flat:
  assumes z: "length zero = B" "0 < B"
  shows "off < B \<Longrightarrow> n * B + off + length buf \<le> length data * B \<Longrightarrow> blocks_ok B data \<Longrightarrow> \<forall>b\<in>set chan. length b = B \<Longrightarrow>
    \<exists>chan' data'. write_blocks B zero chan data n off buf = Some (chan', data') \<and> blocks_ok B data' \<and> length data' = length data
      \<and> (\<forall>b\<in>set chan'. length b = B) \<and> (flat zero data' = overwrite (flat zero data) (n * B + off) buf)"
proof (induction "length buf" arbitrary: buf n off data chan rule: less_induct)
  case less
  show ?case
  proof (cases "buf = []")
    case True
    then show ?thesis using less.prems length_flat [OF z(1) less.prems(3)] by (simp add: write_blocks.simps overwrite_Nil)
  next
    case False
    obtain b chan1 where t: "take_block B zero chan (data ! n) = (b, chan1)" by (cases "take_block B zero chan (data ! n)")
    have "0 < length buf" using False by simp
    then have "n * B < length data * B" using less.prems(2) by linarith
    then have n: "n < length data" by simp
    then have "data ! n = [] \<or> length (data ! n) = B" using less.prems(3) by (auto simp: blocks_ok_def)
    note b = take_block_view [OF z(1) this less.prems(4) t]
    note f = flat_split [OF z(1) less.prems(3) n, folded b(1)]
    let ?m = "min (B - off) (length buf)" and ?F = "flat zero data"
    let ?b = "take off b @ take ?m buf @ drop (off + ?m) b" and ?p = "n * B + off"
    have lb: "length ?b = B" using f(3) less.prems(1) by (simp add: min_def)
    note u = flat_update [OF z(1) less.prems(3) n lb z(2)]
    have m: "length (take ?m buf) = ?m" by simp
    have F1: "flat zero (data[n := ?b]) = overwrite ?F ?p (take ?m buf)"
    proof -
      have "take ?p ?F = take (n * B) ?F @ take off b" using f less.prems(1) by (simp add: f(1))
      moreover have "drop (?p + ?m) ?F = drop (off + ?m) b @ drop (n * B + B) ?F" using f less.prems(1) by (simp add: f(1) min_def)
      moreover have "?p \<le> length ?F" using less.prems(2) length_flat [OF z(1) less.prems(3)] by simp
      then have "replicate (?p - length ?F) (0 :: u8) = []" by simp
      ultimately show ?thesis unfolding u(1) overwrite_def m by (simp only: append_assoc append_Nil)
    qed
    have rec: "\<exists>chan' data'. write_blocks B zero chan1 (data[n := ?b]) (n + 1) 0 (drop ?m buf) = Some (chan', data') \<and> blocks_ok B data'
      \<and> length data' = length data \<and> (\<forall>b\<in>set chan'. length b = B) \<and> flat zero data' = overwrite ?F ?p buf"
    proof (cases "length buf \<le> B - off")
      case True
      then show ?thesis using F1 u(2) b(2) by (simp add: write_blocks.simps)
    next
      case gt: False
      then have p: "(n + 1) * B + 0 = ?p + length (take ?m buf)" using less.prems(1) by simp
      have "(n + 1) * B + 0 + length (drop ?m buf) \<le> length (data[n := ?b]) * B" using p less.prems(2) gt by simp
      then obtain chan' data' where "write_blocks B zero chan1 (data[n := ?b]) (n + 1) 0 (drop ?m buf) = Some (chan', data')" "blocks_ok B data'"
          "length data' = length data" "\<forall>b\<in>set chan'. length b = B"
          "flat zero data' = overwrite (flat zero (data[n := ?b])) ((n + 1) * B + 0) (drop ?m buf)"
        using less.hyps [of "drop ?m buf" 0 "n + 1" "data[n := ?b]" chan1] u(2) b(2) z(2) less.prems(1) False by auto
      then show ?thesis unfolding F1 p overwrite_append append_take_drop_id by blast
    qed
    have "write_blocks B zero chan data n off buf = write_blocks B zero chan1 (data[n := ?b]) (n + 1) 0 (drop ?m buf)"
      by (subst write_blocks.simps) (use False n t f(3) less.prems(1) in \<open>simp add: Let_def\<close>)
    then show ?thesis using rec by simp
  qed
qed

subsection \<open>The contents of a file\<close>

abbreviation file_length :: "ramfs Fs \<Rightarrow> nat \<Rightarrow> nat" where
  "file_length fs f \<equiv> unat (dir_Length (f_Dir (fs_files fs f)))"

abbreviation raw :: "ramfs Fs \<Rightarrow> nat \<Rightarrow> bytes" where
  "raw fs f \<equiv> flat (ram_zero (fs_user fs)) (ram_data (fs_user fs) f)"

definition contents :: "ramfs Fs \<Rightarrow> nat \<Rightarrow> bytes" where
  "contents fs f = take (file_length fs f) (raw fs f)"

text \<open>The spare blocks have the right length, the file has just the blocks it needs, and these hold zeros
  behind the end of the file.\<close>

definition rf_ok :: "nat \<Rightarrow> bytes \<Rightarrow> bytes list \<Rightarrow> bytes list \<Rightarrow> nat \<Rightarrow> bool" where
  "rf_ok B zero chan data L \<longleftrightarrow> 0 < B \<and> zero = replicate B 0 \<and> (\<forall>b\<in>set chan. length b = B) \<and> blocks_ok B data
     \<and> L \<le> length data * B \<and> length data * B < L + B \<and> (\<forall>i \<ge> L. at (flat zero data) i = 0)"

definition ram_ok :: "ramfs Fs \<Rightarrow> nat \<Rightarrow> bool" where
  "ram_ok fs f \<longleftrightarrow> (let rs = fs_user fs in
     rf_ok (ram_blksz rs) (ram_zero rs) (ram_blkchan rs) (ram_data rs f) (file_length fs f))"

lemma rf_ok_chan: "rf_ok B zero chan data L \<Longrightarrow> \<forall>b\<in>set chan'. length b = B \<Longrightarrow> rf_ok B zero chan' data L"
  unfolding rf_ok_def by blast

lemma ram_okD:
  assumes "ram_ok fs f"
  shows "0 < ram_blksz (fs_user fs)" "ram_zero (fs_user fs) = replicate (ram_blksz (fs_user fs)) 0"
    "\<forall>b\<in>set (ram_blkchan (fs_user fs)). length b = ram_blksz (fs_user fs)" "blocks_ok (ram_blksz (fs_user fs)) (ram_data (fs_user fs) f)"
    "length (raw fs f) = length (ram_data (fs_user fs) f) * ram_blksz (fs_user fs)" "file_length fs f \<le> length (raw fs f)"
    "length (raw fs f) < file_length fs f + ram_blksz (fs_user fs)" "length (contents fs f) = file_length fs f"
    "at (contents fs f) i = at (raw fs f) i" "\<forall>i \<ge> file_length fs f. at (raw fs f) i = 0"
proof -
  show z: "\<forall>i \<ge> file_length fs f. at (raw fs f) i = 0" using assms unfolding ram_ok_def rf_ok_def Let_def by blast
  show 1: "0 < ram_blksz (fs_user fs)" "ram_zero (fs_user fs) = replicate (ram_blksz (fs_user fs)) 0"
    "\<forall>b\<in>set (ram_blkchan (fs_user fs)). length b = ram_blksz (fs_user fs)" "blocks_ok (ram_blksz (fs_user fs)) (ram_data (fs_user fs) f)"
    using assms by (auto simp: ram_ok_def rf_ok_def Let_def)
  show l: "length (raw fs f) = length (ram_data (fs_user fs) f) * ram_blksz (fs_user fs)" by (rule length_flat) (use 1 in simp_all)
  then show 2: "file_length fs f \<le> length (raw fs f)" "length (raw fs f) < file_length fs f + ram_blksz (fs_user fs)"
    using assms by (auto simp: ram_ok_def rf_ok_def Let_def)
  then show "length (contents fs f) = file_length fs f" by (simp add: contents_def)
  show "at (contents fs f) i = at (raw fs f) i" using z by (simp add: contents_def at_take)
qed

lemma round_up:
  fixes x B :: nat
  assumes "0 < B"
  shows "x \<le> (x div B + (if x mod B \<noteq> 0 then 1 else 0)) * B" "(x div B + (if x mod B \<noteq> 0 then 1 else 0)) * B < x + B"
proof -
  define q where "q = x div B"
  define r where "r = x mod B"
  have e: "q * B + r = x" "r < B" using assms by (simp_all only: q_def r_def div_mult_mod_eq) simp
  show "x \<le> (x div B + (if x mod B \<noteq> 0 then 1 else 0)) * B" "(x div B + (if x mod B \<noteq> 0 then 1 else 0)) * B < x + B"
    unfolding q_def [symmetric] r_def [symmetric] using e assms by (auto simp: algebra_simps)
qed

lemma flat_append_empty: "flat zero (data @ replicate k []) = flat zero data @ concat (replicate k zero)"
  by (induction data; induction k) (simp_all add: flat_def)

lemma concat_zeros: "concat (replicate k (replicate B (0 :: u8))) = replicate (k * B) 0"
  by (induction k) (simp_all add: replicate_add)

lemma set_simps [simp]:
  "fs_user (set_data f d fs) = (fs_user fs)\<lparr>ram_data := (ram_data (fs_user fs))(f := d)\<rparr>" "fs_files (set_data f d fs) = fs_files fs"
  "fs_user (set_chan c fs) = (fs_user fs)\<lparr>ram_blkchan := c\<rparr>" "fs_files (set_chan c fs) = fs_files fs"
  "fs_user (set_length f l fs) = fs_user fs"
  "fs_files (set_length f l fs) = (fs_files fs)(f := (fs_files fs f)\<lparr>f_Dir := (f_Dir (fs_files fs f))\<lparr>dir_Length := l\<rparr>\<rparr>)"
  by (simp_all add: set_data_def set_chan_def set_length_def)

text \<open>An operation on \<open>f\<close> leaves the contents of the other files alone.\<close>

definition only :: "nat \<Rightarrow> ramfs Fs \<Rightarrow> ramfs Fs \<Rightarrow> bool" where
  "only f fs fs' \<longleftrightarrow> (\<forall>g. g \<noteq> f \<and> ram_ok fs g \<longrightarrow> ram_ok fs' g \<and> contents fs' g = contents fs g)"

lemma only_refl [simp]: "only f fs fs"
  by (simp add: only_def)

lemma only_trans: "only f fs fs' \<Longrightarrow> only f fs' fs'' \<Longrightarrow> only f fs fs''"
  by (simp add: only_def)

lemma only_set:
  assumes "\<forall>b\<in>set c. length b = ram_blksz (fs_user fs)"
  shows "only f fs (set_length f l (set_data f d (set_chan c fs)))" "only f fs (set_data f d (set_chan c fs))" "only f fs (set_length f l (set_data f d fs))"
  using assms by (auto simp: only_def ram_ok_def contents_def Let_def intro: rf_ok_chan)

lemma expand_ok:
  assumes ok: "ram_ok fs f" and le: "file_length fs f \<le> unat sz"
  shows "ram_ok (expand f sz fs) f" "contents (expand f sz fs) f = contents fs f @ replicate (unat sz - file_length fs f) 0"
    "only f fs (expand f sz fs)" "file_length (expand f sz fs) f = unat sz" "at (raw (expand f sz fs) f) i = at (raw fs f) i"
proof -
  let ?B = "ram_blksz (fs_user fs)" and ?d = "ram_data (fs_user fs) f" and ?z = "ram_zero (fs_user fs)"
  let ?n = "unat sz div ?B + (if unat sz mod ?B \<noteq> 0 then 1 else 0)"
  note D = ram_okD [OF ok]
  have n: "unat sz \<le> ?n * ?B" "?n * ?B < unat sz + ?B" using round_up [OF D(1)] by blast+
  have "length ?d * ?B < (?n + 1) * ?B" using D(5,7) le n(1) by simp
  then have "length ?d < ?n + 1" by (simp only: mult_less_cancel2)
  then have g: "go_copy (replicate ?n []) ?d = ?d @ replicate (?n - length ?d) []" by (simp add: go_copy_def)
  have r: "raw (expand f sz fs) f = raw fs f @ replicate ((?n - length ?d) * ?B) 0"
    unfolding expand_def Let_def g set_simps fun_upd_same by (simp add: flat_append_empty D(2) concat_zeros)
  then show at: "at (raw (expand f sz fs) f) i = at (raw fs f) i" for i by simp
  show fl: "file_length (expand f sz fs) f = unat sz" by (simp add: expand_def Let_def)
  note z = D(10)
  have b: "blocks_ok ?B (?d @ replicate (?n - length ?d) [])" using D(4) by (auto simp: blocks_ok_def)
  have dl: "ram_data (fs_user (expand f sz fs)) f = ?d @ replicate (?n - length ?d) []" "ram_blksz (fs_user (expand f sz fs)) = ?B"
      "ram_zero (fs_user (expand f sz fs)) = ?z" "ram_blkchan (fs_user (expand f sz fs)) = ram_blkchan (fs_user fs)"
    unfolding expand_def Let_def g by simp_all
  have l: "length (?d @ replicate (?n - length ?d) []) = ?n" using \<open>length ?d < ?n + 1\<close> by simp
  have t: "\<forall>i \<ge> unat sz. at (flat ?z (?d @ replicate (?n - length ?d) [])) i = 0"
    using at z le unfolding dl(1,3) by (metis le_trans)
  show ok': "ram_ok (expand f sz fs) f"
    unfolding ram_ok_def Let_def dl fl rf_ok_def l using D(1-4) n b t by blast
  show "only f fs (expand f sz fs)" unfolding expand_def Let_def by (rule only_set(3) [OF D(3)])
  show "contents (expand f sz fs) f = contents fs f @ replicate (unat sz - file_length fs f) 0"
    by (rule at_eqI) (use ram_okD(8,9) [OF ok'] D(8,9) le fl at in simp_all)
qed

subsection \<open>Reading and writing\<close>

lemma RFile_Read_ok:
  assumes ok: "ram_ok fs f" and n: "n < 2 ^ 32" "unat offset + n < 2 ^ 64"
  shows "RFile_Read f ff n offset fs = Some (Inr (min n (file_length fs f - unat offset), take n (drop (unat offset) (contents fs f))), fs)"
proof (cases "offset > dir_Length (f_Dir (fs_files fs f))")
  case True
  then show ?thesis using ram_okD(8) [OF ok] by (simp add: RFile_Read_def Let_def word_less_nat_alt)
next
  case False
  let ?L = "dir_Length (f_Dir (fs_files fs f))" and ?B = "ram_blksz (fs_user fs)"
  note D = ram_okD [OF ok]
  have le: "unat offset \<le> unat ?L" using False by (simp add: word_less_nat_alt)
  have u: "unat (of_nat n :: u32) = n" using n(1) by (simp only: unsigned_of_nat) (simp add: take_bit_nat_eq_self)
  then have u64: "unat (ucast (of_nat n :: u32) :: u64) = n" using n(1) by (simp add: unsigned_ucast_eq take_bit_nat_eq_self)
  have sum: "unat (offset + ucast (of_nat n :: u32)) = unat offset + n"
    using n(2) by (subst unat_add_lem [THEN iffD1]) (simp_all only: u64, simp)
  have sub: "unat (?L - offset) = unat ?L - unat offset" using le by (simp add: unat_sub word_le_nat_alt)
  define c where "c = (if offset + ucast (of_nat n :: u32) > ?L then ucast (?L - offset) else of_nat n :: u32)"
  have c: "unat c = min n (unat ?L - unat offset)"
  proof (cases "unat ?L < unat offset + n")
    case True
    then have "unat ?L - unat offset < 2 ^ 32" using n(1) by simp
    then have "unat (ucast (?L - offset) :: u32) = unat ?L - unat offset"
      by (simp add: unsigned_ucast_eq sub take_bit_nat_eq_self)
    then show ?thesis using True by (simp add: c_def word_less_nat_alt sum)
  next
    case False
    then show ?thesis using u by (simp add: c_def word_less_nat_alt sum)
  qed
  have "unat offset div ?B * ?B + unat offset mod ?B = unat offset" by (rule div_mult_mod_eq)
  moreover have "unat offset mod ?B < ?B" using D(1) by simp
  moreover have "unat offset + unat c \<le> length (ram_data (fs_user fs) f) * ?B" using c le D(5,6) by simp
  ultimately have "read_blocks ?B (ram_zero (fs_user fs)) (ram_data (fs_user fs) f) (unat offset div ?B) (unat offset mod ?B) (unat c)
      = Some (take (unat c) (drop (unat offset) (raw fs f)))"
    using read_blocks_flat [of "ram_zero (fs_user fs)" ?B "ram_data (fs_user fs) f" "unat offset mod ?B" "unat offset div ?B" "unat c"] D(1,2,4)
    by simp
  moreover have "take (unat c) (drop (unat offset) (raw fs f)) = take n (drop (unat offset) (contents fs f))"
    using c by (simp add: contents_def drop_take min.commute)
  ultimately show ?thesis
    using False by (simp add: RFile_Read_def Let_def c_def [symmetric] c)
qed

lemma RFile_Write_ok:
  assumes ok: "ram_ok fs f" and b: "unat offset + length buf < 2 ^ 64"
  obtains fs' where "RFile_Write f ff buf offset fs = Some (Inr (length buf), fs')" "ram_ok fs' f" "only f fs fs'"
    "contents fs' f = overwrite (contents fs f) (unat offset) buf"
proof -
  let ?sz = "offset + of_nat (length buf)"
  have lb: "unat (of_nat (length buf) :: u64) = length buf" using b by (simp only: unsigned_of_nat) (simp add: take_bit_nat_eq_self)
  have sz: "unat ?sz = unat offset + length buf"
    using b by (subst unat_add_lem [THEN iffD1]) (simp_all only: lb, simp)
  define fs1 where "fs1 = (if dir_Length (f_Dir (fs_files fs f)) < ?sz then expand f ?sz fs else fs)"
  have 1: "ram_ok fs1 f" "only f fs fs1" "file_length fs1 f = max (file_length fs f) (unat ?sz)" "\<And>i. at (raw fs1 f) i = at (raw fs f) i"
    using expand_ok [OF ok, of ?sz] ok by (auto simp: fs1_def word_less_nat_alt max_def)
  note D = ram_okD [OF 1(1)] and D0 = ram_okD [OF ok]
  let ?B = "ram_blksz (fs_user fs1)" and ?z = "ram_zero (fs_user fs1)" and ?d = "ram_data (fs_user fs1) f"
  have z: "length ?z = ?B" using D(2) by (metis length_replicate)
  have p: "unat offset div ?B * ?B + unat offset mod ?B = unat offset" by (rule div_mult_mod_eq)
  have o: "unat offset mod ?B < ?B" using D(1) by simp
  have fit: "unat offset div ?B * ?B + unat offset mod ?B + length buf \<le> length ?d * ?B" using D(5,6) 1(3) sz unfolding p by simp
  obtain chan data where W: "write_blocks ?B ?z (ram_blkchan (fs_user fs1)) ?d (unat offset div ?B) (unat offset mod ?B) buf = Some (chan, data)"
      "blocks_ok ?B data" "length data = length ?d" "\<forall>b\<in>set chan. length b = ?B" "flat ?z data = overwrite (raw fs1 f) (unat offset) buf"
    using write_blocks_flat [OF z D(1) o fit D(4,3)] unfolding p by blast
  define fs' where "fs' = set_data f data (set_chan chan fs1)"
  have R: "RFile_Write f ff buf offset fs = Some (Inr (length buf), fs')"
    using W(1) by (simp add: RFile_Write_def Let_def fs1_def [symmetric] fs'_def)
  have "only f fs1 fs'" unfolding fs'_def by (rule only_set(2) [OF W(4)])
  then have only: "only f fs fs'" by (rule only_trans [OF 1(2)])
  have at: "at (flat ?z data) i = (if unat offset \<le> i \<and> i < unat offset + length buf then buf ! (i - unat offset) else at (raw fs f) i)" for i
    by (simp add: W(5) at_overwrite 1(4))
  have "\<forall>i \<ge> file_length fs1 f. at (flat ?z data) i = 0" using D0(10) 1(3) sz by (simp add: at)
  then have "rf_ok ?B ?z chan data (file_length fs1 f)"
    unfolding rf_ok_def using D(1,2,5-7) W(2-4) by auto
  then have ok': "ram_ok fs' f" by (simp add: ram_ok_def Let_def fs'_def)
  have "contents fs' f = overwrite (contents fs f) (unat offset) buf"
  proof (rule at_eqI)
    show "length (contents fs' f) = length (overwrite (contents fs f) (unat offset) buf)"
      using ram_okD(8) [OF ok'] D0(8) 1(3) sz by (simp add: length_overwrite fs'_def)
    show "at (contents fs' f) i = at (overwrite (contents fs f) (unat offset) buf) i" for i
      using ram_okD(9) [OF ok', of i] D0(9) at by (simp add: at_overwrite fs'_def)
  qed
  then show thesis using that R ok' only by blast
qed

subsection \<open>Truncating\<close>

lemma flat_take: "length zero = B \<Longrightarrow> blocks_ok B data \<Longrightarrow> n \<le> length data \<Longrightarrow> flat zero (take n data) = take (n * B) (flat zero data)"
  using flat_split [of zero B data n] length_flat [of zero B data] by (cases "n = length data") simp_all

text \<open>The rest of the last block is filled with zeros.\<close>

lemma clear_tail:
  assumes z: "zero = replicate B 0" "0 < B" "blocks_ok B data" and q: "q < length data" "off < B"
  defines "d \<equiv> (if data ! q \<noteq> [] then data[q := take off (data ! q) @ go_copy (drop off (data ! q)) zero] else data)"
  shows "blocks_ok B d" "length d = length data"
    "at (flat zero d) i = (if q * B + off \<le> i \<and> i < q * B + B then 0 else at (flat zero data) i)"
proof -
  have lz: "length zero = B" using z(1) by simp
  show "length d = length data" by (simp add: d_def)
  define b where "b = (if data ! q = [] then zero else data ! q)"
  define X where "X = flat zero (take q data)"
  define Y where "Y = flat zero (drop (Suc q) data)"
  have f: "flat zero data = X @ b @ Y" "length X = q * B" "length b = B"
    using flat_split [OF lz z(3) q(1)] by (simp_all only: b_def X_def Y_def)
  show "blocks_ok B d" "at (flat zero d) i = (if q * B + off \<le> i \<and> i < q * B + B then 0 else at (flat zero data) i)"
  proof (atomize (full), cases "data ! q = []")
    case True
    have "at (flat zero data) i = 0" if i: "q * B \<le> i" "i < q * B + B"
    proof -
      obtain j where "i = q * B + j" using i(1) by (auto simp: le_iff_add)
      then show ?thesis using i(2) True f z(1) by (simp add: at_def nth_append b_def)
    qed
    then show "blocks_ok B d \<and> at (flat zero d) i = (if q * B + off \<le> i \<and> i < q * B + B then 0 else at (flat zero data) i)"
      using True z(3) by (simp add: d_def)
  next
    case False
    then have b: "data ! q = b" by (simp add: b_def)
    have g: "go_copy (drop off b) zero = replicate (B - off) 0" using f(3) z(1) by (simp add: go_copy_def)
    have l: "length (take off b @ replicate (B - off) 0) = B" using f(3) q(2) by simp
    note u = flat_update [OF lz z(3) q(1) l z(2)]
    have d: "d = data[q := take off b @ replicate (B - off) 0]" using False by (simp add: d_def b g)
    have "flat zero d = X @ (take off b @ replicate (B - off) 0) @ Y" unfolding d u(1) using f by simp
    then have "at (flat zero d) i = (if q * B + off \<le> i \<and> i < q * B + B then 0 else at (flat zero data) i)"
      using f(2,3) q(2) by (auto simp: f(1) at_def nth_append)
    then show "blocks_ok B d \<and> at (flat zero d) i = (if q * B + off \<le> i \<and> i < q * B + B then 0 else at (flat zero data) i)"
      using u(2) d by simp
  qed
qed

lemma spare_length: "\<forall>b\<in>set chan. length b = B \<Longrightarrow> blocks_ok B data \<Longrightarrow> \<forall>b\<in>set (spare chan (drop n data)). length b = B"
  by (auto simp: spare_def blocks_ok_def dest!: in_set_takeD in_set_dropD)

lemma next_multiple: "x = (if 0 < r then k + B else k) \<Longrightarrow> k + r = s \<Longrightarrow> r < B \<Longrightarrow> s \<le> x \<and> x < s + B" for x k r s B :: nat
  by auto

lemma shrink_ok:
  assumes ok: "ram_ok fs f" and lt: "unat sz < file_length fs f"
  obtains fs' where "shrink f sz fs = Some fs'" "ram_ok fs' f" "only f fs fs'" "file_length fs' f = unat sz"
    "contents fs' f = take (unat sz) (contents fs f)"
proof -
  let ?B = "ram_blksz (fs_user fs)" and ?z = "ram_zero (fs_user fs)" and ?d = "ram_data (fs_user fs) f"
  let ?q = "unat sz div ?B" and ?o = "unat sz mod ?B"
  note D = ram_okD [OF ok]
  have z: "length ?z = ?B" using D(2) by (metis length_replicate)
  have p: "?q * ?B + ?o = unat sz" by (rule div_mult_mod_eq)
  have o: "?o < ?B" using D(1) by simp
  have "?q * ?B < length ?d * ?B" using p lt D(5,6) by linarith
  then have q: "?q < length ?d" by simp
  define d where "d = (if ?o > 0 \<and> ?d ! ?q \<noteq> [] then ?d[?q := take ?o (?d ! ?q) @ go_copy (drop ?o (?d ! ?q)) ?z] else ?d)"
  define n where "n = (if ?o > 0 then ?q + 1 else ?q)"
  have n: "unat sz \<le> n * ?B" "n * ?B < unat sz + ?B" "n \<le> length ?d"
  proof -
    have "n * ?B = (if ?o > 0 then ?q * ?B + ?B else ?q * ?B)" by (simp add: n_def)
    then show "unat sz \<le> n * ?B" "n * ?B < unat sz + ?B" using next_multiple [OF _ p o] by blast+
    show "n \<le> length ?d" using q by (simp add: n_def)
  qed
  have d: "blocks_ok ?B d" "length d = length ?d" "at (flat ?z d) i = (if unat sz \<le> i \<and> i < n * ?B then 0 else at (raw fs f) i)" for i
  proof -
    note c = clear_tail [OF D(2,1,4) q o]
    show "blocks_ok ?B d" "length d = length ?d" using c(1,2) D(4) by (auto simp: d_def)
    show "at (flat ?z d) i = (if unat sz \<le> i \<and> i < n * ?B then 0 else at (raw fs f) i)"
      using c(3) [of i] p by (cases "?o > 0") (auto simp: d_def n_def add.commute)
  qed
  define fs' where "fs' = set_length f sz (set_data f (take n d) (set_chan (spare (ram_blkchan (fs_user fs)) (drop n d)) fs))"
  have S: "shrink f sz fs = Some fs'"
    using q n(3) d(2) by (simp add: shrink_def Let_def fs'_def d_def n_def)
  have sp: "\<forall>b\<in>set (spare (ram_blkchan (fs_user fs)) (drop n d)). length b = ?B" by (rule spare_length [OF D(3) d(1)])
  have at: "at (flat ?z (take n d)) i = (if i < unat sz then at (raw fs f) i else 0)" for i
    using flat_take [OF z d(1), of n] n d(2) by (simp add: at_take d(3))
  have "blocks_ok ?B (take n d)" using d(1) by (auto simp: blocks_ok_def dest: in_set_takeD)
  moreover have "length (take n d) = n" using n(3) d(2) by simp
  ultimately have "rf_ok ?B ?z (spare (ram_blkchan (fs_user fs)) (drop n d)) (take n d) (unat sz)"
    unfolding rf_ok_def using D(1,2) sp n(1,2) at by simp
  then have ok': "ram_ok fs' f" by (simp add: ram_ok_def Let_def fs'_def)
  have "contents fs' f = take (unat sz) (contents fs f)"
  proof (rule at_eqI)
    show "length (contents fs' f) = length (take (unat sz) (contents fs f))"
      using ram_okD(8) [OF ok'] D(8) lt by (simp add: fs'_def)
    show "at (contents fs' f) i = at (take (unat sz) (contents fs f)) i" for i
      using ram_okD(9) [OF ok', of i] D(9) at by (simp add: at_take fs'_def)
  qed
  moreover have "only f fs fs'" unfolding fs'_def by (rule only_set(1) [OF sp])
  moreover have "file_length fs' f = unat sz" by (simp add: fs'_def)
  ultimately show thesis using that S ok' by blast
qed

lemma trunc_ok:
  assumes ok: "ram_ok fs f"
  obtains fs' where "trunc f sz fs = Some fs'" "ram_ok fs' f" "only f fs fs'"
    "contents fs' f = take (unat sz) (contents fs f) @ replicate (unat sz - file_length fs f) 0"
proof -
  let ?L = "dir_Length (f_Dir (fs_files fs f))"
  have l: "length (contents fs f) = unat ?L" using ram_okD(8) [OF ok] .
  consider "?L = sz" | "?L > sz" | "?L < sz" by fastforce
  then show thesis
  proof cases
    case 1
    then have "trunc f sz fs = Some fs" "contents fs f = take (unat sz) (contents fs f) @ replicate (unat sz - unat ?L) 0"
      using l by (auto simp: trunc_def Let_def)
    then show thesis using that ok by simp
  next
    case 2
    then have lt: "unat sz < unat ?L" by (simp add: word_less_nat_alt)
    obtain fs' where s: "shrink f sz fs = Some fs'" "ram_ok fs' f" "only f fs fs'" "contents fs' f = take (unat sz) (contents fs f)"
      by (rule shrink_ok [OF ok lt]) blast
    have "trunc f sz fs = Some fs'" using 2 s(1) by (auto simp: trunc_def Let_def)
    then show thesis using that s(2-) lt by simp
  next
    case 3
    then have le: "unat ?L \<le> unat sz" by (simp add: word_less_nat_alt)
    have "trunc f sz fs = Some (expand f sz fs)" using 3 by (auto simp: trunc_def Let_def)
    then show thesis using that [of "expand f sz fs"] expand_ok(1-3) [OF ok le] l le by simp
  qed
qed

subsection \<open>The contract of a file\<close>

text \<open>What a file promises about its bytes: a read returns them, a write stores them all.\<close>

locale byte_file =
  fixes inv :: "'s \<Rightarrow> bool" and content :: "'s \<Rightarrow> bytes"
    and rd :: "nat \<Rightarrow> u64 \<Rightarrow> 's \<Rightarrow> (bytes \<times> 's) option" and wr :: "bytes \<Rightarrow> u64 \<Rightarrow> 's \<Rightarrow> (nat \<times> 's) option"
  assumes rd_law: "inv s \<Longrightarrow> n < 2 ^ 32 \<Longrightarrow> unat off + n < 2 ^ 64 \<Longrightarrow> rd n off s = Some (take n (drop (unat off) (content s)), s)"
    and wr_law: "inv s \<Longrightarrow> unat off + length d < 2 ^ 64 \<Longrightarrow>
      \<exists>s'. wr d off s = Some (length d, s') \<and> inv s' \<and> content s' = overwrite (content s) (unat off) d"

text \<open>The answers to the reads and writes of a fid that is open on such a file.\<close>

definition file_answer :: "(nat \<Rightarrow> u64 \<Rightarrow> 's \<Rightarrow> (bytes \<times> 's) option) \<Rightarrow> (bytes \<Rightarrow> u64 \<Rightarrow> 's \<Rightarrow> (nat \<times> 's) option) \<Rightarrow> u32
    \<Rightarrow> nat \<Rightarrow> msg \<Rightarrow> 's \<Rightarrow> msg \<times> 's" where
  "file_answer rd wr k n m s = (case m of
     MTread f off cnt \<Rightarrow> if f = k then (case rd (unat cnt) off s of
         Some (b, s') \<Rightarrow> (MRread b, s') | None \<Rightarrow> (MRerror ''no answer'' 0, s)) else (MRerror ''unknown fid'' 0, s)
   | MTwrite f off d \<Rightarrow> if f = k then (case wr d off s of
         Some (c, s') \<Rightarrow> (MRwrite (of_nat c), s') | None \<Rightarrow> (MRerror ''no answer'' 0, s)) else (MRerror ''unknown fid'' 0, s)
   | _ \<Rightarrow> (MRerror ''not supported'' 0, s))"

context byte_file
begin

lemma answer_stores: "stores (file_answer rd wr k) n k inv content"
  unfolding stores_def
proof (intro allI impI, elim conjE)
  fix off :: u64 and data :: bytes and e
  assume a: "inv e" "data \<noteq> []" "length data < 2 ^ 32" "unat off + length data < 2 ^ 64"
  obtain e' where e': "wr data off e = Some (length data, e')" "inv e'" "content e' = overwrite (content e) (unat off) data"
    using wr_law [OF a(1,4)] by blast
  have "unat (of_nat (length data) :: u32) = length data"
    using a(3) by (simp only: unsigned_of_nat) (simp add: take_bit_nat_eq_self)
  then show "\<exists>c e'. file_answer rd wr k n (MTwrite k off data) e = (MRwrite c, e') \<and> inv e' \<and> 0 < unat c \<and> unat c \<le> length data
      \<and> content e' = overwrite (content e) (unat off) (take (unat c) data)"
    using e' a(2) by (intro exI [of _ "of_nat (length data)"] exI [of _ e']) (simp add: file_answer_def)
qed

lemma answer_shows: "shows_file (file_answer rd wr k) n k inv content"
  unfolding shows_file_def
proof (intro allI impI, elim conjE)
  fix off :: u64 and cnt :: u32 and e
  assume a: "inv e" "unat off + unat cnt < 2 ^ 64"
  let ?b = "take (unat cnt) (drop (unat off) (content e))"
  have "unat cnt < 2 ^ 32" using unsigned_less [of cnt, where ?'a = nat] by simp
  then have "rd (unat cnt) off e = Some (?b, e)" using rd_law [OF a(1) _ a(2)] by simp
  then have "file_answer rd wr k n (MTread k off cnt) e = (MRread ?b, e)" by (simp add: file_answer_def)
  moreover have "length ?b \<le> unat cnt" "?b = take (length ?b) (drop (unat off) (content e))"
    "?b = [] \<longrightarrow> cnt = 0 \<or> length (content e) \<le> unat off" by (auto simp: min_def unat_eq_0)
  ultimately show "\<exists>b. file_answer rd wr k n (MTread k off cnt) e = (MRread b, e) \<and> length b \<le> unat cnt
      \<and> b = take (length b) (drop (unat off) (content e)) \<and> (b = [] \<longrightarrow> cnt = 0 \<or> length (content e) \<le> unat off)" by blast
qed

end

text \<open>The methods of an \<open>RFile\<close> keep the contract.\<close>

definition ram_rd :: "nat \<Rightarrow> FFid \<Rightarrow> nat \<Rightarrow> u64 \<Rightarrow> ramfs Fs \<Rightarrow> (bytes \<times> ramfs Fs) option" where
  "ram_rd f ff n off fs = (case RFile_Read f ff n off fs of Some (Inr (_, b), fs') \<Rightarrow> Some (b, fs') | _ \<Rightarrow> None)"

definition ram_wr :: "nat \<Rightarrow> FFid \<Rightarrow> bytes \<Rightarrow> u64 \<Rightarrow> ramfs Fs \<Rightarrow> (nat \<times> ramfs Fs) option" where
  "ram_wr f ff d off fs = (case RFile_Write f ff d off fs of Some (Inr n, fs') \<Rightarrow> Some (n, fs') | _ \<Rightarrow> None)"

interpretation ram: byte_file "\<lambda>fs. ram_ok fs f" "\<lambda>fs. contents fs f" "ram_rd f ff" "ram_wr f ff"
proof
  fix fs :: "ramfs Fs" and n and off :: u64 and d :: bytes
  show "ram_rd f ff n off fs = Some (take n (drop (unat off) (contents fs f)), fs)" if "ram_ok fs f" "n < 2 ^ 32" "unat off + n < 2 ^ 64"
    using RFile_Read_ok [OF that] by (simp add: ram_rd_def)
  show "\<exists>fs'. ram_wr f ff d off fs = Some (length d, fs') \<and> ram_ok fs' f \<and> contents fs' f = overwrite (contents fs f) (unat off) d"
    if ok: "ram_ok fs f" "unat off + length d < 2 ^ 64"
  proof -
    obtain fs' where "RFile_Write f ff d off fs = Some (Inr (length d), fs')" "ram_ok fs' f" "contents fs' f = overwrite (contents fs f) (unat off) d"
      by (rule RFile_Write_ok [OF ok]) blast
    then show ?thesis by (simp add: ram_wr_def)
  qed
qed

subsection \<open>The server keeps its files well formed\<close>

lemma ram_ok_cong:
  "fs_user fs' = fs_user fs \<Longrightarrow> dir_Length (f_Dir (fs_files fs' f)) = dir_Length (f_Dir (fs_files fs f)) \<Longrightarrow> ram_ok fs' f = ram_ok fs f"
  by (simp add: ram_ok_def)

text \<open>The histories of the server: its methods, with any arguments, and the removal of files from the tree.\<close>

inductive ram_reach :: "(string \<Rightarrow> User option) \<Rightarrow> (string \<Rightarrow> Group option) \<Rightarrow> ramfs Fs \<Rightarrow> bool" for uname gname where
  ram_init: "0 < B \<Longrightarrow> ram_start user grp B now = Some fs \<Longrightarrow> ram_reach uname gname fs"
| ram_write: "ram_reach uname gname fs \<Longrightarrow> f < fs_new fs \<Longrightarrow> unat offset + length buf < 2 ^ 64 \<Longrightarrow>
    RFile_Write f ff buf offset fs = Some (r, fs') \<Longrightarrow> ram_reach uname gname fs'"
| ram_create: "ram_reach uname gname fs \<Longrightarrow> f < fs_new fs \<Longrightarrow> RFile_Create now f ff nm perm mode fs = Some (r', fs') \<Longrightarrow>
    ram_reach uname gname fs'"
| ram_remove: "ram_reach uname gname fs \<Longrightarrow> f < fs_new fs \<Longrightarrow> RFile_Remove f ff fs = Some (err, fs') \<Longrightarrow> ram_reach uname gname fs'"
| ram_unlink: "ram_reach uname gname fs \<Longrightarrow> f < fs_new fs \<Longrightarrow> Remove f fs = Some fs' \<Longrightarrow> ram_reach uname gname fs'"
| ram_wstat: "ram_reach uname gname fs \<Longrightarrow> f < fs_new fs \<Longrightarrow> RFile_Wstat uname gname f ff dir fs = Some (err, fs') \<Longrightarrow>
    ram_reach uname gname fs'"

definition all_ok :: "ramfs Fs \<Rightarrow> bool" where
  "all_ok fs \<longleftrightarrow> 0 < fs_new fs \<and> (\<forall>f < fs_new fs. ram_ok fs f)"

lemma new_simps [simp]:
  "fs_new (set_data f d fs) = fs_new fs" "fs_new (set_chan c fs) = fs_new fs" "fs_new (set_length f l fs) = fs_new fs"
  "fs_new (expand f sz fs) = fs_new fs"
  by (simp_all add: set_data_def set_chan_def set_length_def expand_def Let_def)

lemma all_ok_same:
  assumes "all_ok fs" "fs_user fs' = fs_user fs" "fs_new fs' = fs_new fs"
    "\<And>f. dir_Length (f_Dir (fs_files fs' f)) = dir_Length (f_Dir (fs_files fs f))"
  shows "all_ok fs'"
  using assms ram_ok_cong unfolding all_ok_def by metis

lemma all_ok_only:
  assumes "all_ok fs" "ram_ok fs' f" "only f fs fs'" "fs_new fs' = fs_new fs"
  shows "all_ok fs'"
  using assms unfolding all_ok_def only_def by metis

lemma trunc_new: "trunc f sz fs = Some fs' \<Longrightarrow> fs_new fs' = fs_new fs"
  by (auto simp: trunc_def shrink_def Let_def split: if_splits Option.bind_splits)

lemma trunc_all_ok: "all_ok fs \<Longrightarrow> f < fs_new fs \<Longrightarrow> trunc f sz fs = Some fs' \<Longrightarrow> all_ok fs'"
  using trunc_ok [of fs f sz "all_ok fs'"] all_ok_only [of fs fs' f] trunc_new [of f sz fs fs'] by (auto simp: all_ok_def [of fs])

lemma unlink_user [simp]: "fs_user (unlink_file f p fs) = fs_user fs" "fs_user (link_last f d fs) = fs_user fs"
  by (simp_all add: unlink_file_def link_last_def Let_def split: option.split)

lemma Remove_all_ok: "all_ok fs \<Longrightarrow> Remove f fs = Some fs' \<Longrightarrow> all_ok fs'"
  by (erule all_ok_same) (auto simp: Remove_def Let_def split: if_splits Option.bind_splits)

lemma Rename_all_ok: "all_ok fs \<Longrightarrow> Rename f nm fs = Some (err, fs') \<Longrightarrow> all_ok fs' \<and> fs_new fs' = fs_new fs"
  by (rule conjI, erule all_ok_same) (auto simp: Rename_def split: option.splits Option.bind_splits)

lemma upd_Dir_all_ok: "all_ok fs \<Longrightarrow> (\<And>d. dir_Length (g d) = dir_Length d) \<Longrightarrow> all_ok (upd_Dir f g fs)"
  by (erule all_ok_same) (simp_all add: upd_Dir_def)

lemma upd_Dir_new [simp]: "fs_new (upd_Dir f g fs) = fs_new fs"
  by (simp add: upd_Dir_def)

lemma wstat_ids_all_ok: "all_ok fs \<Longrightarrow> wstat_ids uname gname f dir fs = (err, fs') \<Longrightarrow> all_ok fs' \<and> fs_new fs' = fs_new fs"
  by (auto simp: wstat_ids_def intro!: upd_Dir_all_ok split: sum.splits option.splits if_splits)

lemma Wstat_all_ok:
  assumes ok: "all_ok fs" "f < fs_new fs" and w: "RFile_Wstat uname gname f ff dir fs = Some (err, fs')"
  shows "all_ok fs'"
proof -
  obtain e1 fs1 where 1: "wstat_ids uname gname f dir fs = (e1, fs1)" by (cases "wstat_ids uname gname f dir fs")
  note ok1 = wstat_ids_all_ok [OF ok(1) 1]
  show ?thesis
  proof (cases e1)
    case (Some e)
    then show ?thesis using w 1 ok1 by (simp add: RFile_Wstat_def)
  next
    case None
    define fs2 where "fs2 = (if dir_Mode dir \<noteq> 0xFFFFFFFF
      then upd_Dir f (\<lambda>d. d\<lparr>dir_Mode := (dir_Mode d AND NOT 0x1FF) OR (dir_Mode dir AND 0x1FF)\<rparr>) fs1 else fs1)"
    have ok2: "all_ok fs2" "fs_new fs2 = fs_new fs" using ok1 by (auto simp: fs2_def intro: upd_Dir_all_ok)
    obtain e3 fs3 where 3: "(if dir_Name dir = [] then Some (None, fs2)
         else if f_Parent (fs_files fs2 f) = Some f then None else Rename f (dir_Name dir) fs2) = Some (e3, fs3)"
      and rest: "(case e3 of Some e \<Rightarrow> Some (Some (PErr e), fs3)
        | None \<Rightarrow> if dir_Length dir = 0xFFFFFFFFFFFFFFFF then Some (None, fs3)
                  else map_option (Pair None) (trunc f (dir_Length dir) fs3)) = Some (err, fs')"
      using w unfolding RFile_Wstat_def 1 None by (simp add: fs2_def [symmetric] split: Option.bind_splits)
        (metis (no_types, lifting) surj_pair case_prod_conv)
    have ok3: "all_ok fs3" "fs_new fs3 = fs_new fs" using 3 ok2 Rename_all_ok [OF ok2(1)] by (auto split: if_splits)
    show ?thesis using rest ok3 trunc_all_ok [OF ok3(1)] ok(2) by (auto split: option.splits if_splits)
  qed
qed

lemma Create_all_ok:
  assumes ok: "all_ok fs" and w: "RFile_Create now f ff nm perm mode fs = Some (r, fs')"
  shows "all_ok fs'"
proof -
  define fs1 where "fs1 = set_data (fs_new fs) [] (fs\<lparr>fs_new := Suc (fs_new fs), fs_files := (fs_files fs)(fs_new fs := zero_File)\<rparr>)"
  obtain err where A: "Add (fs_new fs) (Some f) nm (ram_user (fs_user fs)) (ram_group (fs_user fs)) perm (fs_new fs) now fs1 = Some (err, fs')"
    using w by (auto simp: RFile_Create_def Let_def fs1_def [symmetric] split: Option.bind_splits)
  have "ram_ok fs 0" using ok by (simp add: all_ok_def)
  note D = ram_okD(1-3) [OF this]
  have z: "zero_Dir\<lparr>dir_Length := 0\<rparr> = zero_Dir" by (simp add: zero_Dir_def)
  have "rf_ok (ram_blksz (fs_user fs)) (ram_zero (fs_user fs)) (ram_blkchan (fs_user fs)) [] 0"
    using D by (auto simp: rf_ok_def blocks_ok_def flat_def at_def)
  then have new: "ram_ok fs1 (fs_new fs)" by (simp add: ram_ok_def fs1_def zero_File_def zero_Dir_def)
  have old: "ram_ok fs1 g" if "g < fs_new fs" for g
    using ok that by (simp add: all_ok_def ram_ok_def fs1_def Let_def)
  have "all_ok fs1" using new old by (auto simp: all_ok_def fs1_def less_Suc_eq)
  moreover have "fs_user fs' = fs_user fs1" "fs_new fs' = fs_new fs1" "dir_Length (f_Dir (fs_files fs' g)) = dir_Length (f_Dir (fs_files fs1 g))" for g
    using A by (auto simp: Add_def Let_def init_Dir_def fs1_def zero_File_def zero_Dir_def split: Option.bind_splits option.splits)
  ultimately show ?thesis by (rule all_ok_same)
qed

lemma Write_all_ok:
  assumes "all_ok fs" "f < fs_new fs" "unat offset + length buf < 2 ^ 64" "RFile_Write f ff buf offset fs = Some (r, fs')"
  shows "all_ok fs'"
proof -
  have "ram_ok fs f" using assms(1,2) by (simp add: all_ok_def)
  then obtain fs'' where "RFile_Write f ff buf offset fs = Some (Inr (length buf), fs'')" "ram_ok fs'' f" "only f fs fs''"
    by (rule RFile_Write_ok [OF _ assms(3)])
  moreover have "fs_new fs' = fs_new fs"
    using assms(4) by (auto simp: RFile_Write_def Let_def split: Option.bind_splits if_splits)
  ultimately show ?thesis using all_ok_only [OF assms(1)] assms(4) by auto
qed

lemma start_all_ok:
  assumes "0 < B" "ram_start user grp B now = Some fs"
  shows "all_ok fs"
proof -
  have "fs_user fs = \<lparr>ram_user = user, ram_group = grp, ram_blksz = B, ram_blkchan = [], ram_zero = replicate B 0, ram_data = (\<lambda>_. [])\<rparr>"
    "fs_new fs = 1" "dir_Length (f_Dir (fs_files fs 0)) = 0"
    using assms(2) by (auto simp: ram_start_def Add_def Let_def NewFileSrv_def init_Dir_def)
  then show ?thesis using assms(1) by (simp add: all_ok_def ram_ok_def rf_ok_def blocks_ok_def flat_def at_def)
qed

text \<open>C36: In every history of the server, as long as no write ends behind the last possible offset, all its
  files are well formed: each has the blocks its length needs, of the right size, with zeros behind its end,
  and so are the spare blocks.\<close>

theorem ram_files_ok:
  assumes "ram_reach uname gname fs"
  shows "0 < fs_new fs \<and> (\<forall>f < fs_new fs. ram_ok fs f)"
  using assms
proof (fold all_ok_def, induction)
  case (ram_remove fs f ff err fs')
  then show ?case using trunc_all_ok by (auto simp: RFile_Remove_def)
qed (blast intro: start_all_ok Write_all_ok Create_all_ok Remove_all_ok Wstat_all_ok)+

definition small_ram :: "ramfs Fs" where
  "small_ram = the (ram_start None None 4 0)"

lemma small_ram_reach: "ram_reach uname gname small_ram" "fs_new small_ram = 1"
  by (rule ram_init [of 4 None None 0]) (simp_all add: small_ram_def ram_start_def Add_def Let_def NewFileSrv_def)

theorem ram_files_ok_witness: "0 < fs_new small_ram \<and> ram_ok small_ram 0"
  using ram_files_ok [OF small_ram_reach(1)] small_ram_reach(2) by simp

text \<open>C37: Reading, writing and truncating a file of the server refine the operations on byte strings, whatever
  the size of the blocks: a read returns the bytes at its offset up to the end of the file, a write
  overwrites all of them, with zeros in a gap, and truncation cuts or fills with zeros.  No other file changes.\<close>

theorem RFile_refines_bytes:
  assumes "ram_ok fs f" "length buf < 2 ^ 32" "unat offset + length buf < 2 ^ 64"
  shows "RFile_Read f ff (length buf) offset fs
      = Some (Inr (min (length buf) (length (contents fs f) - unat offset), take (length buf) (drop (unat offset) (contents fs f))), fs)
    \<and> (\<exists>fs'. RFile_Write f ff buf offset fs = Some (Inr (length buf), fs') \<and> ram_ok fs' f \<and> only f fs fs'
      \<and> contents fs' f = overwrite (contents fs f) (unat offset) buf)
    \<and> (\<exists>fs'. trunc f offset fs = Some fs' \<and> ram_ok fs' f \<and> only f fs fs'
      \<and> contents fs' f = take (unat offset) (contents fs f) @ replicate (unat offset - length (contents fs f)) 0)"
proof (intro conjI)
  note l = ram_okD(8) [OF assms(1)]
  show "RFile_Read f ff (length buf) offset fs
      = Some (Inr (min (length buf) (length (contents fs f) - unat offset), take (length buf) (drop (unat offset) (contents fs f))), fs)"
    using RFile_Read_ok [OF assms] by (simp add: l)
  show "\<exists>fs'. RFile_Write f ff buf offset fs = Some (Inr (length buf), fs') \<and> ram_ok fs' f \<and> only f fs fs'
      \<and> contents fs' f = overwrite (contents fs f) (unat offset) buf"
    using RFile_Write_ok [OF assms(1,3)] by metis
  show "\<exists>fs'. trunc f offset fs = Some fs' \<and> ram_ok fs' f \<and> only f fs fs'
      \<and> contents fs' f = take (unat offset) (contents fs f) @ replicate (unat offset - length (contents fs f)) 0"
    using trunc_ok [OF assms(1)] by (simp add: l) metis
qed

lemma small_ram_ok: "ram_ok small_ram 0" "contents small_ram 0 = []"
proof -
  have "all_ok small_ram"
    by (rule start_all_ok [of 4 None None 0]) (simp_all add: small_ram_def ram_start_def Add_def Let_def)
  then show "ram_ok small_ram 0" by (simp add: all_ok_def)
  show "contents small_ram 0 = []"
    by (simp add: contents_def small_ram_def ram_start_def Add_def Let_def NewFileSrv_def init_Dir_def)
qed

definition root_ffid :: FFid where
  "root_ffid = \<lparr>ff_F = Some 0, ff_Fid = 0, ff_dirs = []\<rparr>"

theorem RFile_refines_bytes_witness:
  "(\<exists>fs'. RFile_Write 0 root_ffid [1, 2, 3, 4, 5, 6] 3 small_ram = Some (Inr 6, fs') \<and> ram_ok fs' 0 \<and> only 0 small_ram fs'
     \<and> contents fs' 0 = [0, 0, 0, 1, 2, 3, 4, 5, 6])
   \<and> (\<exists>fs'. trunc 0 3 small_ram = Some fs' \<and> ram_ok fs' 0 \<and> only 0 small_ram fs' \<and> contents fs' 0 = [0, 0, 0])"
proof -
  have e: "length [1, 2, 3, 4, 5, 6 :: u8] = 6" "unat (3 :: u64) = 3" "overwrite [] 3 [1, 2, 3, 4, 5, 6] = [0, 0, 0, 1, 2, 3, 4, 5, 6]"
    "take 3 [] @ replicate (3 - length ([] :: bytes)) 0 = [0, 0, 0 :: u8]" by code_simp+
  have "length [1, 2, 3, 4, 5, 6 :: u8] < 2 ^ 32" "unat (3 :: u64) + length [1, 2, 3, 4, 5, 6 :: u8] < 2 ^ 64" by simp_all
  from RFile_refines_bytes [OF small_ram_ok(1) this, of root_ffid, unfolded small_ram_ok(2) e]
  show ?thesis by blast
qed

subsection \<open>A client of the memory file server\<close>



subsection \<open>What goes wrong\<close>

text \<open>A write that ends behind the last offset does not grow the file, as the sum wraps, and panics at its block.\<close>

lemma RFile_Write_wraps:
  assumes "data \<noteq> []" "length data < 2 ^ 32" "unat offset + length data \<ge> 2 ^ 64" "ram_data (fs_user fs) f = []" "ram_blksz (fs_user fs) \<noteq> 0"
    "dir_Length (f_Dir (fs_files fs f)) \<ge> offset + of_nat (length data)"
  shows "RFile_Write f ff data offset fs = None"
  using assms by (simp add: RFile_Write_def Let_def write_blocks.simps linorder_not_less [symmetric])

text \<open>A \<open>Wstat\<close> with a new name for the root waits for a lock that it holds.\<close>

lemma rename_root_deadlocks:
  assumes "f_Parent (fs_files fs f) = Some f" "dir_Name dir \<noteq> []" "dir_Uidnum dir \<noteq> NOUID" "dir_Gidnum dir \<noteq> NOUID"
  shows "RFile_Wstat uname gname f ff dir fs = None"
  using assms by (simp add: RFile_Wstat_def wstat_ids_def upd_Dir_def Let_def)

end
