(* ===== verification/Ex_Ufs.thy ===== *)
theory Ex_Ufs
  imports Srv_File
begin

section \<open>A file server for the files of the host (p/srv/examples/ufs/ufs.go)\<close>

text \<open>
  \<open>Ufs\<close> implements the operations of a file server directly, by calls of the packages \<open>os\<close> and \<open>syscall\<close>.
  These are parameters, the fields of a record \<open>OS\<close> of functions on the state \<open>'s\<close> of the host, which is
  the state of the connection's server here; an open file of the host is a number.  A call through a nil
  \<open>*os.File\<close> is one with \<open>None\<close>.  Modes, flags and error numbers are those of Linux.
\<close>

subsection \<open>What is used of the packages os and syscall\<close>

text \<open>Most functions of \<open>os\<close> wrap the number of the error, so that a type assertion does not find it.\<close>

datatype os_error = Errno u32 string | Wrapped string | EOF

record Stat_t =
  st_Ino :: u64
  st_Mode :: u32
  st_Uid :: u32
  st_Gid :: u32
  st_Rdev :: u64
  st_Atim :: int

record FileInfo =
  fi_Name :: string
  fi_Size :: u64
  fi_Mode :: u32
  fi_ModTime :: int
  fi_Sys :: Stat_t

record 's OS =
  os_Lstat :: "string \<Rightarrow> 's \<Rightarrow> os_error + FileInfo"
  os_Readlink :: "string \<Rightarrow> 's \<Rightarrow> os_error + string"
  os_OpenFile :: "string \<Rightarrow> int \<Rightarrow> u32 \<Rightarrow> 's \<Rightarrow> (os_error + nat) \<times> 's"
  os_Close :: "nat option \<Rightarrow> 's \<Rightarrow> 's"
  os_Readdir :: "nat option \<Rightarrow> nat \<Rightarrow> 's \<Rightarrow> (FileInfo list \<times> os_error option) \<times> 's"
  os_ReadAt :: "nat option \<Rightarrow> nat \<Rightarrow> u64 \<Rightarrow> 's \<Rightarrow> (nat \<times> bytes \<times> os_error option) \<times> 's"
  os_WriteAt :: "nat option \<Rightarrow> bytes \<Rightarrow> u64 \<Rightarrow> 's \<Rightarrow> (nat \<times> os_error option) \<times> 's"
  os_Mkdir :: "string \<Rightarrow> u32 \<Rightarrow> 's \<Rightarrow> os_error option \<times> 's"
  os_Symlink :: "string \<Rightarrow> string \<Rightarrow> 's \<Rightarrow> os_error option \<times> 's"
  os_Link :: "string \<Rightarrow> string \<Rightarrow> 's \<Rightarrow> os_error option \<times> 's"
  os_Remove :: "string \<Rightarrow> 's \<Rightarrow> os_error option \<times> 's"
  os_Chmod :: "string \<Rightarrow> u32 \<Rightarrow> 's \<Rightarrow> os_error option \<times> 's"
  os_Chown :: "string \<Rightarrow> u32 \<Rightarrow> u32 \<Rightarrow> 's \<Rightarrow> os_error option \<times> 's"
  os_Rename :: "string \<Rightarrow> string \<Rightarrow> 's \<Rightarrow> os_error option \<times> 's"
  os_Truncate :: "string \<Rightarrow> u64 \<Rightarrow> 's \<Rightarrow> os_error option \<times> 's"

definition O_RDONLY :: int where "O_RDONLY = 0"
definition O_WRONLY :: int where "O_WRONLY = 1"
definition O_RDWR :: int where "O_RDWR = 2"
definition O_CREATE :: int where "O_CREATE = 0x40"
definition O_TRUNC :: int where "O_TRUNC = 0x200"

definition ModeDir :: u32 where "ModeDir = 0x80000000"
definition ModeSymlink :: u32 where "ModeSymlink = 0x08000000"
definition ModeDevice :: u32 where "ModeDevice = 0x04000000"
definition ModeNamedPipe :: u32 where "ModeNamedPipe = 0x02000000"
definition ModeSocket :: u32 where "ModeSocket = 0x01000000"
definition ModeSetuid :: u32 where "ModeSetuid = 0x00800000"
definition ModeSetgid :: u32 where "ModeSetgid = 0x00400000"

definition S_ISUID :: u32 where "S_ISUID = 0x800"
definition S_ISGID :: u32 where "S_ISGID = 0x400"
definition S_IFMT :: u32 where "S_IFMT = 0xF000"
definition S_IFBLK :: u32 where "S_IFBLK = 0x6000"
definition S_IFCHR :: u32 where "S_IFCHR = 0x2000"

definition IsDir :: "FileInfo \<Rightarrow> bool" where
  "IsDir d \<longleftrightarrow> fi_Mode d AND ModeDir \<noteq> 0"

text \<open>\<open>strconv.ParseUint(s, 10, 0)\<close>, and a path up to its last slash and behind it.\<close>

definition ParseUint :: "string \<Rightarrow> nat option" where
  "ParseUint s = (if s \<noteq> [] \<and> (\<forall>c\<in>set s. c \<in> set ''0123456789'') \<and> num_val 10 s < 2 ^ 64 then Some (num_val 10 s) else None)"

definition dir_part :: "string \<Rightarrow> string" where
  "dir_part s = rev (dropWhile (\<lambda>c. c \<noteq> CHR ''/'') (rev s))"

definition base_part :: "string \<Rightarrow> string" where
  "base_part s = rev (takeWhile (\<lambda>c. c \<noteq> CHR ''/'') (rev s))"

subsection \<open>Conversions\<close>

record ufid =
  uf_path :: string
  uf_file :: "nat option"
  uf_dirs :: "FileInfo list option"
  uf_diroffset :: u64
  uf_st :: "FileInfo option"

definition zero_ufid :: ufid where
  "zero_ufid = \<lparr>uf_path = [], uf_file = None, uf_dirs = None, uf_diroffset = 0, uf_st = None\<rparr>"

definition Enoent_ufs :: perror where "Enoent_ufs = Error ''file not found'' ENOENT"

definition toError :: "os_error \<Rightarrow> perror" where
  "toError err = (case err of Errno n s \<Rightarrow> Error s n | Wrapped s \<Rightarrow> Error s EIO | EOF \<Rightarrow> Error ''EOF'' EIO)"

definition isBlock :: "FileInfo \<Rightarrow> bool" where
  "isBlock d \<longleftrightarrow> st_Mode (fi_Sys d) AND S_IFMT = S_IFBLK"

definition isChar :: "FileInfo \<Rightarrow> bool" where
  "isChar d \<longleftrightarrow> st_Mode (fi_Sys d) AND S_IFMT = S_IFCHR"

definition ufid_stat :: "'s OS \<Rightarrow> ufid \<Rightarrow> 's \<Rightarrow> perror option \<times> ufid" where
  "ufid_stat os fid s = (case os_Lstat os (uf_path fid) s of
     Inl err \<Rightarrow> (Some (toError err), fid\<lparr>uf_st := None\<rparr>)
   | Inr st \<Rightarrow> (None, fid\<lparr>uf_st := Some st\<rparr>))"

definition omode2uflags :: "u8 \<Rightarrow> int" where
  "omode2uflags mode = (let m = mode AND 3;
     ret = (if m = OREAD then O_RDONLY else if m = ORDWR then O_RDWR else if m = OWRITE then O_WRONLY
            else if m = OEXEC then O_RDONLY else 0)
   in if mode AND OTRUNC \<noteq> 0 then ret OR O_TRUNC else ret)"

definition dir2QidType :: "FileInfo \<Rightarrow> u8" where
  "dir2QidType d = (let ret = (if IsDir d then QTDIR else 0)
     in if fi_Mode d AND ModeSymlink \<noteq> 0 then ret OR QTSYMLINK else ret)"

text \<open>The time of the last change in nanoseconds; the division of Go rounds to zero.\<close>

definition dir2Qid :: "FileInfo \<Rightarrow> Qid" where
  "dir2Qid d = \<lparr>qid_Type = dir2QidType d,
     qid_Version = of_int (sgn (fi_ModTime d) * (\<bar>fi_ModTime d\<bar> div 1000000)), qid_Path = st_Ino (fi_Sys d)\<rparr>"

definition mode_bit :: "u32 \<Rightarrow> u32 \<Rightarrow> u32 \<Rightarrow> u32" where
  "mode_bit mode m dm = (if mode AND m \<noteq> 0 then dm else 0)"

definition dir2Npmode :: "FileInfo \<Rightarrow> bool \<Rightarrow> u32" where
  "dir2Npmode d dotu = (let ret = fi_Mode d AND 0x1FF; ret = (if IsDir d then ret OR DMDIR else ret) in
     if dotu then ret OR mode_bit (fi_Mode d) ModeSymlink DMSYMLINK OR mode_bit (fi_Mode d) ModeSocket DMSOCKET
       OR mode_bit (fi_Mode d) ModeNamedPipe DMNAMEDPIPE OR mode_bit (fi_Mode d) ModeDevice DMDEVICE
       OR mode_bit (fi_Mode d) ModeSetuid DMSETUID OR mode_bit (fi_Mode d) ModeSetgid DMSETGID
     else ret)"

definition device_Ext :: "char \<Rightarrow> FileInfo \<Rightarrow> string" where
  "device_Ext c d = (let rdev = st_Rdev (fi_Sys d) in
     [c] @ '' '' @ fmt_d (unat (drop_bit 24 rdev)) @ '' '' @ fmt_d (unat (rdev AND 0xFFFFFF)))"

definition or_none :: "string \<Rightarrow> string" where
  "or_none s = (if s = [] then ''none'' else s)"

text \<open>\<open>None\<close> when the user table has no entry, on which the code calls a method of nil.\<close>

definition dir2Dir :: "'s OS \<Rightarrow> 's \<Rightarrow> string \<Rightarrow> FileInfo \<Rightarrow> bool \<Rightarrow> Users \<Rightarrow> Dir option" where
  "dir2Dir os s pth d dotu upool = do {
     u \<leftarrow> up_Uid2User upool (int (unat (st_Uid (fi_Sys d))));
     g \<leftarrow> up_Gid2Group upool (int (unat (st_Gid (fi_Sys d))));
     let dir = zero_Dir\<lparr>dir_Qid := dir2Qid d, dir_Mode := dir2Npmode d dotu,
       dir_Atime := of_int (st_Atim (fi_Sys d)), dir_Mtime := of_int (fi_ModTime d div 1000000000),
       dir_Length := fi_Size d, dir_Uid := or_none (usr_Name u), dir_Gid := or_none (grp_Name g),
       dir_Muid := ''none'', dir_Ext := [], dir_Name := base_part pth\<rparr>;
     Some (if dotu then dir\<lparr>dir_Uidnum := of_int (usr_Id u), dir_Gidnum := of_int (grp_Id g), dir_Muidnum := NOUID,
         dir_Ext := (if fi_Mode d AND ModeSymlink \<noteq> 0 then (case os_Readlink os pth s of Inl _ \<Rightarrow> [] | Inr l \<Rightarrow> l)
           else if isBlock d then device_Ext CHR ''b'' d
           else if isChar d then device_Ext CHR ''c'' d
           else [])\<rparr>
       else dir) }"

subsection \<open>The operations\<close>

type_synonym 's uconn = "(ufid, 's) Conn"

definition put_Aux :: "nat \<Rightarrow> ufid \<Rightarrow> 's uconn \<Rightarrow> 's uconn" where
  "put_Aux a fid = set_fid a (\<lambda>x. x\<lparr>fid_Aux := Some fid\<rparr>)"

abbreviation put_fs :: "'s \<Rightarrow> ('a, 's) Conn \<Rightarrow> ('a, 's) Conn" where
  "put_fs s c \<equiv> c\<lparr>c_fs := s\<rparr>"

definition Ufs_FidDestroy :: "'s OS \<Rightarrow> nat \<Rightarrow> 's uconn \<Rightarrow> 's uconn option" where
  "Ufs_FidDestroy os a c = (case fid_Aux (c_fids c a) of
     None \<Rightarrow> Some c
   | Some fid \<Rightarrow> Some (if uf_file fid \<noteq> None then put_fs (os_Close os (uf_file fid) (c_fs c)) c else c))"

definition ufs_hooks :: "'s OS \<Rightarrow> (ufid, 's) RespOps" where
  "ufs_hooks os = \<lparr>op_FidDestroy = Some (Ufs_FidDestroy os), op_ReqRespond = None\<rparr>"

abbreviation ufs_error :: "'s OS \<Rightarrow> nat \<Rightarrow> perror \<Rightarrow> 's uconn \<Rightarrow> 's uconn option" where
  "ufs_error os r e \<equiv> RespondError (ufs_hooks os) r (PErr e)"

text \<open>The beginning of all operations but \<open>Attach\<close>: \<open>fid.stat()\<close>, whose error is responded.\<close>

definition with_stat :: "'s OS \<Rightarrow> nat \<Rightarrow> (nat \<Rightarrow> ufid \<Rightarrow> 's uconn \<Rightarrow> 's uconn option) \<Rightarrow> 's uconn \<Rightarrow> 's uconn option" where
  "with_stat os r k c = do {
     a \<leftarrow> req_Fid (c_heap c r);
     fid \<leftarrow> fid_Aux (c_fids c a);
     (case ufid_stat os fid (c_fs c) of
        (Some err, fid) \<Rightarrow> ufs_error os r err (put_Aux a fid c)
      | (None, fid) \<Rightarrow> k a fid (put_Aux a fid c)) }"

text \<open>\<open>root\<close> is the command line option.\<close>

definition Ufs_Attach :: "'s OS \<Rightarrow> string \<Rightarrow> nat \<Rightarrow> 's uconn \<Rightarrow> 's uconn option" where
  "Ufs_Attach os root r c = (if req_Afid (c_heap c r) \<noteq> None then ufs_error os r Enoauth c
     else let tc = req_Tc (c_heap c r);
       fid = zero_ufid\<lparr>uf_path := (if fc_Aname tc = [] then root else fc_Aname tc)\<rparr> in do {
     a \<leftarrow> req_Fid (c_heap c r);
     (case ufid_stat os fid (c_fs c) of
        (Some err, fid) \<Rightarrow> ufs_error os r err (put_Aux a fid c)
      | (None, fid) \<Rightarrow> do {
          st \<leftarrow> uf_st fid;
          RespondRattach (ufs_hooks os) r (dir2Qid st) (put_Aux a fid c) }) })"

definition Ufs_Flush :: "nat \<Rightarrow> 's uconn \<Rightarrow> 's uconn option" where
  "Ufs_Flush r c = Some c"

text \<open>The loop over the names: the path reached and the qids up to there.\<close>

fun walk_host :: "(string \<Rightarrow> os_error + FileInfo) \<Rightarrow> string \<Rightarrow> string list \<Rightarrow> string \<times> Qid list" where
  "walk_host lstat pth [] = (pth, [])"
| "walk_host lstat pth (n # ns) = (case lstat (pth @ ''/'' @ n) of
     Inl _ \<Rightarrow> (pth, [])
   | Inr st \<Rightarrow> (let (q, qs) = walk_host lstat (pth @ ''/'' @ n) ns in (q, dir2Qid st # qs)))"

definition Ufs_Walk :: "'s OS \<Rightarrow> nat \<Rightarrow> 's uconn \<Rightarrow> 's uconn option" where
  "Ufs_Walk os r = with_stat os r (\<lambda>a fid c. let tc = req_Tc (c_heap c r) in do {
     nf \<leftarrow> req_Newfid (c_heap c r);
     let c = (if fid_Aux (c_fids c nf) = None then put_Aux nf zero_ufid c else c);
     nfid \<leftarrow> fid_Aux (c_fids c nf);
     let (pth, wqids) = walk_host (\<lambda>p. os_Lstat os p (c_fs c)) (uf_path fid) (fc_Wname tc);
     if fc_Wname tc \<noteq> [] \<and> wqids = [] then ufs_error os r Enoent_ufs c
     else RespondRwalk (ufs_hooks os) r wqids (put_Aux nf (nfid\<lparr>uf_path := pth\<rparr>) c) })"

definition the_qid :: "ufid \<Rightarrow> Qid option" where
  "the_qid fid = map_option dir2Qid (uf_st fid)"

text \<open>An assignment of the result of \<open>os.OpenFile\<close> to a file and an error.\<close>

definition open_file :: "'s OS \<Rightarrow> string \<Rightarrow> int \<Rightarrow> u32 \<Rightarrow> 's \<Rightarrow> (os_error option \<times> nat option) \<times> 's" where
  "open_file os pth flags perm s = (case os_OpenFile os pth flags perm s of
     (Inl e, s) \<Rightarrow> ((Some e, None), s)
   | (Inr h, s) \<Rightarrow> ((None, Some h), s))"

definition Ufs_Open :: "'s OS \<Rightarrow> nat \<Rightarrow> 's uconn \<Rightarrow> 's uconn option" where
  "Ufs_Open os r = with_stat os r (\<lambda>a fid c. let tc = req_Tc (c_heap c r) in
     case open_file os (uf_path fid) (omode2uflags (fc_Mode tc)) 0 (c_fs c) of
       ((e, h), s) \<Rightarrow> (let c = put_Aux a (fid\<lparr>uf_file := h\<rparr>) (put_fs s c) in
         (case e of
            Some e \<Rightarrow> ufs_error os r (toError e) c
          | None \<Rightarrow> do { qid \<leftarrow> the_qid fid; RespondRopen (ufs_hooks os) r qid 0 c })))"

text \<open>
  The switch of \<open>Create\<close>: an error that was responded at once, or the values of \<open>e\<close> and \<open>file\<close> behind it.
  The error of a link is assigned to a variable of the case itself and lost; a case with an empty body
  does nothing.
\<close>

definition suid_mode :: "bool \<Rightarrow> u32 \<Rightarrow> u32" where
  "suid_mode dotu perm = (let mode = perm AND 0x1FF in
     if dotu then mode OR mode_bit perm DMSETUID S_ISUID OR mode_bit perm DMSETGID S_ISGID else mode)"

definition link_node :: "'s OS \<Rightarrow> u32 \<Rightarrow> string \<Rightarrow> 's uconn
    \<Rightarrow> ((perror + os_error option \<times> nat option) \<times> 's uconn) option" where
  "link_node os n pth c = (case FidGet n c of
     (None, c) \<Rightarrow> Some (Inl Eunknownfid, c)
   | (Some old, c) \<Rightarrow> do {
       ofid \<leftarrow> fid_Aux (c_fids c old);
       let (e, s) = os_Link os (uf_path ofid) pth (c_fs c);
       c \<leftarrow> DecRef (ufs_hooks os) old (put_fs s c);
       Some (Inr (None, None), c) })"

definition create_node :: "'s OS \<Rightarrow> nat \<Rightarrow> string \<Rightarrow> 's uconn
    \<Rightarrow> ((perror + os_error option \<times> nat option) \<times> 's uconn) option" where
  "create_node os r pth c = (let tc = req_Tc (c_heap c r); perm = fc_Perm tc in
     if perm AND DMDIR \<noteq> 0 then
       (case os_Mkdir os pth (perm AND 0x1FF) (c_fs c) of (e, s) \<Rightarrow> Some (Inr (e, None), put_fs s c))
     else if perm AND DMSYMLINK \<noteq> 0 then
       (case os_Symlink os (fc_Ext tc) pth (c_fs c) of (e, s) \<Rightarrow> Some (Inr (e, None), put_fs s c))
     else if perm AND DMLINK \<noteq> 0 then
       (case ParseUint (fc_Ext tc) of
          None \<Rightarrow> Some (Inr (None, None), c)
        | Some n \<Rightarrow> link_node os (of_nat n) pth c)
     else if perm AND DMNAMEDPIPE \<noteq> 0 then Some (Inr (None, None), c)
     else if perm AND DMDEVICE \<noteq> 0 then Some (Inl (Error ''not implemented'' EIO), c)
     else (case open_file os pth (omode2uflags (fc_Mode tc) OR O_CREATE) (suid_mode (c_Dotu c) perm) (c_fs c) of
       (x, s) \<Rightarrow> Some (Inr x, put_fs s c)))"

definition Ufs_Create :: "'s OS \<Rightarrow> nat \<Rightarrow> 's uconn \<Rightarrow> 's uconn option" where
  "Ufs_Create os r = with_stat os r (\<lambda>a fid c. let tc = req_Tc (c_heap c r); pth = uf_path fid @ ''/'' @ fc_Name tc in do {
     (res, c) \<leftarrow> create_node os r pth c;
     (case res of
        Inl err \<Rightarrow> ufs_error os r err c
      | Inr (e, h) \<Rightarrow> (let ((e, h), s) = (if h = None \<and> e = None
            then open_file os pth (omode2uflags (fc_Mode tc)) 0 (c_fs c) else ((e, h), c_fs c)); c = put_fs s c in
          (case e of
             Some e \<Rightarrow> ufs_error os r (toError e) c
           | None \<Rightarrow>
               (case ufid_stat os (fid\<lparr>uf_path := pth, uf_file := h\<rparr>) (c_fs c) of
                  (Some err, fid) \<Rightarrow> ufs_error os r err (put_Aux a fid c)
                | (None, fid) \<Rightarrow> do {
                    qid \<leftarrow> the_qid fid;
                    RespondRcreate (ufs_hooks os) r qid 0 (put_Aux a fid c) })))) })"

subsection \<open>Reading\<close>

text \<open>Packing entries into \<open>b\<close>: the bytes used, the contents of \<open>b\<close> and the entries that are left.\<close>

fun pack_infos :: "(FileInfo \<Rightarrow> Dir option) \<Rightarrow> bool \<Rightarrow> FileInfo list \<Rightarrow> bytes \<Rightarrow> (nat \<times> bytes \<times> FileInfo list) option" where
  "pack_infos conv dotu [] b = Some (0, b, [])"
| "pack_infos conv dotu (d # ds) b = do {
     st \<leftarrow> conv d;
     (sz, b) \<leftarrow> PackDir st b dotu;
     if sz = 0 then Some (0, b, d # ds)
     else do {
       (n, b', rest) \<leftarrow> pack_infos conv dotu ds (drop sz b);
       Some (sz + n, take sz b @ b', rest) } }"

lemma pack_infos_progress:
  "pack_infos conv dotu ds b = Some (n, b', []) \<Longrightarrow> ds \<noteq> [] \<Longrightarrow> 0 < n"
  by (cases ds) (auto split: Option.bind_splits if_splits)

text \<open>
  The entries at hand, or the next 16 of the open directory: the left side ends the reading, with an
  error or at the end of the directory.
\<close>

definition more_dirs :: "'s OS \<Rightarrow> nat option \<Rightarrow> FileInfo list option \<Rightarrow> 's \<Rightarrow> (os_error option \<times> FileInfo list + FileInfo list) \<times> 's" where
  "more_dirs os h dirs s = (case dirs of
     Some ds \<Rightarrow> (Inr ds, s)
   | None \<Rightarrow> (case os_Readdir os h 16 s of ((ds, e), s) \<Rightarrow>
       if e \<noteq> None \<and> e \<noteq> Some EOF then (Inl (e, ds), s)
       else if ds = [] then (Inl (None, []), s)
       else (Inr ds, s)))"

lemma more_dirs_None: "more_dirs os h None s = (Inr ds, s') \<Longrightarrow> ds \<noteq> []"
  by (auto simp: more_dirs_def split: prod.splits if_splits)

lemma more_dirs_Some [simp]: "more_dirs os h (Some ds) s = (Inr ds, s)"
  by (simp add: more_dirs_def)

lemma pack_infos_length: "pack_infos conv dotu ds b = Some (n, b', rest) \<Longrightarrow> length b' = length b"
proof (induction ds arbitrary: b n b' rest)
  case (Cons d ds)
  then obtain st sz b1 where 1: "conv d = Some st" "PackDir st b dotu = Some (sz, b1)"
    by (auto split: Option.bind_splits)
  obtain k out where "PackDir st b dotu = Some (k, out)" "length out = length b" "k = (if statsz st dotu \<le> length b then statsz st dotu else 0)"
    using PackDir_total [of st b dotu] by blast
  then have l: "length b1 = length b" "sz \<le> length b" using 1(2) by (auto split: if_splits)
  show ?case
    using Cons.prems 1 l by (auto split: Option.bind_splits if_splits dest!: Cons.IH)
qed simp

lemma read_dirs_shrinks:
  assumes "b \<noteq> []" and m: "more_dirs os h dirs s = (Inr ds, s1)" and q: "pack_infos conv dotu ds b = Some (n, b', [])"
  shows "2 * length (drop n b') < 2 * length b + (if dirs = None then 0 else 1)"
proof (cases dirs)
  case None
  then have "ds \<noteq> []" using m more_dirs_None by metis
  then have "0 < n" by (rule pack_infos_progress [OF q])
  then show ?thesis using assms(1) pack_infos_length [OF q] None by (cases b) auto
qed (use pack_infos_length [OF q] in simp)

text \<open>The loop: the error, \<open>fid.dirs\<close>, the count, the contents of the buffer and the state of the host.\<close>

function read_dirs :: "'s OS \<Rightarrow> (FileInfo \<Rightarrow> 's \<Rightarrow> Dir option) \<Rightarrow> bool \<Rightarrow> nat option \<Rightarrow> FileInfo list option \<Rightarrow> bytes \<Rightarrow> 's
    \<Rightarrow> (os_error option \<times> FileInfo list option \<times> nat \<times> bytes \<times> 's) option" where
  "read_dirs os conv dotu h dirs b s = (if b = [] then Some (None, dirs, 0, [], s)
     else (case more_dirs os h dirs s of
       (Inl (e, ds), s) \<Rightarrow> Some (e, Some ds, 0, b, s)
     | (Inr ds, s) \<Rightarrow> do {
         (n, b', rest) \<leftarrow> pack_infos (\<lambda>d. conv d s) dotu ds b;
         if rest \<noteq> [] then Some (None, Some rest, n, b', s)
         else do {
           (e, dirs, m, b'', s) \<leftarrow> read_dirs os conv dotu h None (drop n b') s;
           Some (e, dirs, n + m, take n b' @ b'', s) } }))"
  by pat_completeness auto

termination
proof (relation "measure (\<lambda>(os, conv, dotu, h, dirs, b, s). 2 * length b + (if dirs = None then 0 else 1))", goal_cases)
  case (2 os conv dotu h dirs b s x s1 ds y n y2 b' rest)
  then have "more_dirs os h dirs s = (Inr ds, s1)" "pack_infos (\<lambda>d. conv d s1) dotu ds b = Some (n, b', [])" by simp_all
  from read_dirs_shrinks [OF 2(1) this] show ?case by simp
qed simp

declare read_dirs.simps [simp del]

text \<open>
  An error of \<open>InitRread\<close> is ignored.  At offset 0 an open directory is closed and opened again, while
  \<open>fid.dirs\<close> stays as it is.
\<close>

definition reopen_dir :: "'s OS \<Rightarrow> u8 \<Rightarrow> u64 \<Rightarrow> ufid \<Rightarrow> 's \<Rightarrow> os_error option \<times> ufid \<times> 's" where
  "reopen_dir os omode offset fid s = (if offset = 0 then
       (case open_file os (uf_path fid) (omode2uflags omode) 0 (os_Close os (uf_file fid) s) of
          ((e, h), s) \<Rightarrow> (e, fid\<lparr>uf_file := h\<rparr>, s))
     else (None, fid, s))"

definition finish_read :: "'s OS \<Rightarrow> nat \<Rightarrow> nat \<Rightarrow> bytes \<Rightarrow> 's uconn \<Rightarrow> 's uconn option" where
  "finish_read os r count data c = do {
     rc \<leftarrow> SetRreadCount (copy_Data (req_Rc (c_heap c r)) data) (of_nat count);
     Respond (ufs_hooks os) r (set_Rc r rc c) }"

definition Ufs_read_dir :: "'s OS \<Rightarrow> nat \<Rightarrow> nat \<Rightarrow> ufid \<Rightarrow> 's uconn \<Rightarrow> 's uconn option" where
  "Ufs_read_dir os r a fid c = (let tc = req_Tc (c_heap c r) in
     case reopen_dir os (fid_Omode (c_fids c a)) (fc_Offset tc) fid (c_fs c) of
       (Some e, fid, s) \<Rightarrow> ufs_error os r (toError e) (put_Aux a fid (put_fs s c))
     | (None, fid, s) \<Rightarrow> do {
         (e, dirs, count, data, s) \<leftarrow> read_dirs os
           (\<lambda>d s. dir2Dir os s (uf_path fid @ ''/'' @ fi_Name d) d (c_Dotu c) (srv_Upool (c_Srv c)))
           (c_Dotu c) (uf_file fid) (uf_dirs fid) (fc_Data (req_Rc (c_heap c r))) s;
         let c = put_Aux a (fid\<lparr>uf_dirs := dirs\<rparr>) (put_fs s c);
         (case e of
            Some e \<Rightarrow> ufs_error os r (toError e) c
          | None \<Rightarrow> finish_read os r count data c) })"

definition Ufs_read_file :: "'s OS \<Rightarrow> nat \<Rightarrow> ufid \<Rightarrow> 's uconn \<Rightarrow> 's uconn option" where
  "Ufs_read_file os r fid c = (let rc = req_Rc (c_heap c r) in
     case os_ReadAt os (uf_file fid) (length (fc_Data rc)) (fc_Offset (req_Tc (c_heap c r))) (c_fs c) of
       ((count, data, e), s) \<Rightarrow> (case e of
           Some e \<Rightarrow> if e \<noteq> EOF then ufs_error os r (toError e) (put_fs s c) else finish_read os r count data (put_fs s c)
         | None \<Rightarrow> finish_read os r count data (put_fs s c)))"

definition Ufs_Read :: "'s OS \<Rightarrow> nat \<Rightarrow> 's uconn \<Rightarrow> 's uconn option" where
  "Ufs_Read os r = with_stat os r (\<lambda>a fid c. do {
     p \<leftarrow> InitRread (req_Rc (c_heap c r)) (fc_Count (req_Tc (c_heap c r)));
     st \<leftarrow> uf_st fid;
     let c = (case p of Inl _ \<Rightarrow> c | Inr rc \<Rightarrow> set_Rc r rc c);
     if IsDir st then Ufs_read_dir os r a fid c else Ufs_read_file os r fid c })"

subsection \<open>The other operations\<close>

definition Ufs_Write :: "'s OS \<Rightarrow> nat \<Rightarrow> 's uconn \<Rightarrow> 's uconn option" where
  "Ufs_Write os r = with_stat os r (\<lambda>a fid c. let tc = req_Tc (c_heap c r) in
     case os_WriteAt os (uf_file fid) (fc_Data tc) (fc_Offset tc) (c_fs c) of
       ((n, e), s) \<Rightarrow> (case e of
           Some e \<Rightarrow> ufs_error os r (toError e) (put_fs s c)
         | None \<Rightarrow> RespondRwrite (ufs_hooks os) r (of_nat n) (put_fs s c)))"

definition Ufs_Clunk :: "'s OS \<Rightarrow> nat \<Rightarrow> 's uconn \<Rightarrow> 's uconn option" where
  "Ufs_Clunk os r = RespondRclunk (ufs_hooks os) r"

definition Ufs_Remove :: "'s OS \<Rightarrow> nat \<Rightarrow> 's uconn \<Rightarrow> 's uconn option" where
  "Ufs_Remove os r = with_stat os r (\<lambda>a fid c. case os_Remove os (uf_path fid) (c_fs c) of
     (Some e, s) \<Rightarrow> ufs_error os r (toError e) (put_fs s c)
   | (None, s) \<Rightarrow> RespondRremove (ufs_hooks os) r (put_fs s c))"

definition Ufs_Stat :: "'s OS \<Rightarrow> nat \<Rightarrow> 's uconn \<Rightarrow> 's uconn option" where
  "Ufs_Stat os r = with_stat os r (\<lambda>a fid c. do {
     st \<leftarrow> uf_st fid;
     dir \<leftarrow> dir2Dir os (c_fs c) (uf_path fid) st (c_Dotu c) (srv_Upool (c_Srv c));
     RespondRstat (ufs_hooks os) r dir c })"

text \<open>The numbers of the user and the group that \<open>Wstat\<close> sets.\<close>

definition ufs_ids :: "bool \<Rightarrow> Users \<Rightarrow> Dir \<Rightarrow> perror + u32 \<times> u32" where
  "ufs_ids dotu up dir = (let (uid, gid) = (if dotu then (dir_Uidnum dir, dir_Gidnum dir) else (NOUID, NOUID)) in
     case (if uid = NOUID \<and> dir_Uid dir \<noteq> [] then map_option (\<lambda>u. of_int (usr_Id u)) (up_Uname2User up (dir_Uid dir)) else Some uid) of
       None \<Rightarrow> Inl Enouser
     | Some uid \<Rightarrow>
         (case (if gid = NOUID \<and> dir_Gid dir \<noteq> [] then map_option (\<lambda>g. of_int (grp_Id g)) (up_Gname2Group up (dir_Gid dir)) else Some gid) of
            None \<Rightarrow> Inl Enouser
          | Some gid \<Rightarrow> Inr (uid, gid)))"

definition os_when :: "bool \<Rightarrow> ('s \<Rightarrow> os_error option \<times> 's) \<Rightarrow> 's \<Rightarrow> os_error option \<times> 's" where
  "os_when b m s = (if b then m s else (None, s))"

text \<open>The changes one after the other, up to the first that fails.\<close>

definition wstat_host :: "'s OS \<Rightarrow> bool \<Rightarrow> Dir \<Rightarrow> u32 \<Rightarrow> u32 \<Rightarrow> ufid \<Rightarrow> 's \<Rightarrow> os_error option \<times> ufid \<times> 's" where
  "wstat_host os dotu dir uid gid fid s = (case os_when (dir_Mode dir \<noteq> 0xFFFFFFFF) (os_Chmod os (uf_path fid) (suid_mode dotu (dir_Mode dir))) s of
     (Some e, s) \<Rightarrow> (Some e, fid, s)
   | (None, s) \<Rightarrow> (case os_when (gid \<noteq> 0xFFFFFFFF \<or> uid \<noteq> 0xFFFFFFFF) (os_Chown os (uf_path fid) uid gid) s of
       (Some e, s) \<Rightarrow> (Some e, fid, s)
     | (None, s) \<Rightarrow> (let pth = (if dir_Name dir \<noteq> [] then dir_part (uf_path fid) @ ''/'' @ dir_Name dir else uf_path fid) in
         (case os_when (dir_Name dir \<noteq> []) (os_Rename os (uf_path fid) pth) s of
            (Some e, s) \<Rightarrow> (Some e, fid, s)
          | (None, s) \<Rightarrow> (let fid = fid\<lparr>uf_path := pth\<rparr> in
              (case os_when (dir_Length dir \<noteq> 0xFFFFFFFFFFFFFFFF) (os_Truncate os (uf_path fid) (dir_Length dir)) s of
                 (e, s) \<Rightarrow> (e, fid, s)))))))"

definition Ufs_Wstat :: "'s OS \<Rightarrow> nat \<Rightarrow> 's uconn \<Rightarrow> 's uconn option" where
  "Ufs_Wstat os r = with_stat os r (\<lambda>a fid c. let dir = fc_Dir (req_Tc (c_heap c r)) in
     case ufs_ids (c_Dotu c) (srv_Upool (c_Srv c)) dir of
       Inl err \<Rightarrow> ufs_error os r err c
     | Inr (uid, gid) \<Rightarrow> (case wstat_host os (c_Dotu c) dir uid gid fid (c_fs c) of
         (e, fid, s) \<Rightarrow> (let c = put_Aux a fid (put_fs s c) in
           (case e of Some e \<Rightarrow> ufs_error os r (toError e) c | None \<Rightarrow> RespondRwstat (ufs_hooks os) r c))))"

definition ufs_ops :: "'s OS \<Rightarrow> string \<Rightarrow> (ufid, 's) Ops" where
  "ufs_ops os root = \<lparr>op_FidDestroy = Some (Ufs_FidDestroy os), op_ReqRespond = None,
     op_ReqProcess = None, op_Flush = Some Ufs_Flush, op_Auth = None,
     op_Attach = Ufs_Attach os root, op_Walk = Ufs_Walk os, op_Open = Ufs_Open os, op_Create = Ufs_Create os,
     op_Read = Ufs_Read os, op_Write = Ufs_Write os, op_Clunk = Ufs_Clunk os, op_Remove = Ufs_Remove os,
     op_Stat = Ufs_Stat os, op_Wstat = Ufs_Wstat os\<rparr>"

subsection \<open>Ufs keeps the contract of a file server\<close>

interpretation ufs_end: responder "ufs_hooks os" for os
  by unfold_locales (auto simp: ufs_hooks_def Ufs_FidDestroy_def intro!: steps_Some split: option.split)

lemma quiet_put_Aux [simp]: "quiet c (put_Aux a fid d) = quiet c d"
  by (simp add: put_Aux_def)

lemma rnew_put_Aux [simp]: "c_rnew (put_Aux a fid c) = c_rnew c"
  by (simp add: put_Aux_def)

lemma ufs_responds:
  assumes q: "quiet c d" and r: "r < c_rnew c"
  shows "steps c (RespondError (ufs_hooks os) r e d)" "steps c (RespondRattach (ufs_hooks os) r q d)"
    "steps c (RespondRwalk (ufs_hooks os) r qs d)" "steps c (RespondRopen (ufs_hooks os) r q i d)"
    "steps c (RespondRcreate (ufs_hooks os) r q i d)" "steps c (RespondRwrite (ufs_hooks os) r n d)"
    "steps c (RespondRclunk (ufs_hooks os) r d)" "steps c (RespondRremove (ufs_hooks os) r d)"
    "steps c (RespondRstat (ufs_hooks os) r st d)" "steps c (RespondRwstat (ufs_hooks os) r d)"
    "steps c (Respond (ufs_hooks os) r d)"
proof -
  have "r < c_rnew d" using q r by (simp add: quiet_def)
  then show "steps c (RespondError (ufs_hooks os) r e d)" "steps c (RespondRattach (ufs_hooks os) r q d)"
    "steps c (RespondRwalk (ufs_hooks os) r qs d)" "steps c (RespondRopen (ufs_hooks os) r q i d)"
    "steps c (RespondRcreate (ufs_hooks os) r q i d)" "steps c (RespondRwrite (ufs_hooks os) r n d)"
    "steps c (RespondRclunk (ufs_hooks os) r d)" "steps c (RespondRremove (ufs_hooks os) r d)"
    "steps c (RespondRstat (ufs_hooks os) r st d)" "steps c (RespondRwstat (ufs_hooks os) r d)"
    "steps c (Respond (ufs_hooks os) r d)"
    by (auto intro!: steps_quiet [OF q] ufs_end.steps_RespondError ufs_end.steps_RespondR ufs_end.steps_Respond)
qed

lemma steps_with_stat:
  assumes r: "r < c_rnew c" and k: "\<And>a fid d. quiet c d \<Longrightarrow> steps c (k a fid d)"
  shows "steps c (with_stat os r k c)"
  unfolding with_stat_def
  by (rule steps_pure_bind)+ (use r in \<open>auto simp: ufs_responds k split: prod.split option.split\<close>)

lemma quiet_FidGet_eq: "FidGet n d = (x, e) \<Longrightarrow> quiet c d \<Longrightarrow> quiet c e"
  using quiet_FidGet [of d n] quiet_trans [of c d e] by simp

lemma create_node_steps:
  fixes c :: "'s uconn"
  assumes "quiet c d"
  shows "steps_res c (create_node os r pth d)"
proof -
  have pure: "steps_res c (Some (x, e))" if "quiet c e" for x and e :: "'s uconn"
    using that by (auto simp: steps_res_def quiet_good quiet_progress)
  have link: "steps_res c (link_node os n pth d)" for n
  proof (cases "FidGet n d")
    case (Pair x e)
    have q: "quiet c e" by (rule quiet_FidGet_eq [OF Pair assms])
    have l: "steps_res c (Option.bind (DecRef (ufs_hooks os) a (put_fs s e)) (\<lambda>c. Some (y, c)))" for a s y
      using steps_quiet [OF _ ufs_end.steps_DecRef, of c "put_fs s e" os a] q
      by (auto simp: steps_def steps_res_def split: Option.bind_splits)
    then show ?thesis using pure [OF q] unfolding link_node_def Pair Let_def
      by (cases x; cases "fid_Aux (c_fids e (the x))") (auto simp: steps_res_def [of c None] split: prod.split)
  qed
  show ?thesis
    using assms unfolding create_node_def Let_def
    by (auto intro!: pure link split: prod.split option.split)
qed

lemma finish_read_steps: "quiet c d \<Longrightarrow> r < c_rnew c \<Longrightarrow> steps c (finish_read os r n data d)"
  unfolding finish_read_def by (rule steps_pure_bind) (simp add: ufs_responds)

lemma ufs_steps:
  assumes r: "r < c_rnew c"
  shows "steps c (Ufs_Attach os root r c)" "steps c (Ufs_Walk os r c)" "steps c (Ufs_Open os r c)"
    "steps c (Ufs_Create os r c)" "steps c (Ufs_Read os r c)" "steps c (Ufs_Write os r c)" "steps c (Ufs_Clunk os r c)"
    "steps c (Ufs_Remove os r c)" "steps c (Ufs_Stat os r c)" "steps c (Ufs_Wstat os r c)"
proof -
  show "steps c (Ufs_Attach os root r c)"
    using r unfolding Ufs_Attach_def Let_def
    by (intro steps_if steps_pure_bind) (auto simp: ufs_responds intro!: steps_pure_bind split: prod.split option.split)
  show "steps c (Ufs_Walk os r c)"
    unfolding Ufs_Walk_def Let_def
    by (rule steps_with_stat [OF r], (rule steps_pure_bind)+) (use r in \<open>auto simp: ufs_responds split: prod.split\<close>)
  show "steps c (Ufs_Open os r c)"
    unfolding Ufs_Open_def Let_def
    by (rule steps_with_stat [OF r]) (use r in \<open>auto simp: ufs_responds intro!: steps_pure_bind split: prod.split option.split\<close>)
  show "steps c (Ufs_Create os r c)"
    unfolding Ufs_Create_def Let_def
    by (rule steps_with_stat [OF r], rule quiet_res_bind [OF _ create_node_steps])
      (use r in \<open>auto simp: ufs_responds intro!: steps_pure_bind split: prod.split option.split sum.split\<close>)
  have "steps c (Ufs_read_dir os r a fid d)" if "quiet c d" for a fid d
    using r that unfolding Ufs_read_dir_def Let_def
    by (auto simp: ufs_responds finish_read_steps intro!: steps_pure_bind split: prod.split option.split)
  moreover have "steps c (Ufs_read_file os r fid d)" if "quiet c d" for fid d
    using r that unfolding Ufs_read_file_def Let_def
    by (auto simp: ufs_responds finish_read_steps split: prod.split option.split)
  ultimately show "steps c (Ufs_Read os r c)"
    unfolding Ufs_Read_def Let_def
    by (intro steps_with_stat [OF r] steps_pure_bind steps_if) (simp_all split: sum.split)
  show "steps c (Ufs_Write os r c)"
    unfolding Ufs_Write_def Let_def
    by (rule steps_with_stat [OF r]) (use r in \<open>auto simp: ufs_responds split: prod.split option.split\<close>)
  show "steps c (Ufs_Clunk os r c)" using r by (simp add: Ufs_Clunk_def ufs_responds)
  show "steps c (Ufs_Remove os r c)"
    unfolding Ufs_Remove_def
    by (rule steps_with_stat [OF r]) (use r in \<open>auto simp: ufs_responds split: prod.split option.split\<close>)
  show "steps c (Ufs_Stat os r c)"
    unfolding Ufs_Stat_def
    by (intro steps_with_stat [OF r] steps_pure_bind) (use r in \<open>simp add: ufs_responds\<close>)
  show "steps c (Ufs_Wstat os r c)"
    unfolding Ufs_Wstat_def Let_def
    by (rule steps_with_stat [OF r]) (use r in \<open>auto simp: ufs_responds split: prod.split option.split sum.split\<close>)
qed

interpretation ufs: file_server "ufs_ops os root" for os root
proof
  show "steps c (f a c)" if "op_FidDestroy (ufs_ops os root) = Some f" for f a c
    using that ufs_end.destroy_steps [of os f] by (simp add: ufs_ops_def ufs_hooks_def)
qed (auto simp: ufs_ops_def ufs_steps Ufs_Flush_def steps_Some)

end
