(* ===== verification/Ex_Host.thy ===== *)
theory Ex_Host
  imports Ex_Ufs Srv_Readdir
begin

section \<open>What the host's files look like through ufs\<close>

subsection \<open>Reading a directory\<close>

text \<open>
  The open directory \<open>h\<close> of the host as the stream of entries that are still to be read; \<open>pending\<close> are
  the entries that were read from it and did not fit into a reply.
\<close>

definition streams :: "'s OS \<Rightarrow> nat option \<Rightarrow> ('s \<Rightarrow> FileInfo list) \<Rightarrow> bool" where
  "streams os h str \<longleftrightarrow> (\<forall>s. if str s = [] then \<exists>s'. os_Readdir os h 16 s = (([], Some EOF), s') \<and> str s' = []
     else \<exists>k s'. 0 < k \<and> os_Readdir os h 16 s = ((take k (str s), None), s') \<and> str s' = drop k (str s))"

definition pending :: "FileInfo list option \<Rightarrow> FileInfo list" where
  "pending dirs = (case dirs of None \<Rightarrow> [] | Some ds \<Rightarrow> ds)"

definition coded :: "(FileInfo \<Rightarrow> Dir option) \<Rightarrow> bool \<Rightarrow> FileInfo list \<Rightarrow> bytes" where
  "coded conv dotu ds = concat (map (\<lambda>d. enc_dir (the (conv d)) dotu) ds)"

definition codable :: "(FileInfo \<Rightarrow> Dir option) \<Rightarrow> bool \<Rightarrow> FileInfo \<Rightarrow> bool" where
  "codable conv dotu d \<longleftrightarrow> (\<exists>st. conv d = Some st \<and> dir_strs_ok st dotu)"

lemma coded_simps [simp]: "coded conv dotu [] = []" "coded conv dotu (ds @ es) = coded conv dotu ds @ coded conv dotu es"
  "coded conv dotu (d # ds) = enc_dir (the (conv d)) dotu @ coded conv dotu ds"
  by (simp_all add: coded_def)

lemma pending_infos [simp]: "pending None = []" "pending (Some ds) = ds"
  by (simp_all add: pending_def)

lemma pack_infos_entries:
  "\<forall>d\<in>set ds. codable conv dotu d \<Longrightarrow>
   \<exists>ps rest b'. pack_infos conv dotu ds b = Some (length (coded conv dotu ps), coded conv dotu ps @ b', rest)
     \<and> ds = ps @ rest \<and> length (coded conv dotu ps) + length b' = length b
     \<and> (rest \<noteq> [] \<longrightarrow> length b' < length (coded conv dotu [hd rest]))"
proof (induction ds arbitrary: b)
  case (Cons d ds)
  obtain st where st: "conv d = Some st" "dir_strs_ok st dotu" using Cons.prems by (auto simp: codable_def)
  note l = length_enc_dir [of st dotu]
  show ?case
  proof (cases "statsz st dotu \<le> length b")
    case True
    note p = PackDir_enc [OF st(2) True]
    have z: "0 < statsz st dotu" by (simp add: statsz_def)
    obtain ps rest b' where r: "pack_infos conv dotu ds (drop (statsz st dotu) b) = Some (length (coded conv dotu ps), coded conv dotu ps @ b', rest)"
        "ds = ps @ rest" "length (coded conv dotu ps) + length b' = length (drop (statsz st dotu) b)"
        "rest \<noteq> [] \<longrightarrow> length b' < length (coded conv dotu [hd rest])"
      using Cons.IH [of "drop (statsz st dotu) b"] Cons.prems by auto
    have "pack_infos conv dotu (d # ds) b = Some (length (coded conv dotu (d # ps)), coded conv dotu (d # ps) @ b', rest)"
      using p z l r(1) by (simp add: st)
    moreover have "length (coded conv dotu (d # ps)) + length b' = length b" using r(3) l True by (simp add: st)
    ultimately show ?thesis using r(2,4) by (metis append_Cons)
  next
    case False
    then have "PackDir st b dotu = Some (0, b)" by (simp add: PackDir_def Let_def)
    then have "pack_infos conv dotu (d # ds) b = Some (length (coded conv dotu []), coded conv dotu [] @ b, d # ds)"
      by (simp add: st)
    moreover have "length b < length (coded conv dotu [hd (d # ds)])" using False l by (simp add: st)
    ultimately show ?thesis by (metis add_0 append_Nil coded_simps(1) list.size(3))
  qed
qed (rule exI [of _ "[]"], simp)

lemma streams_more:
  assumes "streams os h str" "more_dirs os h dirs s = (y, s')"
  shows "case y of Inl (e, ds) \<Rightarrow> e = None \<and> ds = [] \<and> pending dirs @ str s = [] \<and> str s' = []
    | Inr ds \<Rightarrow> pending dirs @ str s = ds @ str s'"
proof (cases dirs)
  case None
  show ?thesis
  proof (cases "str s = []")
    case True
    then obtain s1 where s1: "os_Readdir os h 16 s = (([], Some EOF), s1)" "str s1 = []" using assms(1) unfolding streams_def by metis
    have "y = Inl (None, [])" "s' = s1" using assms(2) s1(1) None by (auto simp: more_dirs_def)
    then show ?thesis using True s1(2) None by simp
  next
    case False
    then obtain k s1 where k: "0 < k" "os_Readdir os h 16 s = ((take k (str s), None), s1)" "str s1 = drop k (str s)"
      using assms(1) unfolding streams_def by metis
    then have "y = Inr (take k (str s))" "s' = s1" using assms(2) None False by (auto simp: more_dirs_def)
    then show ?thesis using k(3) None by simp
  qed
qed (use assms(2) in auto)

lemma read_dirs_entries:
  assumes "streams os h str" "\<And>d s. conv d s = cv d"
  shows "\<forall>d\<in>set (pending dirs @ str s). codable cv dotu d \<Longrightarrow>
    \<exists>ps dirs' b' s'. read_dirs os conv dotu h dirs b s = Some (None, dirs', length (coded cv dotu ps), coded cv dotu ps @ b', s')
      \<and> pending dirs @ str s = ps @ pending dirs' @ str s' \<and> length (coded cv dotu ps) + length b' = length b
      \<and> (b' \<noteq> [] \<longrightarrow> pending dirs' @ str s' = [] \<or> (\<exists>d ds. pending dirs' = d # ds \<and> length b' < length (coded cv dotu [d])))"
proof (induction "2 * length b + (if dirs = None then 0 else 1)" arbitrary: dirs b s rule: less_induct)
  case less
  show ?case
  proof (cases "b = []")
    case True
    have "read_dirs os conv dotu h dirs b s = Some (None, dirs, length (coded cv dotu []), coded cv dotu [] @ [], s)"
      by (subst read_dirs.simps) (simp add: True)
    then show ?thesis using True by (intro exI [of _ "[]"] exI [of _ dirs] exI [of _ s]) simp
  next
    case b: False
    obtain y s1 where m: "more_dirs os h dirs s = (y, s1)" by (cases "more_dirs os h dirs s")
    note sm = streams_more [OF assms(1) m]
    show ?thesis
    proof (cases y)
      case (Inl x)
      then have "y = Inl (None, [])" and e: "pending dirs @ str s = []" "str s1 = []" using sm by auto
      then have "read_dirs os conv dotu h dirs b s = Some (None, Some [], length (coded cv dotu []), coded cv dotu [] @ b, s1)"
        by (subst read_dirs.simps) (simp add: b m)
      then show ?thesis using e by (intro exI [of _ "[]"] exI [of _ "Some []"] exI [of _ b] exI [of _ s1]) simp
    next
      case (Inr ds)
      then have p: "pending dirs @ str s = ds @ str s1" using sm by simp
      then have c: "\<forall>d\<in>set ds. codable cv dotu d" "\<forall>d\<in>set (str s1). codable cv dotu d" using less.prems by auto
      obtain ps rest b1 where r: "pack_infos cv dotu ds b = Some (length (coded cv dotu ps), coded cv dotu ps @ b1, rest)"
          "ds = ps @ rest" "length (coded cv dotu ps) + length b1 = length b"
          "rest \<noteq> [] \<longrightarrow> length b1 < length (coded cv dotu [hd rest])"
        using pack_infos_entries [OF c(1), of b] by blast
      show ?thesis
      proof (cases "rest = []")
        case False
        have "read_dirs os conv dotu h dirs b s = Some (None, Some rest, length (coded cv dotu ps), coded cv dotu ps @ b1, s1)"
          by (subst read_dirs.simps) (simp add: b m Inr assms(2) r(1) False)
        moreover have "\<exists>d ds. pending (Some rest) = d # ds \<and> length b1 < length (coded cv dotu [d])"
          using False r(4) by (cases rest) auto
        moreover have "pending dirs @ str s = ps @ pending (Some rest) @ str s1" using p r(2) by simp
        ultimately show ?thesis using r(3) by blast
      next
        case True
        have sh: "2 * length b1 < 2 * length b + (if dirs = None then 0 else 1)"
          using read_dirs_shrinks [OF b m [unfolded Inr], of cv dotu "length (coded cv dotu ps)" "coded cv dotu ps @ b1"] r(1) True by simp
        obtain qs dirs' b' s' where q: "read_dirs os conv dotu h None b1 s1 = Some (None, dirs', length (coded cv dotu qs), coded cv dotu qs @ b', s')"
            "pending None @ str s1 = qs @ pending dirs' @ str s'" "length (coded cv dotu qs) + length b' = length b1"
            "b' \<noteq> [] \<longrightarrow> pending dirs' @ str s' = [] \<or> (\<exists>d ds. pending dirs' = d # ds \<and> length b' < length (coded cv dotu [d]))"
          using less.hyps [of b1 None s1] sh c(2) by auto
        have "read_dirs os conv dotu h dirs b s = Some (None, dirs', length (coded cv dotu (ps @ qs)), coded cv dotu (ps @ qs) @ b', s')"
          by (subst read_dirs.simps) (simp add: b m Inr assms(2) r(1) True q(1))
        moreover have "pending dirs @ str s = (ps @ qs) @ pending dirs' @ str s'" using p r(2) True q(2) by simp
        moreover have "length (coded cv dotu (ps @ qs)) + length b' = length b" using r(3) q(3) by simp
        ultimately show ?thesis using q(4) by blast
      qed
    qed
  qed
qed

lemma reopen_dir_keeps: "reopen_dir os m off fid s = (e, fid1, s1) \<Longrightarrow> uf_path fid1 = uf_path fid \<and> uf_dirs fid1 = uf_dirs fid"
  by (auto simp: reopen_dir_def split: if_splits prod.splits)

text \<open>C39: A \<open>Tread\<close> of a directory of the host is answered with whole entries only, in the order of the
  host, as many as fit into the count: what an earlier read had got from the host and not delivered comes
  first, then the open directory, and what does not fit is kept, so that successive reads deliver every
  entry once.  At offset 0 the directory is opened again, but the entries kept from before still come
  first.\<close>

theorem ufs_read_directory:
  assumes "lone c r a" "fc_Type (req_Tc (c_heap c r)) = Tread" "fid_Aux (c_fids c a) = Some fid"
    and "os_Lstat os (uf_path fid) (c_fs c) = Inr st" "IsDir st"
    and "reopen_dir os (fid_Omode (c_fids c a)) (fc_Offset (req_Tc (c_heap c r))) (fid\<lparr>uf_st := Some st\<rparr>) (c_fs c) = (None, fid1, s1)"
    and "streams os (uf_file fid1) str"
    and "\<forall>d s. dir2Dir os s (uf_path fid @ ''/'' @ fi_Name d) d (c_Dotu c) (srv_Upool (c_Srv c)) = cv d"
    and "\<forall>d\<in>set (pending (uf_dirs fid) @ str s1). codable cv (c_Dotu c) d"
    and "11 + unat (fc_Count (req_Tc (c_heap c r))) \<le> length (fc_Buf (req_Rc (c_heap c r)))"
    and "11 + unat (fc_Count (req_Tc (c_heap c r))) < 2 ^ 32"
  shows "\<exists>d ps fid'. Ufs_Read os r c = Some d \<and> c_reqout d = c_reqout c @ [r]
    \<and> fc_Data (req_Rc (c_heap d r)) = coded cv (c_Dotu c) ps
    \<and> fid_Aux (c_fids d a) = Some fid' \<and> uf_file fid' = uf_file fid1
    \<and> pending (uf_dirs fid) @ str s1 = ps @ pending (uf_dirs fid') @ str (c_fs d)
    \<and> (length (coded cv (c_Dotu c) ps) = unat (fc_Count (req_Tc (c_heap c r))) \<or> pending (uf_dirs fid') @ str (c_fs d) = []
       \<or> (\<exists>e es. pending (uf_dirs fid') = e # es \<and> unat (fc_Count (req_Tc (c_heap c r))) < length (coded cv (c_Dotu c) (ps @ [e]))))"
proof -
  let ?tc = "req_Tc (c_heap c r)" and ?rc = "req_Rc (c_heap c r)" and ?u = "c_Dotu c"
  let ?n = "unat (fc_Count ?tc)"
  define fc1 where "fc1 = rread_fcall ?rc (fc_Count ?tc)"
  have i: "InitRread ?rc (fc_Count ?tc) = Some (Inr fc1)"
    using InitRread_eq [of "fc_Count ?tc" ?rc] assms(10,11) by (simp add: fc1_def)
  have b: "length (fc_Data fc1) = ?n" using assms(10) by (simp add: fc1_def rread_fcall_def Let_def)
  have k: "uf_path fid1 = uf_path fid" "uf_dirs fid1 = uf_dirs fid" using reopen_dir_keeps [OF assms(6)] by simp_all
  obtain ps dirs' b' s' where rd: "read_dirs os (\<lambda>d s. dir2Dir os s (uf_path fid @ ''/'' @ fi_Name d) d ?u (srv_Upool (c_Srv c)))
        ?u (uf_file fid1) (uf_dirs fid) (fc_Data fc1) s1 = Some (None, dirs', length (coded cv ?u ps), coded cv ?u ps @ b', s')"
      "pending (uf_dirs fid) @ str s1 = ps @ pending dirs' @ str s'" "length (coded cv ?u ps) + length b' = ?n"
      "b' \<noteq> [] \<longrightarrow> pending dirs' @ str s' = [] \<or> (\<exists>d ds. pending dirs' = d # ds \<and> length b' < length (coded cv ?u [d]))"
    using read_dirs_entries [OF assms(7), of "\<lambda>d s. dir2Dir os s (uf_path fid @ ''/'' @ fi_Name d) d ?u (srv_Upool (c_Srv c))" cv "uf_dirs fid" s1 ?u "fc_Data fc1"]
      assms(8,9) b by auto
  define m where "m = length (coded cv ?u ps)"
  have m: "unat (of_nat m :: u32) = m" "m \<le> ?n"
    using rd(3) assms(11) by (simp_all add: m_def unat_of_nat take_bit_nat_eq_self)
  obtain fc2 where fc2: "SetRreadCount (copy_Data fc1 (coded cv ?u ps @ b')) (of_nat m) = Some fc2" "fc_Data fc2 = coded cv ?u ps"
    using SetRreadCount_filled [of "fc_Count ?tc" ?rc "of_nat m" "coded cv ?u ps @ b'"] assms(10,11) i m rd(3) by (auto simp: m_def)
  then have ty: "fc_Type fc2 = Rread"
    using SetRreadCount_type [OF fc2(1)] by (simp add: fc1_def rread_fcall_def Let_def)
  define fid' where "fid' = fid1\<lparr>uf_dirs := dirs'\<rparr>"
  define e where "e = set_Rc r fc2 (put_Aux a fid' (put_fs s' (set_Rc r fc1 (put_Aux a (fid\<lparr>uf_st := Some st\<rparr>) c))))"
  have fa: "req_Fid (c_heap c r) = Some a" using assms(1) by (simp add: lone_def)
  have "Ufs_Read os r c = Respond (ufs_hooks os) r e"
    using assms(3-6) fa i rd(1) k fc2(1)
    by (simp add: Ufs_Read_def with_stat_def ufid_stat_def Ufs_read_dir_def finish_read_def put_Aux_def e_def fid'_def m_def)
  also have "\<dots> = Some (let d = drop_fid r a (set_fid a (\<lambda>x. if fid_Type x AND QTDIR \<noteq> 0
        then x\<lparr>fid_Diroffset := fid_Diroffset x + ucast (fc_Count fc2)\<rparr> else x) (answered r e)) in d\<lparr>c_reqout := c_reqout d @ [r]\<rparr>)"
  proof (rule Respond_lone)
    show "lone e r a" using assms(1) by (simp add: lone_def e_def put_Aux_def)
    show "post_handler (ufs_hooks os) r (answered r e) = Some (set_fid a (\<lambda>x. if fid_Type x AND QTDIR \<noteq> 0
        then x\<lparr>fid_Diroffset := fid_Diroffset x + ucast (fc_Count fc2)\<rparr> else x) (answered r e))"
      using assms(2) fa ty
      by (simp add: post_handler_def readPost_def e_def put_Aux_def msg_type_defs) (simp add: set_fid_def)
  qed (simp_all add: ufs_hooks_def)
  finally obtain d where d: "Ufs_Read os r c = Some d" "c_reqout d = c_reqout c @ [r]" "fc_Data (req_Rc (c_heap d r)) = coded cv ?u ps"
      "fid_Aux (c_fids d a) = Some fid'" "c_fs d = s'"
    using fc2(2) by (simp add: Let_def drop_fid_def e_def put_Aux_def answered_def)
  have fd: "uf_dirs fid' = dirs'" "uf_file fid' = uf_file fid1" by (simp_all add: fid'_def)
  have "length (coded cv ?u ps) = ?n \<or> pending dirs' @ str s' = []
       \<or> (\<exists>e es. pending dirs' = e # es \<and> ?n < length (coded cv ?u (ps @ [e])))"
    using rd(3,4) by (cases "b' = []") auto
  then show ?thesis using d fd rd(2) by (intro exI [of _ d] exI [of _ ps] exI [of _ fid']) simp
qed

definition info :: "string \<Rightarrow> u32 \<Rightarrow> FileInfo" where
  "info nm mode = \<lparr>fi_Name = nm, fi_Size = 0, fi_Mode = mode, fi_ModTime = 0,
     fi_Sys = \<lparr>st_Ino = 1, st_Mode = 0, st_Uid = 0, st_Gid = 0, st_Rdev = 0, st_Atim = 0\<rparr>\<rparr>"

text \<open>A host with one directory of two files; its state is what is left to read of the open directory.\<close>

definition one_dir :: "FileInfo list OS" where
  "one_dir = \<lparr>os_Lstat = (\<lambda>p s. if p = ''/'' then Inr (info ''/'' ModeDir) else if p = ''//x'' then Inr (info ''x'' 0) else Inl (Wrapped ''none'')),
     os_Readlink = (\<lambda>p s. Inl EOF), os_OpenFile = (\<lambda>p f m s. (Inr 7, [info ''x'' 0, info ''y'' 0])), os_Close = (\<lambda>h s. s),
     os_Readdir = (\<lambda>h n s. ((take n s, if s = [] then Some EOF else None), drop n s)),
     os_ReadAt = (\<lambda>h n p s. ((0, [], Some EOF), s)), os_WriteAt = (\<lambda>h d p s. ((0, Some EOF), s)),
     os_Mkdir = (\<lambda>p m s. (None, s)), os_Symlink = (\<lambda>p q s. (None, s)), os_Link = (\<lambda>p q s. (Some (Wrapped ''exists''), s)),
     os_Remove = (\<lambda>p s. (None, s)), os_Chmod = (\<lambda>p m s. (None, s)), os_Chown = (\<lambda>p u g s. (None, s)),
     os_Rename = (\<lambda>p q s. (None, s)), os_Truncate = (\<lambda>p l s. (None, s))\<rparr>"

definition host_users :: Users where
  "host_users = \<lparr>up_Uid2User = (\<lambda>n. Some \<lparr>usr_Name = ''glenda'', usr_Id = n, usr_Groups = []\<rparr>), up_Uname2User = (\<lambda>s. None),
     up_Gid2Group = (\<lambda>n. Some \<lparr>grp_Name = ''sys'', grp_Id = n\<rparr>), up_Gname2Group = (\<lambda>s. None)\<rparr>"

definition host_conn :: "Fcall \<Rightarrow> FileInfo list uconn" where
  "host_conn tc = (NewConn (bare_srv\<lparr>srv_Upool := host_users\<rparr>) [])
     \<lparr>c_Dotu := True, c_heap := (\<lambda>_. zero_Req\<lparr>req_Tc := tc, req_Rc := NewFcall 256, req_Fid := Some 0, req_status := {reqWork}\<rparr>),
      c_rnew := 1, c_reqs := [(0, 0)],
      c_fids := (\<lambda>_. zero_Fid\<lparr>fid_refcount := 2, fid_Type := QTDIR, fid_Aux := Some (zero_ufid\<lparr>uf_path := ''/''\<rparr>)\<rparr>)\<rparr>"

definition host_dir :: "FileInfo \<Rightarrow> Dir option" where
  "host_dir d = dir2Dir one_dir [] (''//'' @ fi_Name d) d True host_users"

theorem ufs_read_directory_witness:
  "\<exists>d ps fid'. Ufs_Read one_dir 0 (host_conn (zero_Fcall\<lparr>fc_Type := Tread, fc_Count := 200\<rparr>)) = Some d \<and> c_reqout d = [0]
    \<and> fc_Data (req_Rc (c_heap d 0)) = coded host_dir True ps \<and> fid_Aux (c_fids d 0) = Some fid' \<and> uf_file fid' = Some 7
    \<and> [info ''x'' 0, info ''y'' 0] = ps @ pending (uf_dirs fid') @ c_fs d"
proof -
  let ?tc = "zero_Fcall\<lparr>fc_Type := Tread, fc_Count := 200\<rparr>" and ?fid = "zero_ufid\<lparr>uf_path := ''/''\<rparr>"
  let ?c = "host_conn ?tc" and ?st = "info ''/'' ModeDir" and ?l = "[info ''x'' 0, info ''y'' 0]"
  have h: "c_heap ?c 0 = zero_Req\<lparr>req_Tc := ?tc, req_Rc := NewFcall 256, req_Fid := Some 0, req_status := {reqWork}\<rparr>"
    "c_fids ?c 0 = zero_Fid\<lparr>fid_refcount := 2, fid_Type := QTDIR, fid_Aux := Some ?fid\<rparr>" "c_Dotu ?c" "c_reqout ?c = []"
    "c_fs ?c = []" "srv_Upool (c_Srv ?c) = host_users"
    by (simp_all add: host_conn_def NewConn_def)
  have z: "uf_path ?fid = ''/''" "uf_dirs ?fid = None" "uf_file ?fid = None" by (simp_all add: zero_ufid_def)
  have 1: "lone ?c 0 0" by (simp add: lone_def h)
  have 2: "os_Lstat one_dir (uf_path ?fid) (c_fs ?c) = Inr ?st" "IsDir ?st"
    by (simp_all add: one_dir_def zero_ufid_def IsDir_def info_def ModeDir_def)
  have 3: "reopen_dir one_dir (fid_Omode (c_fids ?c 0)) (fc_Offset (req_Tc (c_heap ?c 0))) (?fid\<lparr>uf_st := Some ?st\<rparr>) (c_fs ?c)
      = (None, ?fid\<lparr>uf_st := Some ?st, uf_file := Some 7\<rparr>, ?l)"
    by (simp add: reopen_dir_def open_file_def h one_dir_def)
  have 4: "streams one_dir (uf_file (?fid\<lparr>uf_st := Some ?st, uf_file := Some 7\<rparr>)) (\<lambda>s. s)"
    by (auto simp: streams_def one_dir_def intro!: exI [of _ 16])
  have 5: "\<forall>d s. dir2Dir one_dir s (uf_path ?fid @ ''/'' @ fi_Name d) d (c_Dotu ?c) (srv_Upool (c_Srv ?c)) = host_dir d"
    using h(3) by (simp add: host_dir_def dir2Dir_def h z one_dir_def)
  have 6: "\<forall>d\<in>set (pending (uf_dirs ?fid) @ ?l). codable host_dir (c_Dotu ?c) d"
    using h(3) by (auto simp: z codable_def host_dir_def dir2Dir_def host_users_def info_def base_part_def or_none_def
        dir_strs_ok_def str_ok_def zero_Dir_def isBlock_def isChar_def S_IFBLK_def S_IFCHR_def)
  have 7: "fc_Type (req_Tc (c_heap ?c 0)) = Tread" "fid_Aux (c_fids ?c 0) = Some ?fid"
    "11 + unat (fc_Count (req_Tc (c_heap ?c 0))) \<le> length (fc_Buf (req_Rc (c_heap ?c 0)))" "11 + unat (fc_Count (req_Tc (c_heap ?c 0))) < 2 ^ 32"
    by (simp_all add: h NewFcall_def)
  have 8: "c_Dotu ?c = True" using h(3) by simp
  obtain d ps fid' where "Ufs_Read one_dir 0 ?c = Some d" "c_reqout d = c_reqout ?c @ [0]"
      "fc_Data (req_Rc (c_heap d 0)) = coded host_dir (c_Dotu ?c) ps" "fid_Aux (c_fids d 0) = Some fid'"
      "uf_file fid' = uf_file (?fid\<lparr>uf_st := Some ?st, uf_file := Some 7\<rparr>)" "pending (uf_dirs ?fid) @ ?l = ps @ pending (uf_dirs fid') @ c_fs d"
    using ufs_read_directory [OF 1 7(1,2) 2 3 4 5 6 7(3,4)] by blast
  then show ?thesis by (intro exI [of _ d] exI [of _ ps] exI [of _ fid']) (simp add: h z 8)
qed

subsection \<open>Walking\<close>

definition sub_path :: "string \<Rightarrow> string list \<Rightarrow> nat \<Rightarrow> string" where
  "sub_path p ns i = p @ concat (map (\<lambda>n. ''/'' @ n) (take i ns))"

definition exists_at :: "(string \<Rightarrow> os_error + FileInfo) \<Rightarrow> string \<Rightarrow> bool" where
  "exists_at lstat p \<longleftrightarrow> (\<exists>st. lstat p = Inr st)"

text \<open>The number of names up to the first one that does not exist.\<close>

definition reach :: "(string \<Rightarrow> os_error + FileInfo) \<Rightarrow> string \<Rightarrow> string list \<Rightarrow> nat" where
  "reach lstat p ns = length (takeWhile (\<lambda>i. exists_at lstat (sub_path p ns i)) [1..<Suc (length ns)])"

definition qid_at :: "(string \<Rightarrow> os_error + FileInfo) \<Rightarrow> string \<Rightarrow> Qid" where
  "qid_at lstat p = dir2Qid (projr (lstat p))"

lemma sub_path_simps [simp]: "sub_path p ns 0 = p" "sub_path p (n # ns) (Suc i) = sub_path (p @ ''/'' @ n) ns i"
    "sub_path p (n # ns) 1 = p @ ''/'' @ n"
  by (simp_all add: sub_path_def)

lemma upt_Suc_map: "[1..<Suc (Suc n)] = 1 # map Suc [1..<Suc n]"
  by (simp add: upt_conv_Cons map_Suc_upt)

lemma reach_Cons: "reach lstat p (n # ns) = (if exists_at lstat (p @ ''/'' @ n) then Suc (reach lstat (p @ ''/'' @ n) ns) else 0)"
  unfolding reach_def list.size(4) add_0_right add_Suc_right upt_Suc_map
  by (simp add: takeWhile_map comp_def One_nat_def [symmetric] del: One_nat_def)

lemma reach_le: "reach lstat p ns \<le> length ns"
  unfolding reach_def using length_takeWhile_le [of _ "[1..<Suc (length ns)]"] by (metis length_upt diff_Suc_1)

lemma walk_host_reach: "walk_host lstat p ns = (sub_path p ns (reach lstat p ns), map (\<lambda>i. qid_at lstat (sub_path p ns i)) [1..<Suc (reach lstat p ns)])"
proof (induction ns arbitrary: p)
  case Nil
  then show ?case by (simp add: reach_def)
next
  case (Cons n ns)
  show ?case
  proof (cases "lstat (p @ ''/'' @ n)")
    case (Inl e)
    then show ?thesis by (simp add: reach_Cons exists_at_def)
  next
    case (Inr st)
    then have e: "exists_at lstat (p @ ''/'' @ n)" by (simp add: exists_at_def)
    have "map (\<lambda>i. qid_at lstat (sub_path p (n # ns) i)) [1..<Suc (Suc (reach lstat (p @ ''/'' @ n) ns))]
        = dir2Qid st # map (\<lambda>i. qid_at lstat (sub_path (p @ ''/'' @ n) ns i)) [1..<Suc (reach lstat (p @ ''/'' @ n) ns)]"
      unfolding upt_Suc_map using Inr by (simp add: qid_at_def comp_def One_nat_def [symmetric] del: One_nat_def)
    then show ?thesis using Cons.IH [of "p @ ''/'' @ n"] Inr e by (simp add: reach_Cons)
  qed
qed

text \<open>C40: A walk over the host's files goes as far as every name on the way exists: it answers with the
  qids of just these, and points the new fid to the last one; nothing of the path is resolved on the
  way, so that \<open>..\<close> reaches the parents of the root that the server was given.  When not even the first
  name exists, it answers with an error and the new fid has no path.\<close>

theorem ufs_walk_reaches:
  assumes "req_Fid (c_heap c r) = Some a" "fid_Aux (c_fids c a) = Some fid" "req_Newfid (c_heap c r) = Some nf" "nf \<noteq> a"
    and "fid_Aux (c_fids c nf) = None" "os_Lstat os (uf_path fid) (c_fs c) = Inr st"
  shows "Ufs_Walk os r c = (let lstat = (\<lambda>p. os_Lstat os p (c_fs c)); names = fc_Wname (req_Tc (c_heap c r));
      k = reach lstat (uf_path fid) names; c' = put_Aux a (fid\<lparr>uf_st := Some st\<rparr>) c in
    if names \<noteq> [] \<and> k = 0 then RespondError (ufs_hooks os) r (PErr Enoent_ufs) (put_Aux nf zero_ufid c')
    else RespondRwalk (ufs_hooks os) r (map (\<lambda>i. qid_at lstat (sub_path (uf_path fid) names i)) [1..<Suc k])
      (put_Aux nf (zero_ufid\<lparr>uf_path := sub_path (uf_path fid) names k\<rparr>) c'))"
proof -
  define names where "names = fc_Wname (req_Tc (c_heap c r))"
  define lstat where "lstat = (\<lambda>p. os_Lstat os p (c_fs c))"
  define k where "k = reach lstat (uf_path fid) names"
  define P where "P = sub_path (uf_path fid) names k"
  define Q where "Q = map (\<lambda>i. qid_at lstat (sub_path (uf_path fid) names i)) [1..<Suc k]"
  define c' where "c' = put_Aux a (fid\<lparr>uf_st := Some st\<rparr>) c"
  have w: "walk_host lstat (uf_path fid) names = (P, Q)" by (simp only: walk_host_reach P_def Q_def k_def)
  have Q: "Q = [] \<longleftrightarrow> k = 0" by (simp add: Q_def)
  have h: "c_heap c' = c_heap c" "c_fs c' = c_fs c" "fid_Aux (c_fids c' nf) = None" "req_Newfid (c_heap c' r) = Some nf"
    using assms(3-5) by (simp_all add: c'_def put_Aux_def)
  have u: "put_Aux nf x (put_Aux nf y d) = put_Aux nf x d" "c_fs (put_Aux nf x d) = c_fs d"
      "fid_Aux (c_fids (put_Aux nf x d) nf) = Some x" for x y and d :: "'a uconn"
    by (simp_all add: put_Aux_def set_fid_def)
  have "Ufs_Walk os r c = (if names \<noteq> [] \<and> Q = [] then RespondError (ufs_hooks os) r (PErr Enoent_ufs) (put_Aux nf zero_ufid c')
      else RespondRwalk (ufs_hooks os) r Q (put_Aux nf (zero_ufid\<lparr>uf_path := P\<rparr>) c'))"
    unfolding Ufs_Walk_def with_stat_def assms(1,2) ufid_stat_def
    using w h u by (simp add: assms(2,6) names_def [symmetric] lstat_def [symmetric] c'_def [symmetric] Let_def)
  then show ?thesis
    unfolding Q Let_def names_def [symmetric] lstat_def [symmetric] k_def [symmetric] P_def [symmetric] Q_def [symmetric] c'_def [symmetric] .
qed

theorem ufs_walk_reaches_witness:
  "let c = (host_conn (zero_Fcall\<lparr>fc_Type := Twalk, fc_Wname := [''x'', ''y'']\<rparr>))\<lparr>c_fids := (\<lambda>a. if a = 1 then zero_Fid
       else zero_Fid\<lparr>fid_refcount := 2, fid_Aux := Some (zero_ufid\<lparr>uf_path := ''/''\<rparr>)\<rparr>)\<rparr>;
     c = set_req 0 (\<lambda>q. q\<lparr>req_Newfid := Some 1\<rparr>) c in
   Ufs_Walk one_dir 0 c = RespondRwalk (ufs_hooks one_dir) 0 [dir2Qid (info ''x'' 0)]
     (put_Aux 1 (zero_ufid\<lparr>uf_path := ''//x''\<rparr>) (put_Aux 0 (zero_ufid\<lparr>uf_path := ''/'', uf_st := Some (info ''/'' ModeDir)\<rparr>) c))"
proof -
  define c where "c = set_req 0 (\<lambda>q. q\<lparr>req_Newfid := Some 1\<rparr>)
    ((host_conn (zero_Fcall\<lparr>fc_Type := Twalk, fc_Wname := [''x'', ''y'']\<rparr>))\<lparr>c_fids := (\<lambda>a. if a = 1 then zero_Fid
       else zero_Fid\<lparr>fid_refcount := 2, fid_Aux := Some (zero_ufid\<lparr>uf_path := ''/''\<rparr>)\<rparr>)\<rparr>)"
  have h: "req_Fid (c_heap c 0) = Some 0" "fid_Aux (c_fids c 0) = Some (zero_ufid\<lparr>uf_path := ''/''\<rparr>)"
    "req_Newfid (c_heap c 0) = Some 1" "fid_Aux (c_fids c 1) = None" "fc_Wname (req_Tc (c_heap c 0)) = [''x'', ''y'']" "c_fs c = []"
    by (simp_all add: c_def host_conn_def NewConn_def)
  have l: "os_Lstat one_dir (uf_path (zero_ufid\<lparr>uf_path := ''/''\<rparr>)) (c_fs c) = Inr (info ''/'' ModeDir)"
    by (simp add: one_dir_def)
  have k: "reach (\<lambda>p. os_Lstat one_dir p []) ''/'' [''x'', ''y''] = 1"
    by (simp add: reach_Cons exists_at_def one_dir_def)
  have q: "qid_at (\<lambda>p. os_Lstat one_dir p []) ''//x'' = dir2Qid (info ''x'' 0)" by (simp add: qid_at_def one_dir_def)
  have "Ufs_Walk one_dir 0 c = RespondRwalk (ufs_hooks one_dir) 0 [dir2Qid (info ''x'' 0)]
     (put_Aux 1 (zero_ufid\<lparr>uf_path := ''//x''\<rparr>) (put_Aux 0 (zero_ufid\<lparr>uf_path := ''/'', uf_st := Some (info ''/'' ModeDir)\<rparr>) c))"
    using ufs_walk_reaches [OF h(1-3) _ h(4) l] k q by (simp add: h Let_def)
  then show ?thesis unfolding Let_def c_def .
qed

subsection \<open>Replies\<close>

text \<open>No request is answered twice by this file server either.\<close>

lemma ufs_at_most_one_reply:
  assumes "(conn_step (ufs_ops os root))\<^sup>*\<^sup>* (NewConn srv fs, []) (c, sent)"
  shows "distinct (sent @ c_reqout c)"
  using ufs.once_inv_reachable [OF assms once_inv_init] by (simp add: once_inv_def)

subsection \<open>What goes wrong\<close>

text \<open>An attach with a name starts there, whatever root the server was given.\<close>

lemma attach_ignores_root: "fc_Aname (req_Tc (c_heap c r)) \<noteq> [] \<Longrightarrow> Ufs_Attach os root r c = Ufs_Attach os root' r c"
  by (simp add: Ufs_Attach_def)

text \<open>A walk that fails on its way moves a fid that is walked to itself.\<close>

lemma partial_walk_moves:
  assumes "req_Fid (c_heap c r) = Some a" "fid_Aux (c_fids c a) = Some fid" "req_Newfid (c_heap c r) = Some a"
    and "os_Lstat os (uf_path fid) (c_fs c) = Inr st" "fc_Wname (req_Tc (c_heap c r)) = [x, y]"
    and "os_Lstat os (uf_path fid @ ''/'' @ x) (c_fs c) = Inr st1" "os_Lstat os (uf_path fid @ ''/'' @ x @ ''/'' @ y) (c_fs c) = Inl e"
  shows "Ufs_Walk os r c = RespondRwalk (ufs_hooks os) r [dir2Qid st1]
    (put_Aux a (fid\<lparr>uf_st := Some st, uf_path := uf_path fid @ ''/'' @ x\<rparr>) c)"
  using assms by (simp add: Ufs_Walk_def with_stat_def ufid_stat_def put_Aux_def set_fid_def)

text \<open>The error of a link is lost: when the name exists already, the old file is opened, as if it were the link.\<close>

lemma link_error_lost:
  assumes "fc_Perm (req_Tc (c_heap c r)) = DMLINK" "ParseUint (fc_Ext (req_Tc (c_heap c r))) = Some n"
    and "map_of (c_fidpool c) (of_nat n) = Some b" "fid_Aux (c_fids c b) = Some ofid" "0 < fid_refcount (c_fids c b)"
  shows "\<exists>d. create_node os r pth c = Some (Inr (None, None), d) \<and> c_fs d = snd (os_Link os (uf_path ofid) pth (c_fs c))"
  using assms by (simp add: create_node_def link_node_def FidGet_def IncRef_def DecRef_def Let_def DMDIR_def DMSYMLINK_def DMLINK_def
      split: prod.split)

text \<open>The case of a named pipe has no body: an existing file of the name is opened instead.\<close>

lemma named_pipe_ignored:
  "fc_Perm (req_Tc (c_heap c r)) = DMNAMEDPIPE \<Longrightarrow> create_node os r pth c = Some (Inr (None, None), c)"
  by (simp add: create_node_def DMDIR_def DMSYMLINK_def DMLINK_def DMNAMEDPIPE_def)

text \<open>Only errors that are numbers keep their number.\<close>

lemma wrapped_errors_lose_number: "toError (Wrapped s) = Error s EIO" "toError (Errno n s) = Error s n"
  by (simp_all add: toError_def)

end
