(* ===== verification/Spec2Isabelle.thy ===== *)
theory Spec2Isabelle
  imports P9_Wire P9_Limits P9_Fmt P9_Log Srv_Recv Srv_Session Srv_Readdir Chan_Mount Clnt_Like Ex_Store Ex_Host
begin

text \<open>
  A verification library for go9p with the client \<open>chan9\<close>: the 9P2000 protocol in Go, as a codec
  (\<open>src/p\<close>), a server framework (\<open>src/p/srv\<close>), a client with namespaces (\<open>src/p/chan9\<close>) and the older
  client of a single server it was made from (\<open>src/p/clnt\<close>).

  \<^bold>\<open>The program.\<close>  A client packs a request into an \<open>Fcall\<close>, gives it a tag and writes it to a
  connection; the server cuts the messages off the byte stream, runs a goroutine for every request,
  which calls the operations of a file server, and queues the response; the client finds the caller
  of a response by its tag.  On top of the requests there are fids, files, unions of directories and a
  mount table that joins several servers to one tree of names.

  \<^bold>\<open>Theories and sources.\<close>
  \<^item> \<open>Go_Prelude\<close>, \<open>Go_Heap\<close>: what is used of Go.  Unsigned integers are words of their width; a
    panic is \<open>None\<close>, an error value is the left side of a sum; pointers are addresses into heaps, and
    \<open>path\<close> relates a chain of pointers to a list.
  \<^item> \<open>P9_Types\<close>, \<open>P9_Codec\<close>, \<open>P9_Dir\<close> (\<open>p/p9.go\<close>), \<open>P9_Pack\<close> (\<open>p/packt.go\<close>, \<open>p/packr.go\<close>), \<open>P9_Unpack\<close>
    (\<open>p/unpack.go\<close>), \<open>P9_Fmt\<close> (\<open>p/fmt.go\<close>, \<open>p/osusers.go\<close>), \<open>P9_Log\<close> (\<open>p/log.go\<close>): definitions.  \<open>P9_Msg\<close> is the
    abstract message and its frame; \<open>P9_Roundtrip\<close>, \<open>P9_Wire\<close> prove that packing refines the frame and
    that unpacking reads it back; \<open>P9_Limits\<close> has the bounds and the inputs on which the code panics.
  \<^item> \<open>Srv_State\<close>, \<open>Srv_Respond\<close> (\<open>srv/srv.go\<close>), \<open>Srv_Handlers\<close> (\<open>srv/fcall.go\<close>, \<open>srv/respond.go\<close>), \<open>Srv_Conn\<close>
    (\<open>srv/conn.go\<close>), \<open>Srv_File\<close> (\<open>srv/file.go\<close>): definitions.  The state of a connection is the record \<open>Conn\<close>
    with heaps of requests and of fids.  \<open>Srv_Once\<close>, \<open>Srv_Reply\<close>: every request is answered at most
    once, in every interleaving; \<open>Srv_Fids\<close>: reference counts; \<open>Srv_Recv\<close>: the bytes of a connection and
    the requests made of them; \<open>Srv_Session\<close>: \<open>Tversion\<close>; \<open>Srv_Tree\<close>, \<open>Srv_Readdir\<close>: the file tree refines
    lists of children and path resolution; \<open>Srv_Faults\<close>: what goes wrong.
  \<^item> \<open>Chan_Pool\<close> (\<open>chan9/pool.go\<close>): a bitmap refines a set of ids, and ids held are distinct.
    \<open>Chan_Elem\<close> (\<open>chan9/nselem.go\<close>): parsing of names.  \<open>Chan_Clnt\<close> (\<open>chan9/clnt.go\<close>): requests and the
    receiver; \<open>Chan_Rpc\<close>: responses reach their callers.  \<open>Chan_Fid\<close> (\<open>chan9/walk.go\<close>, \<open>attach.go\<close>,
    \<open>close.go\<close>) and \<open>Chan_File\<close> (\<open>open.go\<close>, \<open>read.go\<close>, \<open>write.go\<close>, \<open>stat.go\<close>, \<open>remove.go\<close>): the operations on
    fids and files, in a world of several clients.  \<open>Chan_Mnttab\<close> (\<open>chan9/mnttab.go\<close>): the mount table;
    \<open>Chan_Ns\<close> (\<open>chan9/namespace.go\<close>): walking through it, and the operations on names.  \<open>Chan_Serve\<close> is
    the contract of a server that answers messages, kept by one that packs and unpacks with the codec;
    \<open>Chan_Io\<close> proves under it that whole buffers are written and read back.  \<open>Chan_Own\<close>: the numbers of
    the pools and the references of the clients are those of the fids in use, and walks end;
    \<open>Chan_Mount\<close>: unions of directories as lists.
  \<^item> \<open>Clnt_Fid\<close> (\<open>clnt/*.go\<close> but for the receiver): the fids and files of the older client.  \<open>Clnt_Like\<close>: it
    does what \<open>chan9\<close> does for a fid that is not in a union.
  \<^item> \<open>Ex_Ramfs\<close> (\<open>srv/examples/ramfs/ramfs.go\<close>): the memory file server, on top of \<open>Srv_File\<close>.
    \<open>Ex_Store\<close>: its blocks refine byte strings, its files stay well formed, and what a client writes to
    it through the codec is read back.
  \<^item> \<open>Ex_Ufs\<close> (\<open>srv/examples/ufs/ufs.go\<close>): the file server for the files of the host, which is a parameter,
    and that it keeps the contract of a file server.  \<open>Ex_Host\<close>: its walks and its reads of directories.

  \<^bold>\<open>Fuel and bounds.\<close>  \<open>Respond\<close> calls itself for the flushes of a request: \<open>2 * c_rnew + 2\<close> rounds are
    enough, as proved.  A walk along a chain of pointers has as fuel the number of addresses in use,
    which no chain without a cycle exceeds (\<open>path_length\<close>).  \<open>Readdir\<close>, \<open>rm_mnt\<close> and \<open>Umount\<close> take their fuel
    as an argument, since it is the server, or the form of the table, that decides when they end.

  \<^bold>\<open>Parameters.\<close>  The operations of a file server, of a single synthetic file and of authentication;
    the user tables; the clock; and for the client the server at the other end, a function from a
    message to a response or a broken connection.

  \<^bold>\<open>Not modelled.\<close>  A handler runs as one step, so that data races inside one are not seen, except
    where a definition takes the order as an argument (\<open>rm\<close>).  Listeners, dialling, TLS, the list of
    connections, statistics pages, debug output and the goroutine loops around \<open>select\<close> only move data
    or print it.  The requests of the package \<open>clnt\<close> and the other example programs are not modelled.
\<close>

end
